(* ===== verification/Prelude.thy ===== *)
theory Prelude
  imports Complex_Main "HOL-Library.Word" "HOL-Library.List_Lexorder" "HOL-Library.Char_ord"
    "HOL-Library.Monad_Syntax"
begin

text \<open>
  What the components share: the types that stand for Go's basic types, the parts of Go's
  standard library that the sources use on strings (package \<open>strings\<close> and the three regular
  expressions of the workflow package), Go maps as association lists, and the library facts on
  lists, maps and sorting that the component proofs use.

  Conventions. A Go string is a list of bytes, \<^typ>\<open>string\<close>, ordered bytewise as Go orders
  it. \<open>uint16\<close> and \<open>uint64\<close> are words of that width, so that addition wraps as it does in Go;
  \<open>int\<close> values that never come near the bounds of the machine are \<^typ>\<open>int\<close>. A Go map is an
  association list with distinct keys: its order is the order in which a \<open>range\<close> loop meets the
  entries, which Go leaves unspecified, so a theorem about every such list is a theorem about every
  iteration order. A Go map of booleans that only records membership is a set. An instant
  (\<open>time.Time\<close>) is an integer. The text of an error message is not modelled; an error is a value
  of a datatype with one constructor per kind of failure.
\<close>

type_synonym Identifier = string
type_synonym timestamp = int
type_synonym uint16 = "16 word"
type_synonym uint64 = "64 word"
type_synonym raw_message = string
type_synonym 'v gomap = "(string \<times> 'v) list"

named_theorems go_simps "unfolding rules for the Go library operations"
named_theorems route_laws "facts on route derivation"
named_theorems frame_laws "facts on execution frames"
named_theorems reducer_laws "unfolding rules for the projection reducers"

section \<open>Go maps as association lists\<close>

definition wf_map :: "('k \<times> 'v) list \<Rightarrow> bool" where
  "wf_map m \<longleftrightarrow> distinct (map fst m)"

definition map_put :: "'k \<Rightarrow> 'v \<Rightarrow> ('k \<times> 'v) list \<Rightarrow> ('k \<times> 'v) list" where
  "map_put k v m = (if map_of m k = None then m @ [(k, v)]
     else map (\<lambda>(x, w). if x = k then (x, v) else (x, w)) m)"

definition map_del :: "'k \<Rightarrow> ('k \<times> 'v) list \<Rightarrow> ('k \<times> 'v) list" where
  "map_del k m = filter (\<lambda>e. fst e \<noteq> k) m"

definition has_key :: "('k \<times> 'v) list \<Rightarrow> 'k \<Rightarrow> bool" where
  "has_key m k \<longleftrightarrow> map_of m k \<noteq> None"

definition sorted_keys :: "('k::linorder \<times> 'v) list \<Rightarrow> 'k list" where
  "sorted_keys m = sort (map fst m)"

lemma has_key_fst: "has_key m k \<longleftrightarrow> k \<in> fst ` set m"
  by (simp add: has_key_def map_of_eq_None_iff)

lemma has_key_map_of: "has_key m k \<longleftrightarrow> (\<exists>v. map_of m k = Some v)"
  by (auto simp: has_key_def)

lemma map_of_SomeD_has_key: "map_of m k = Some v \<Longrightarrow> has_key m k"
  by (simp add: has_key_def)

lemma map_of_overwrite:
  "map_of (map (\<lambda>(x, w). if x = k then (x, v) else (x, w)) m) y =
     (if y = k \<and> has_key m k then Some v else map_of m y)"
proof (induction m)
  case Nil
  then show ?case by (simp add: has_key_def)
next
  case (Cons e m)
  obtain x w where "e = (x, w)" by (cases e)
  with Cons.IH show ?case by (cases "x = k"; cases "y = x") (simp_all add: has_key_def)
qed

lemma map_of_put [simp]: "map_of (map_put k v m) y = (if y = k then Some v else map_of m y)"
proof (cases "has_key m k")
  case True
  then have "map_of m k \<noteq> None" by (simp add: has_key_def)
  with True show ?thesis by (auto simp: map_put_def map_of_overwrite)
next
  case False
  then show ?thesis by (simp add: map_put_def has_key_def map_add_def split: option.split)
qed

lemma keys_put: "map fst (map_put k v m) = (if has_key m k then map fst m else map fst m @ [k])"
  by (auto simp: map_put_def has_key_def)

lemma map_put_fresh: "map_of m k = None \<Longrightarrow> map_put k v m = m @ [(k, v)]"
  by (simp add: map_put_def)

lemma set_map_putE:
  assumes "x \<in> set (map_put k v m)"
  obtains "x = (k, v)" | "x \<in> set m"
  using assms by (auto simp: map_put_def split: if_splits prod.splits)

lemma wf_map_put [intro, simp]: "wf_map m \<Longrightarrow> wf_map (map_put k v m)"
  by (simp add: wf_map_def keys_put has_key_fst)

lemma map_of_del [simp]: "map_of (map_del k m) k' = (if k' = k then None else map_of m k')"
  by (induction m) (auto simp: map_del_def)

lemma wf_map_del [intro, simp]: "wf_map m \<Longrightarrow> wf_map (map_del k m)"
  by (simp add: wf_map_def map_del_def distinct_map_filter)

lemma wf_map_Nil [simp]: "wf_map []"
  by (simp add: wf_map_def)

lemma wf_map_map_of: "wf_map m \<Longrightarrow> (k, v) \<in> set m \<longleftrightarrow> map_of m k = Some v"
  by (simp add: wf_map_def)

lemma map_of_rev_wf:
  assumes "wf_map m"
  shows "map_of (rev m) = map_of m"
proof (rule ext)
  fix k
  have "map_of (rev m) k = Some v \<longleftrightarrow> map_of m k = Some v" for v
    using assms by (simp add: wf_map_def flip: rev_map)
  then show "map_of (rev m) k = map_of m k" by (cases "map_of m k"; cases "map_of (rev m) k") auto
qed

lemma set_sorted_keys [simp]: "set (sorted_keys m) = {k. has_key m k}"
  by (auto simp: sorted_keys_def has_key_fst)

lemma distinct_sorted_keys [simp]: "wf_map m \<Longrightarrow> distinct (sorted_keys m)"
  by (simp add: sorted_keys_def wf_map_def)

lemma sorted_sorted_keys [simp]: "sorted (sorted_keys m)"
  by (simp add: sorted_keys_def)

lemma map_of_map_entries: "map_of (map (\<lambda>(k, v). (k, f k v)) m) x = map_option (f x) (map_of m x)"
  by (induction m) auto

text \<open>Two maps with the same lookups have the same sorted keys: iterating over sorted keys does
  not depend on the map's own order.\<close>

lemma sorted_keys_cong:
  assumes "wf_map m" and "wf_map m'" and "map_of m = map_of m'"
  shows "sorted_keys m = sorted_keys m'"
proof (rule sorted_distinct_set_unique)
  show "set (sorted_keys m) = set (sorted_keys m')"
    using assms(3) by (auto simp: has_key_map_of)
qed (use assms in simp_all)

section \<open>Package strings\<close>

text \<open>The UTF-8 encodings of the runes for which \<open>unicode.IsSpace\<close> holds.\<close>

definition white_space :: "string list" where
  "white_space =
     [[CHR 0x09], [CHR 0x0A], [CHR 0x0B], [CHR 0x0C], [CHR 0x0D], [CHR 0x20],
      [CHR 0xC2, CHR 0x85], [CHR 0xC2, CHR 0xA0], [CHR 0xE1, CHR 0x9A, CHR 0x80],
      [CHR 0xE2, CHR 0x80, CHR 0x80], [CHR 0xE2, CHR 0x80, CHR 0x81], [CHR 0xE2, CHR 0x80, CHR 0x82],
      [CHR 0xE2, CHR 0x80, CHR 0x83], [CHR 0xE2, CHR 0x80, CHR 0x84], [CHR 0xE2, CHR 0x80, CHR 0x85],
      [CHR 0xE2, CHR 0x80, CHR 0x86], [CHR 0xE2, CHR 0x80, CHR 0x87], [CHR 0xE2, CHR 0x80, CHR 0x88],
      [CHR 0xE2, CHR 0x80, CHR 0x89], [CHR 0xE2, CHR 0x80, CHR 0x8A], [CHR 0xE2, CHR 0x80, CHR 0xA8],
      [CHR 0xE2, CHR 0x80, CHR 0xA9], [CHR 0xE2, CHR 0x80, CHR 0xAF], [CHR 0xE2, CHR 0x81, CHR 0x9F],
      [CHR 0xE3, CHR 0x80, CHR 0x80]]"

definition has_prefix :: "string \<Rightarrow> string \<Rightarrow> bool" where
  "has_prefix p s \<longleftrightarrow> take (length p) s = p"

text \<open>\<open>trim_with ws s\<close> drops one element of \<open>ws\<close> after the other from the front of \<open>s\<close>.\<close>

function trim_with :: "string list \<Rightarrow> string \<Rightarrow> string" where
  "trim_with ws s = (case find (\<lambda>w. w \<noteq> [] \<and> has_prefix w s) ws of
     None \<Rightarrow> s | Some w \<Rightarrow> trim_with ws (drop (length w) s))"
  by pat_completeness auto
termination
proof (relation "measure (\<lambda>(ws, s). length s)")
  fix ws s w
  assume "find (\<lambda>w. w \<noteq> [] \<and> has_prefix w s) ws = Some w"
  then have "w \<noteq> []" and "has_prefix w s" by (auto simp: find_Some_iff)
  then show "((ws, drop (length w) s), (ws, s)) \<in> measure (\<lambda>(ws, s). length s)"
    by (cases s; cases w) (auto simp: has_prefix_def)
qed simp

declare trim_with.simps [simp del]

definition TrimSpace :: "string \<Rightarrow> string" where
  "TrimSpace s = rev (trim_with (map rev white_space) (rev (trim_with white_space s)))"

text \<open>\<open>strings.TrimSpace(s) == ""\<close> and \<open>strings.TrimSpace(s) != s\<close>, the two tests the code makes.\<close>

definition blank :: "string \<Rightarrow> bool" where
  "blank s \<longleftrightarrow> TrimSpace s = ''''"

definition untrimmed :: "string \<Rightarrow> bool" where
  "untrimmed s \<longleftrightarrow> TrimSpace s \<noteq> s"

lemma trim_with_Nil [simp]: "trim_with ws [] = []"
  by (subst trim_with.simps) (auto simp: has_prefix_def find_Some_iff split: option.split)

lemma blank_Nil [simp]: "blank []"
  by (simp add: blank_def TrimSpace_def)

lemma not_blank_not_Nil: "\<not> blank s \<Longrightarrow> s \<noteq> []"
  by auto

text \<open>\<open>strings.Split\<close> with a one-byte separator.\<close>

fun split_on :: "char \<Rightarrow> string \<Rightarrow> string list" where
  "split_on c [] = [[]]"
| "split_on c (x # xs) = (if x = c then [] # split_on c xs
     else (case split_on c xs of [] \<Rightarrow> [[x]] | w # ws \<Rightarrow> (x # w) # ws))"

lemma split_on_nonempty [simp]: "split_on c s \<noteq> []"
  by (induction s) (auto split: list.splits)

lemma split_on_no_sep: "w \<in> set (split_on c s) \<Longrightarrow> c \<notin> set w"
  by (induction s arbitrary: w) (auto split: if_splits list.splits)

text \<open>Decimal text of a natural number, as \<open>%d\<close> prints it.\<close>

fun decimal :: "nat \<Rightarrow> string" where
  "decimal n = (if n < 10 then [char_of (48 + n)] else decimal (n div 10) @ [char_of (48 + n mod 10)])"

declare decimal.simps [simp del]

definition between :: "nat \<Rightarrow> nat \<Rightarrow> char \<Rightarrow> bool" where
  "between lo hi c \<longleftrightarrow> lo \<le> of_char c \<and> of_char c \<le> hi"

definition is_digit :: "char \<Rightarrow> bool" where "is_digit = between 48 57"
definition is_lower :: "char \<Rightarrow> bool" where "is_lower = between 97 122"
definition is_upper :: "char \<Rightarrow> bool" where "is_upper = between 65 90"
definition is_lower_hex :: "char \<Rightarrow> bool" where
  "is_lower_hex c \<longleftrightarrow> is_digit c \<or> between 97 102 c"

text \<open>\<open>^[0-9a-f]{64}$\<close> (\<open>digestPattern\<close>, \<open>sourceHashPattern\<close>) and \<open>^[a-z][a-z0-9_]{0,63}$\<close>
  (\<open>identifierPattern\<close>).\<close>

definition digestPattern :: "string \<Rightarrow> bool" where
  "digestPattern s \<longleftrightarrow> length s = 64 \<and> list_all is_lower_hex s"

definition identifierPattern :: "Identifier \<Rightarrow> bool" where
  "identifierPattern s \<longleftrightarrow> (case s of [] \<Rightarrow> False
     | c # cs \<Rightarrow> is_lower c \<and> length cs \<le> 63 \<and>
         list_all (\<lambda>x. is_lower x \<or> is_digit x \<or> x = CHR ''_'') cs)"

lemma digestPattern_nonempty: "digestPattern s \<Longrightarrow> s \<noteq> []"
  by (auto simp: digestPattern_def)

lemma identifierPattern_nonempty: "identifierPattern s \<Longrightarrow> s \<noteq> []"
  by (auto simp: identifierPattern_def)

section \<open>Sorted sets of identifiers\<close>

text \<open>Go code that collects a set in a map and returns its elements sorted.\<close>

definition sorted_set :: "'a::linorder list \<Rightarrow> 'a list" where
  "sorted_set xs = sort (remdups xs)"

lemma set_sorted_set [simp]: "set (sorted_set xs) = set xs"
  by (simp add: sorted_set_def)

lemma sorted_sorted_set [simp]: "sorted (sorted_set xs)"
  by (simp add: sorted_set_def)

lemma distinct_sorted_set [simp]: "distinct (sorted_set xs)"
  by (simp add: sorted_set_def)

lemma sorted_set_empty [simp]: "sorted_set xs = [] \<longleftrightarrow> xs = []"
  by (metis set_empty set_sorted_set)

lemma sorted_set_cong: "set xs = set ys \<Longrightarrow> sorted_set xs = sorted_set ys"
  by (rule sorted_distinct_set_unique) simp_all

lemma sorted_set_idem [simp]: "sorted_set (sorted_set xs) = sorted_set xs"
  by (rule sorted_set_cong) simp

lemma map_filter_find: "find P xs = Some x \<Longrightarrow> P x \<and> x \<in> set xs"
  by (auto simp: find_Some_iff)

section \<open>Results\<close>

text \<open>A fallible Go function returns a value and an error: \<open>Inl e\<close> is the error, \<open>Inr v\<close> the value.\<close>

fun result_bind :: "'e + 'a \<Rightarrow> ('a \<Rightarrow> 'e + 'b) \<Rightarrow> 'e + 'b" where
  "result_bind (Inl e) f = Inl e"
| "result_bind (Inr x) f = f x"

definition require :: "bool \<Rightarrow> 'e \<Rightarrow> 'e + unit" where
  "require b e = (if b then Inr () else Inl e)"

lemma result_bind_Inr [simp]: "result_bind m f = Inr y \<longleftrightarrow> (\<exists>x. m = Inr x \<and> f x = Inr y)"
  by (cases m) auto

lemma require_Inr [simp]: "require b e = Inr u \<longleftrightarrow> b"
  by (simp add: require_def)

lemma require_True [simp]: "require True e = Inr ()"
  by (simp add: require_def)

text \<open>Runs a check over a list and stops at the first error, as a loop with an early return does.\<close>

fun check_all :: "('a \<Rightarrow> 'e option) \<Rightarrow> 'a list \<Rightarrow> 'e option" where
  "check_all f [] = None"
| "check_all f (x # xs) = (case f x of Some e \<Rightarrow> Some e | None \<Rightarrow> check_all f xs)"

lemma check_all_None [simp]: "check_all f xs = None \<longleftrightarrow> (\<forall>x \<in> set xs. f x = None)"
  by (induction xs) (auto split: option.splits)

lemma check_all_Some: "check_all f xs = Some e \<Longrightarrow> \<exists>x \<in> set xs. f x = Some e"
  by (induction xs) (auto split: option.splits)

end
