(* ===== verification/Json.thy ===== *)
theory Json
  imports Prelude
begin

text \<open>
  Package \<open>encoding/json\<close> as far as the sources use it. A \<open>json.RawMessage\<close> is a list of bytes;
  \<open>json_parse\<close> is what \<open>json.Valid\<close> accepts and what \<open>Decode\<close> into an \<open>any\<close> with
  \<open>UseNumber\<close> produces (a number keeps its literal), \<open>unmarshal_object\<close> the members of the object
  that \<open>Unmarshal\<close> reads into a struct, with the raw text of each value, and the \<open>get_\<dots>\<close> functions
  what a struct field of each Go type receives. Strings are unquoted as Go does it: escapes are
  replaced, surrogate pairs are combined, malformed UTF-8 becomes U+FFFD. Containers nest at most
  10000 deep. \<open>number_rat\<close> is \<open>big.Rat.SetString\<close> on a JSON number.

  The parser spends one unit of fuel per call; \<open>parse_value_fuel\<close> shows that more fuel than twice
  the length of the text never changes the result, and that is what the callers supply.
\<close>

datatype json = JNull | JBool bool | JNumber string | JString string | JArray "json list"
  | JObject "(string \<times> json) list"

section \<open>Lexical syntax\<close>

definition is_ws :: "char \<Rightarrow> bool" where
  "is_ws c \<longleftrightarrow> c = CHR 0x20 \<or> c = CHR 0x09 \<or> c = CHR 0x0A \<or> c = CHR 0x0D"

definition skip_ws :: "string \<Rightarrow> string" where
  "skip_ws = dropWhile is_ws"

definition is_hex :: "char \<Rightarrow> bool" where
  "is_hex c \<longleftrightarrow> is_lower_hex c \<or> between 65 70 c"

definition hex_value :: "char \<Rightarrow> nat" where
  "hex_value c = (if is_digit c then of_char c - 48 else if between 97 102 c then of_char c - 87
     else of_char c - 55)"

definition hex4 :: "char \<Rightarrow> char \<Rightarrow> char \<Rightarrow> char \<Rightarrow> nat" where
  "hex4 a b c d = ((hex_value a * 16 + hex_value b) * 16 + hex_value c) * 16 + hex_value d"

text \<open>The UTF-8 encoding of a code point.\<close>

definition utf8 :: "nat \<Rightarrow> string" where
  "utf8 r = map char_of (if r < 0x80 then [r]
     else if r < 0x800 then [0xC0 + r div 64, 0x80 + r mod 64]
     else if r < 0x10000 then [0xE0 + r div 4096, 0x80 + r div 64 mod 64, 0x80 + r mod 64]
     else [0xF0 + r div 262144, 0x80 + r div 4096 mod 64, 0x80 + r div 64 mod 64, 0x80 + r mod 64])"

text \<open>The length of the well-formed UTF-8 sequence at the front of the text, 0 if there is none.\<close>

definition utf8_len :: "string \<Rightarrow> nat" where
  "utf8_len s =
    (let cont = between 0x80 0xBF; ok = (\<lambda>i p. i < length s \<and> p (s ! i)) in
     if ok 0 (between 0 0x7F) then 1
     else if ok 0 (between 0xC2 0xDF) \<and> ok 1 cont then 2
     else if ok 0 (between 0xE0 0xE0) \<and> ok 1 (between 0xA0 0xBF) \<and> ok 2 cont then 3
     else if ok 0 (\<lambda>c. between 0xE1 0xEC c \<or> between 0xEE 0xEF c) \<and> ok 1 cont \<and> ok 2 cont then 3
     else if ok 0 (between 0xED 0xED) \<and> ok 1 (between 0x80 0x9F) \<and> ok 2 cont then 3
     else if ok 0 (between 0xF0 0xF0) \<and> ok 1 (between 0x90 0xBF) \<and> ok 2 cont \<and> ok 3 cont then 4
     else if ok 0 (between 0xF1 0xF3) \<and> ok 1 cont \<and> ok 2 cont \<and> ok 3 cont then 4
     else if ok 0 (between 0xF4 0xF4) \<and> ok 1 (between 0x80 0x8F) \<and> ok 2 cont \<and> ok 3 cont then 4
     else 0)"

text \<open>The text between the quotes, escapes not yet replaced, and what follows the closing quote.\<close>

fun scan_string :: "string \<Rightarrow> (string \<times> string) option" where
  "scan_string [] = None"
| "scan_string (c # cs) =
     (if c = CHR 0x22 then Some ([], cs)
      else if (of_char c :: nat) < 32 then None
      else if c = CHR 0x5C then
        (case cs of [] \<Rightarrow> None
         | e # es \<Rightarrow>
            if e \<in> set [CHR 0x22, CHR 0x5C, CHR ''/'', CHR ''b'', CHR ''f'', CHR ''n'', CHR ''r'', CHR ''t'']
            then map_option (apfst (\<lambda>w. c # e # w)) (scan_string es)
            else if e = CHR ''u'' then
              (case es of x # y # z # w # rest \<Rightarrow>
                 if is_hex x \<and> is_hex y \<and> is_hex z \<and> is_hex w
                 then map_option (apfst (\<lambda>v. c # e # x # y # z # w # v)) (scan_string rest)
                 else None
               | _ \<Rightarrow> None)
            else None)
      else map_option (apfst (\<lambda>w. c # w)) (scan_string cs))"

definition simple_escape :: "char \<Rightarrow> char" where
  "simple_escape e = (if e = CHR ''b'' then CHR 0x08 else if e = CHR ''f'' then CHR 0x0C
     else if e = CHR ''n'' then CHR 0x0A else if e = CHR ''r'' then CHR 0x0D
     else if e = CHR ''t'' then CHR 0x09 else e)"

fun unquote :: "string \<Rightarrow> string" where
  "unquote [] = []"
| "unquote (c # cs) =
     (if c = CHR 0x5C then
        (case cs of [] \<Rightarrow> []
         | e # es \<Rightarrow>
            if e = CHR ''u'' then
              (case es of x # y # z # w # rest \<Rightarrow>
                 (let r = hex4 x y z w in
                  if 0xD800 \<le> r \<and> r < 0xE000 then
                    (case rest of b # u # x' # y' # z' # w' # rest' \<Rightarrow>
                       (let r' = hex4 x' y' z' w' in
                        if b = CHR 0x5C \<and> u = CHR ''u'' \<and> r < 0xDC00 \<and> 0xDC00 \<le> r' \<and> r' < 0xE000
                        then utf8 (0x10000 + (r - 0xD800) * 0x400 + (r' - 0xDC00)) @ unquote rest'
                        else utf8 0xFFFD @ unquote rest)
                     | _ \<Rightarrow> utf8 0xFFFD @ unquote rest)
                  else utf8 r @ unquote rest)
               | _ \<Rightarrow> [])
            else simple_escape e # unquote es)
      else (let n = utf8_len (c # cs) in
            if n = 0 then utf8 0xFFFD @ unquote cs
            else c # take (n - 1) cs @ unquote (drop (n - 1) cs)))"

definition scan_int :: "string \<Rightarrow> string option" where
  "scan_int s = (case s of [] \<Rightarrow> None
     | c # cs \<Rightarrow> if c = CHR ''0'' then Some cs
         else if is_digit c then Some (dropWhile is_digit cs) else None)"

definition scan_digits :: "string \<Rightarrow> string option" where
  "scan_digits s = (case s of [] \<Rightarrow> None
     | c # cs \<Rightarrow> if is_digit c then Some (dropWhile is_digit cs) else None)"

definition scan_frac :: "string \<Rightarrow> string option" where
  "scan_frac s = (case s of [] \<Rightarrow> Some []
     | c # cs \<Rightarrow> if c = CHR ''.'' then scan_digits cs else Some s)"

definition scan_exp :: "string \<Rightarrow> string option" where
  "scan_exp s = (case s of [] \<Rightarrow> Some []
     | c # cs \<Rightarrow> if c = CHR ''e'' \<or> c = CHR ''E'' then
           (case cs of [] \<Rightarrow> None
            | x # xs \<Rightarrow> if x = CHR ''+'' \<or> x = CHR ''-'' then scan_digits xs else scan_digits cs)
         else Some s)"

text \<open>The literal of the number at the front of the text and what follows it.\<close>

definition scan_number :: "string \<Rightarrow> (string \<times> string) option" where
  "scan_number s = do {
     a \<leftarrow> scan_int (case s of [] \<Rightarrow> [] | c # cs \<Rightarrow> if c = CHR ''-'' then cs else s);
     b \<leftarrow> scan_frac a;
     r \<leftarrow> scan_exp b;
     Some (take (length s - length r) s, r) }"

section \<open>The parser\<close>

fun parse_value :: "nat \<Rightarrow> nat \<Rightarrow> string \<Rightarrow> (json \<times> string) option"
  and parse_elems :: "nat \<Rightarrow> nat \<Rightarrow> string \<Rightarrow> (json list \<times> string) option"
  and parse_members :: "nat \<Rightarrow> nat \<Rightarrow> string \<Rightarrow> ((string \<times> string \<times> json) list \<times> string) option"
where
  "parse_value 0 d s = None"
| "parse_value (Suc n) d s = (case skip_ws s of [] \<Rightarrow> None
     | c # cs \<Rightarrow>
        if c = CHR 0x22 then map_option (apfst (\<lambda>w. JString (unquote w))) (scan_string cs)
        else if c = CHR 0x7B then
          (if d = 0 then None
           else (case skip_ws cs of [] \<Rightarrow> None
             | x # xs \<Rightarrow> if x = CHR 0x7D then Some (JObject [], xs)
                 else map_option (apfst (\<lambda>ms. JObject (map (\<lambda>(k, _, v). (k, v)) ms)))
                        (parse_members n (d - 1) (x # xs))))
        else if c = CHR 0x5B then
          (if d = 0 then None
           else (case skip_ws cs of [] \<Rightarrow> None
             | x # xs \<Rightarrow> if x = CHR 0x5D then Some (JArray [], xs)
                 else map_option (apfst JArray) (parse_elems n (d - 1) (x # xs))))
        else if has_prefix ''null'' (c # cs) then Some (JNull, drop 3 cs)
        else if has_prefix ''true'' (c # cs) then Some (JBool True, drop 3 cs)
        else if has_prefix ''false'' (c # cs) then Some (JBool False, drop 4 cs)
        else map_option (apfst JNumber) (scan_number (c # cs)))"
| "parse_elems 0 d s = None"
| "parse_elems (Suc n) d s = (case parse_value n d s of None \<Rightarrow> None
     | Some (v, r) \<Rightarrow> (case skip_ws r of [] \<Rightarrow> None
         | x # xs \<Rightarrow> if x = CHR 0x5D then Some ([v], xs)
             else if x = CHR '','' then map_option (apfst (\<lambda>vs. v # vs)) (parse_elems n d xs)
             else None))"
| "parse_members 0 d s = None"
| "parse_members (Suc n) d s = (case skip_ws s of [] \<Rightarrow> None
     | q # ks \<Rightarrow> if q \<noteq> CHR 0x22 then None
         else (case scan_string ks of None \<Rightarrow> None
           | Some (k, r) \<Rightarrow> (case skip_ws r of [] \<Rightarrow> None
             | c # r' \<Rightarrow> if c \<noteq> CHR '':'' then None
                 else (let t = skip_ws r' in
                   case parse_value n d t of None \<Rightarrow> None
                   | Some (v, u) \<Rightarrow>
                      (let m = (unquote k, take (length t - length u) t, v) in
                       case skip_ws u of [] \<Rightarrow> None
                       | x # xs \<Rightarrow> if x = CHR 0x7D then Some ([m], xs)
                           else if x = CHR '','' then map_option (apfst (\<lambda>ms. m # ms)) (parse_members n d xs)
                           else None)))))"

section \<open>Fuel\<close>

lemma skip_ws_length: "length (skip_ws s) \<le> length s"
  by (simp add: skip_ws_def length_dropWhile_le)

lemma skip_ws_Cons_length: "skip_ws s = c # cs \<Longrightarrow> length cs < length s"
  using skip_ws_length [of s] by simp

lemma scan_string_length: "scan_string s = Some (w, r) \<Longrightarrow> length r < length s"
proof (induction s arbitrary: w r rule: length_induct)
  case (1 s)
  then have IH: "scan_string t = Some (v, r) \<Longrightarrow> length t < length s \<Longrightarrow> length r < length t"
    for t v r by blast
  show ?case
  proof (cases s)
    case Nil
    with "1.prems" show ?thesis by simp
  next
    case (Cons c cs)
    with "1.prems" show ?thesis
      by (auto split: if_splits list.splits dest!: IH)
  qed
qed

lemma scan_digits_length: "scan_digits s = Some r \<Longrightarrow> length r < length s"
  by (auto simp: scan_digits_def less_Suc_eq_le length_dropWhile_le split: list.splits if_splits)

lemma scan_number_length: "scan_number s = Some (w, r) \<Longrightarrow> length r < length s"
proof -
  assume a: "scan_number s = Some (w, r)"
  define s' where "s' = (case s of [] \<Rightarrow> [] | c # cs \<Rightarrow> if c = CHR ''-'' then cs else s)"
  have s': "length s' \<le> length s" by (auto simp: s'_def split: list.splits)
  from a obtain x y where x: "scan_int s' = Some x" and y: "scan_frac x = Some y"
    and r: "scan_exp y = Some r"
    by (auto simp: scan_number_def s'_def bind_eq_Some_conv)
  from x have "length x < length s'"
    by (auto simp: scan_int_def less_Suc_eq_le length_dropWhile_le split: list.splits if_splits)
  moreover from y have "length y \<le> length x"
    by (auto simp: scan_frac_def split: list.splits if_splits dest: scan_digits_length)
  moreover from r have "length r \<le> length y"
    by (auto simp: scan_exp_def split: list.splits if_splits dest!: scan_digits_length)
  ultimately show ?thesis using s' by simp
qed

lemma parse_shorter_all:
  "(\<forall>d s v r. parse_value n d s = Some (v, r) \<longrightarrow> length r < length s) \<and>
   (\<forall>d s vs r. parse_elems n d s = Some (vs, r) \<longrightarrow> length r < length s) \<and>
   (\<forall>d s ms r. parse_members n d s = Some (ms, r) \<longrightarrow> length r < length s)"
proof (induction n)
  case 0
  then show ?case by simp
next
  case (Suc n)
  then have V: "parse_value n d s = Some (v, r) \<Longrightarrow> length r < length s"
    and E: "parse_elems n d s = Some (vs, r) \<Longrightarrow> length r < length s"
    and M: "parse_members n d s = Some (ms, r) \<Longrightarrow> length r < length s" for d s v vs ms r
    by blast+
  have V': "parse_value n d (skip_ws s) = Some (v, r) \<Longrightarrow> length r < length s" for d s v r
    using V [of d "skip_ws s" v r] skip_ws_length [of s] by simp
  have "length r < length s" if "parse_value (Suc n) d s = Some (v, r)" for d s v r
    using that by (auto split: list.splits if_splits
        dest!: E M scan_string_length scan_number_length skip_ws_Cons_length)
  moreover have "length r < length s" if "parse_elems (Suc n) d s = Some (vs, r)" for d s vs r
    using that by (auto split: list.splits if_splits option.splits prod.splits
        dest!: V E skip_ws_Cons_length)
  moreover have "length r < length s" if "parse_members (Suc n) d s = Some (ms, r)" for d s ms r
    using that by (auto simp: Let_def split: list.splits if_splits option.splits prod.splits
        dest!: V' M scan_string_length skip_ws_Cons_length)
  ultimately show ?case by blast
qed

lemmas parse_value_length = parse_shorter_all [THEN conjunct1, rule_format]

lemma parse_fuel_all:
  "(\<forall>m d s. 2 * length s < n \<longrightarrow> 2 * length s < m \<longrightarrow> parse_value n d s = parse_value m d s) \<and>
   (\<forall>m d s. 2 * length s + 1 < n \<longrightarrow> 2 * length s + 1 < m \<longrightarrow> parse_elems n d s = parse_elems m d s) \<and>
   (\<forall>m d s. 2 * length s + 1 < n \<longrightarrow> 2 * length s + 1 < m \<longrightarrow> parse_members n d s = parse_members m d s)"
proof (induction n)
  case 0
  then show ?case by simp
next
  case (Suc n)
  then have V: "2 * length s < n \<Longrightarrow> 2 * length s < m \<Longrightarrow> parse_value n d s = parse_value m d s"
    and E: "2 * length s + 1 < n \<Longrightarrow> 2 * length s + 1 < m \<Longrightarrow> parse_elems n d s = parse_elems m d s"
    and M: "2 * length s + 1 < n \<Longrightarrow> 2 * length s + 1 < m \<Longrightarrow> parse_members n d s = parse_members m d s"
    for m d s by blast+
  have fv: "parse_value (Suc n) d s = parse_value m d s" if L: "2 * length s < Suc n" "2 * length s < m"
    for m d s
  proof -
    obtain k where m: "m = Suc k" using L by (cases m) auto
    have t: "parse_elems n e t = parse_elems k e t \<and> parse_members n e t = parse_members k e t"
      if "skip_ws s = c # cs" and "skip_ws cs = t" for c cs t e
      using that skip_ws_Cons_length [of s c cs] skip_ws_length [of cs] L m E [of t k e] M [of t k e]
      by simp
    show ?thesis unfolding m parse_value.simps
      using t by (auto split: list.split)
  qed
  have fe: "parse_elems (Suc n) d s = parse_elems m d s"
    if L: "2 * length s + 1 < Suc n" "2 * length s + 1 < m" for m d s
  proof -
    obtain k where m: "m = Suc k" using L by (cases m) auto
    have v: "parse_value n d s = parse_value k d s" using L m by (intro V) auto
    have "parse_elems n d xs = parse_elems k d xs"
      if "parse_value k d s = Some (v, r)" and "skip_ws r = x # xs" for v r x xs
      using that parse_value_length [of k d s v r] skip_ws_Cons_length [of r x xs] L m
      by (intro E) auto
    then show ?thesis unfolding m parse_elems.simps v by (auto split: list.split option.split)
  qed
  have fm: "parse_members (Suc n) d s = parse_members m d s"
    if L: "2 * length s + 1 < Suc n" "2 * length s + 1 < m" for m d s
  proof -
    obtain k where m: "m = Suc k" using L by (cases m) auto
    have key: "length (skip_ws r') + 3 \<le> length s"
      if "skip_ws s = q # ks" "scan_string ks = Some (w, r)" "skip_ws r = c # r'" for q ks w r c r'
      using that skip_ws_Cons_length [of s q ks] scan_string_length [of ks w r]
        skip_ws_Cons_length [of r c r'] skip_ws_length [of r'] by simp
    show ?thesis
    proof (cases "skip_ws s")
      case Nil
      then show ?thesis unfolding m by simp
    next
      case (Cons q ks)
      show ?thesis
      proof (cases "scan_string ks")
        case None
        with Cons show ?thesis unfolding m by simp
      next
        case (Some p)
        obtain w r where p: "p = (w, r)" by (cases p)
        show ?thesis
        proof (cases "skip_ws r")
          case Nil
          with Cons Some p show ?thesis unfolding m by simp
        next
          case (Cons c r')
          note len = key [OF \<open>skip_ws s = q # ks\<close> Some [unfolded p] Cons]
          have v: "parse_value n d (skip_ws r') = parse_value k d (skip_ws r')"
            using len L m by (intro V) auto
          have ms: "parse_members n d xs = parse_members k d xs"
            if "parse_value k d (skip_ws r') = Some (v, u)" "skip_ws u = x # xs" for v u x xs
            using len parse_value_length [OF that(1)] skip_ws_Cons_length [OF that(2)] L m
            by (intro M) auto
          note front = \<open>skip_ws s = q # ks\<close> Some p Cons v
          show ?thesis
          proof (cases "parse_value k d (skip_ws r')")
            case None
            with front show ?thesis unfolding m by simp
          next
            case (Some vu)
            obtain val u where vu: "vu = (val, u)" by (cases vu)
            show ?thesis
            proof (cases "skip_ws u")
              case Nil
              with Some vu front show ?thesis unfolding m by simp
            next
              case (Cons x xs)
              with Some vu have "parse_members n d xs = parse_members k d xs" by (intro ms) simp_all
              with Some vu front Cons show ?thesis unfolding m by (simp add: Let_def)
            qed
          qed
        qed
      qed
    qed
  qed
  show ?case by (intro conjI allI impI) (rule fv fe fm; assumption)+
qed

lemma parse_value_fuel:
  "2 * length s < n \<Longrightarrow> parse_value n d s = parse_value (Suc (2 * length s)) d s"
  by (rule parse_fuel_all [THEN conjunct1, rule_format]) simp_all

definition maxNestingDepth :: nat where
  "maxNestingDepth = 10000"

text \<open>The first value of a text, as \<open>Decoder.Decode\<close> reads it, and the value of a whole text, as
  \<open>Unmarshal\<close> and \<open>Valid\<close> read it.\<close>

definition json_first :: "raw_message \<Rightarrow> json option" where
  "json_first s = map_option fst (parse_value (Suc (2 * length s)) maxNestingDepth s)"

definition json_parse :: "raw_message \<Rightarrow> json option" where
  "json_parse s = (case parse_value (Suc (2 * length s)) maxNestingDepth s of
     Some (v, r) \<Rightarrow> if skip_ws r = [] then Some v else None | None \<Rightarrow> None)"

definition json_valid :: "raw_message \<Rightarrow> bool" where
  "json_valid s \<longleftrightarrow> json_parse s \<noteq> None"

text \<open>The value of a key in a \<open>map[string]any\<close>: a repeated key keeps its last value.\<close>

definition object_get :: "(string \<times> json) list \<Rightarrow> string \<Rightarrow> json option" where
  "object_get ms k = map_of (rev ms) k"

section \<open>Struct fields\<close>

type_synonym members = "(string \<times> string \<times> json) list"

text \<open>\<open>foldName\<close>: ASCII letters to upper case; the two runes outside ASCII that fold to an ASCII
  letter are the long s and the Kelvin sign.\<close>

fun fold_name :: "string \<Rightarrow> string" where
  "fold_name [] = []"
| "fold_name (c # cs) =
     (if has_prefix [CHR 0xC5, CHR 0xBF] (c # cs) then CHR ''S'' # fold_name (drop 1 cs)
      else if has_prefix [CHR 0xE2, CHR 0x84, CHR 0xAA] (c # cs) then CHR ''K'' # fold_name (drop 2 cs)
      else (if is_lower c then char_of ((of_char c :: nat) - 32) else c) # fold_name cs)"

definition unmarshal_object :: "raw_message \<Rightarrow> members option" where
  "unmarshal_object s = (case json_parse s of
     Some JNull \<Rightarrow> Some []
   | Some (JObject []) \<Rightarrow> Some []
   | Some (JObject _) \<Rightarrow>
       map_option fst (parse_members (2 * length s) (maxNestingDepth - 1) (drop 1 (skip_ws s)))
   | _ \<Rightarrow> None)"

fun field_fold :: "(string \<Rightarrow> json \<Rightarrow> 'a \<Rightarrow> 'a option) \<Rightarrow> string \<Rightarrow> 'a \<Rightarrow> members \<Rightarrow> 'a option" where
  "field_fold f name acc [] = Some acc"
| "field_fold f name acc ((k, raw, v) # ms) =
     (if fold_name k = fold_name name
      then (case f raw v acc of None \<Rightarrow> None | Some acc' \<Rightarrow> field_fold f name acc' ms)
      else field_fold f name acc ms)"

definition digits_value :: "string \<Rightarrow> nat" where
  "digits_value ds = foldl (\<lambda>n c. 10 * n + (of_char c - 48)) 0 ds"

definition parse_int64 :: "string \<Rightarrow> int option" where
  "parse_int64 lit =
    (let neg = has_prefix ''-'' lit; ds = (if neg then drop 1 lit else lit);
         n = int (digits_value ds) in
     if ds = [] \<or> \<not> list_all is_digit ds then None
     else if neg then (if n \<le> 2 ^ 63 then Some (- n) else None)
     else (if n < 2 ^ 63 then Some n else None))"

definition parse_uint64 :: "string \<Rightarrow> uint64 option" where
  "parse_uint64 lit = (if lit = [] \<or> \<not> list_all is_digit lit \<or> 2 ^ 64 \<le> digits_value lit then None
     else Some (of_nat (digits_value lit)))"

definition get_string :: "string \<Rightarrow> members \<Rightarrow> string option" where
  "get_string n = field_fold (\<lambda>_ v a. case v of JNull \<Rightarrow> Some a | JString s \<Rightarrow> Some s | _ \<Rightarrow> None) n []"

definition get_int :: "string \<Rightarrow> members \<Rightarrow> int option" where
  "get_int n = field_fold (\<lambda>_ v a. case v of JNull \<Rightarrow> Some a | JNumber l \<Rightarrow> parse_int64 l | _ \<Rightarrow> None) n 0"

definition get_uint64 :: "string \<Rightarrow> members \<Rightarrow> uint64 option" where
  "get_uint64 n = field_fold (\<lambda>_ v a. case v of JNull \<Rightarrow> Some a | JNumber l \<Rightarrow> parse_uint64 l | _ \<Rightarrow> None) n 0"

definition get_uint64_ptr :: "string \<Rightarrow> members \<Rightarrow> uint64 option option" where
  "get_uint64_ptr n = field_fold (\<lambda>_ v a. case v of JNull \<Rightarrow> Some None
     | JNumber l \<Rightarrow> map_option Some (parse_uint64 l) | _ \<Rightarrow> None) n None"

text \<open>A \<open>[]string\<close>: a null element leaves the entry as it was, so it is empty unless an earlier
  occurrence of the key wrote it.\<close>

fun read_strings :: "string list \<Rightarrow> json list \<Rightarrow> string list option" where
  "read_strings old [] = Some []"
| "read_strings old (v # vs) = (case v of
     JString s \<Rightarrow> map_option (\<lambda>r. s # r) (read_strings (drop 1 old) vs)
   | JNull \<Rightarrow> map_option (\<lambda>r. (case old of [] \<Rightarrow> [] | o1 # _ \<Rightarrow> o1) # r) (read_strings (drop 1 old) vs)
   | _ \<Rightarrow> None)"

definition get_strings :: "string \<Rightarrow> members \<Rightarrow> string list option" where
  "get_strings n = field_fold (\<lambda>_ v a. case v of JNull \<Rightarrow> Some [] | JArray vs \<Rightarrow> read_strings a vs
     | _ \<Rightarrow> None) n []"

definition get_raw :: "string \<Rightarrow> members \<Rightarrow> raw_message option" where
  "get_raw n = field_fold (\<lambda>raw _ _. Some raw) n []"

text \<open>A nested struct, and a pointer to one.\<close>

definition get_struct :: "string \<Rightarrow> members \<Rightarrow> members option" where
  "get_struct n = field_fold (\<lambda>raw v a. case v of JNull \<Rightarrow> Some a
     | JObject _ \<Rightarrow> map_option (\<lambda>ms. a @ ms) (unmarshal_object raw) | _ \<Rightarrow> None) n []"

definition get_struct_ptr :: "string \<Rightarrow> members \<Rightarrow> members option option" where
  "get_struct_ptr n = field_fold (\<lambda>raw v a. case v of JNull \<Rightarrow> Some None
     | JObject _ \<Rightarrow> map_option (\<lambda>ms. Some ((case a of None \<Rightarrow> [] | Some b \<Rightarrow> b) @ ms)) (unmarshal_object raw)
     | _ \<Rightarrow> None) n None"

text \<open>\<open>DisallowUnknownFields\<close>: every key names a field.\<close>

definition known_fields :: "string list \<Rightarrow> members \<Rightarrow> bool" where
  "known_fields names ms \<longleftrightarrow> list_all (\<lambda>(k, _). fold_name k \<in> fold_name ` set names) ms"

section \<open>Numbers\<close>

definition exponent_of :: "string \<Rightarrow> int option" where
  "exponent_of s = (case s of [] \<Rightarrow> Some 0
     | _ # x # xs \<Rightarrow> if x = CHR ''+'' then parse_int64 xs else parse_int64 (x # xs)
     | _ \<Rightarrow> None)"

definition number_rat :: "string \<Rightarrow> rat option" where
  "number_rat lit =
    (let neg = has_prefix ''-'' lit; s = (if neg then drop 1 lit else lit);
         ip = takeWhile is_digit s; s1 = dropWhile is_digit s;
         fp = (if has_prefix ''.'' s1 then takeWhile is_digit (drop 1 s1) else []);
         s2 = (if has_prefix ''.'' s1 then dropWhile is_digit (drop 1 s1) else s1);
         m = int (digits_value (ip @ fp)) in
     case exponent_of s2 of None \<Rightarrow> None
     | Some e \<Rightarrow>
        if m = 0 then Some 0
        else (let e5 = e - int (length fp); sm = (if neg then - m else m) in
          if 1000000 < \<bar>e5\<bar> then None
          else if 0 \<le> e5 then Some (of_int (sm * 10 ^ nat e5))
          else Some (of_int sm / of_int (10 ^ nat (- e5)))))"

definition has_fraction_or_exponent :: "string \<Rightarrow> bool" where
  "has_fraction_or_exponent lit \<longleftrightarrow> CHR ''.'' \<in> set lit \<or> CHR ''e'' \<in> set lit \<or> CHR ''E'' \<in> set lit"

section \<open>Encoding\<close>

definition hex_digit :: "nat \<Rightarrow> char" where
  "hex_digit n = char_of (if n < 10 then 48 + n else 87 + n)"

text \<open>A string as \<open>json.Marshal\<close> writes it: HTML characters and control characters are escaped,
  malformed UTF-8 becomes the escape of U+FFFD, and the two separators U+2028 and U+2029 are
  escaped as well.\<close>

fun escape_string :: "string \<Rightarrow> string" where
  "escape_string [] = []"
| "escape_string (c # cs) =
    (let n = utf8_len (c # cs) in
     if n = 0 then [CHR 0x5C] @ ''ufffd'' @ escape_string cs
     else if n = 1 then
       (if c = CHR 0x22 \<or> c = CHR 0x5C then [CHR 0x5C, c]
        else if c = CHR 0x08 then [CHR 0x5C] @ ''b'' else if c = CHR 0x0C then [CHR 0x5C] @ ''f''
        else if c = CHR 0x0A then [CHR 0x5C] @ ''n'' else if c = CHR 0x0D then [CHR 0x5C] @ ''r''
        else if c = CHR 0x09 then [CHR 0x5C] @ ''t''
        else if (of_char c :: nat) < 32 \<or> c = CHR ''<'' \<or> c = CHR ''>'' \<or> c = CHR 0x26
        then [CHR 0x5C] @ ''u00'' @ [hex_digit (of_char c div 16), hex_digit (of_char c mod 16)]
        else [c]) @ escape_string cs
     else if has_prefix (utf8 0x2028) (c # cs) then [CHR 0x5C] @ ''u2028'' @ escape_string (drop 2 cs)
     else if has_prefix (utf8 0x2029) (c # cs) then [CHR 0x5C] @ ''u2029'' @ escape_string (drop 2 cs)
     else c # take (n - 1) cs @ escape_string (drop (n - 1) cs))"

definition marshal_string :: "string \<Rightarrow> string" where
  "marshal_string s = [CHR 0x22] @ escape_string s @ [CHR 0x22]"

fun comma_separated :: "string list \<Rightarrow> string" where
  "comma_separated [] = []"
| "comma_separated [w] = w"
| "comma_separated (w # ws) = w @ '','' @ comma_separated ws"

text \<open>A slice of strings, and a map from strings to such slices: its keys are sorted.\<close>

definition marshal_strings :: "string list \<Rightarrow> string" where
  "marshal_strings ws = ''['' @ comma_separated (map marshal_string ws) @ '']''"

definition marshal_string_lists :: "string list gomap \<Rightarrow> string" where
  "marshal_string_lists m = (if m = [] then ''null'' else
     [CHR 0x7B] @ comma_separated (map (\<lambda>k. marshal_string k @ '':'' @
       marshal_strings (case map_of m k of None \<Rightarrow> [] | Some ws \<Rightarrow> ws)) (sorted_keys m)) @ [CHR 0x7D])"

end
