(* ===== verification/JsonText.thy ===== *)
theory JsonText
  imports Json
begin

text \<open>
  The lexical level of writing JSON and reading it back: a string in well-formed UTF-8 survives being
  escaped, scanned and unquoted, what the parser unquotes is well-formed, and a number literal is
  scanned as a whole whatever delimiter follows it.
\<close>

section \<open>UTF-8\<close>

fun valid_utf8 :: "string \<Rightarrow> bool" where
  "valid_utf8 [] = True"
| "valid_utf8 (c # cs) = (let n = utf8_len (c # cs) in n \<noteq> 0 \<and> valid_utf8 (drop (n - 1) cs))"

declare valid_utf8.simps(2) [simp del] escape_string.simps(2) [simp del] unquote.simps(2) [simp del]
  scan_string.simps(2) [simp del]

lemma utf8_len_Nil [simp]: "utf8_len [] = 0"
  by (simp add: utf8_len_def)

definition high :: "char \<Rightarrow> bool" where "high c \<longleftrightarrow> 128 \<le> (of_char c :: nat)"

lemma utf8_len_ascii: "\<not> high c \<Longrightarrow> utf8_len (c # cs) = 1"
  by (simp add: utf8_len_def high_def between_def)

text \<open>The second byte that may follow a lead byte, for sequences of three and of four bytes.\<close>

definition cont :: "char \<Rightarrow> bool" where "cont = between 0x80 0xBF"

definition second3 :: "char \<Rightarrow> char \<Rightarrow> bool" where
  "second3 c b \<longleftrightarrow> between 0xE0 0xE0 c \<and> between 0xA0 0xBF b \<or>
     (between 0xE1 0xEC c \<or> between 0xEE 0xEF c) \<and> cont b \<or> between 0xED 0xED c \<and> between 0x80 0x9F b"

definition second4 :: "char \<Rightarrow> char \<Rightarrow> bool" where
  "second4 c b \<longleftrightarrow> between 0xF0 0xF0 c \<and> between 0x90 0xBF b \<or> between 0xF1 0xF3 c \<and> cont b \<or>
     between 0xF4 0xF4 c \<and> between 0x80 0x8F b"

lemma between_disjoint: "between l h c \<Longrightarrow> h < l' \<or> h' < l \<Longrightarrow> \<not> between l' h' c"
  by (auto simp: between_def)

lemma utf8_len_2: "between 0xC2 0xDF c \<Longrightarrow> cont b \<Longrightarrow> utf8_len (c # b # t) = 2"
  by (auto simp: utf8_len_def cont_def between_disjoint)

lemma utf8_len_3: "second3 c b \<Longrightarrow> cont d \<Longrightarrow> utf8_len (c # b # d # t) = 3"
  by (auto simp: second3_def utf8_len_def cont_def between_disjoint)

lemma utf8_len_4: "second4 c b \<Longrightarrow> cont d \<Longrightarrow> cont e \<Longrightarrow> utf8_len (c # b # d # e # t) = 4"
  by (auto simp: second4_def utf8_len_def cont_def between_disjoint)

lemma length_gt: "1 < length (c # cs) \<longleftrightarrow> (\<exists>b t. cs = b # t)" "2 < length (c # cs) \<longleftrightarrow> (\<exists>b d t. cs = b # d # t)"
  "3 < length (c # cs) \<longleftrightarrow> (\<exists>b d e t. cs = b # d # e # t)"
  by (auto simp: neq_Nil_conv Suc_less_eq2 numeral_eq_Suc length_Suc_conv less_Suc_eq_le Suc_le_length_iff)

lemma utf8_len_cases:
  assumes "utf8_len (c # cs) = n" and "n \<noteq> 0" and "high c"
  obtains (two) b t where "cs = b # t" "n = 2" "between 0xC2 0xDF c" "cont b"
  | (three) b d t where "cs = b # d # t" "n = 3" "second3 c b" "cont d"
  | (four) b d e t where "cs = b # d # e # t" "n = 4" "second4 c b" "cont d" "cont e"
proof -
  have "\<not> between 0 0x7F c" using assms(3) by (simp add: high_def between_def)
  with assms have "n = 2 \<and> 1 < length (c # cs) \<and> between 0xC2 0xDF c \<and> cont (cs ! 0) \<or>
      n = 3 \<and> 2 < length (c # cs) \<and> second3 c (cs ! 0) \<and> cont (cs ! 1) \<or>
      n = 4 \<and> 3 < length (c # cs) \<and> second4 c (cs ! 0) \<and> cont (cs ! 1) \<and> cont (cs ! 2)"
    by (simp add: utf8_len_def Let_def second3_def second4_def cont_def split: if_splits)
  then show thesis unfolding length_gt by (auto intro: two three four)
qed

text \<open>A well-formed sequence of several bytes is recognised whatever follows it.\<close>

definition sequence :: "nat \<Rightarrow> string \<Rightarrow> bool" where
  "sequence n w \<longleftrightarrow> length w = n \<and> 1 < n \<and> list_all high w \<and> (\<forall>t. utf8_len (w @ t) = n)"

lemma cont_high: "cont b \<Longrightarrow> high b"
  by (simp add: cont_def high_def between_def)

lemma second_high: "second3 c b \<Longrightarrow> high b" "second4 c b \<Longrightarrow> high b"
  by (auto simp: second3_def second4_def cont_def high_def between_def)

lemma utf8_len_sequence:
  assumes "utf8_len (c # cs) = n" and "n \<noteq> 0" and "high c"
  shows "sequence n (c # take (n - 1) cs)"
  using assms
proof (cases rule: utf8_len_cases)
  case (two b t)
  then show ?thesis using assms(3) by (simp add: sequence_def utf8_len_2 cont_high)
next
  case (three b d t)
  then show ?thesis using assms(3) by (simp add: sequence_def utf8_len_3 cont_high second_high)
next
  case (four b d e t)
  then show ?thesis using assms(3) by (simp add: sequence_def utf8_len_4 cont_high second_high)
qed

lemma valid_utf8_sequence: "sequence n w \<Longrightarrow> valid_utf8 (w @ s) \<longleftrightarrow> valid_utf8 s"
  by (cases w) (auto simp: sequence_def valid_utf8.simps(2) Let_def)

lemma valid_utf8_ascii: "\<not> high c \<Longrightarrow> valid_utf8 (c # s) \<longleftrightarrow> valid_utf8 s"
  by (simp add: valid_utf8.simps(2) utf8_len_ascii)

definition scalar :: "nat \<Rightarrow> bool" where
  "scalar r \<longleftrightarrow> r < 0xD800 \<or> 0xE000 \<le> r \<and> r < 0x110000"

lemma between_char_of: "k < 256 \<Longrightarrow> between l h (char_of k) \<longleftrightarrow> l \<le> k \<and> k \<le> h"
  by (simp add: between_def)

lemma valid_utf8_encoded:
  assumes "scalar r"
  shows "valid_utf8 (utf8 r @ s) \<longleftrightarrow> valid_utf8 s"
proof -
  consider (one) "r < 0x80" | (two) "0x80 \<le> r" "r < 0x800" | (three) "0x800 \<le> r" "r < 0x10000"
    | (four) "0x10000 \<le> r" by linarith
  then show ?thesis
  proof cases
    case one
    then show ?thesis by (simp add: utf8_def valid_utf8_ascii high_def)
  next
    case two
    then have "r div 64 < 32" "2 \<le> r div 64" by auto
    then have "between 0xC2 0xDF (char_of (0xC0 + r div 64))" "cont (char_of (0x80 + r mod 64))"
      by (auto simp: cont_def between_char_of)
    then show ?thesis using two by (simp add: utf8_def valid_utf8.simps(2) utf8_len_2)
  next
    case three
    define a b d where "a = r div 4096" and "b = r div 64 mod 64" and "d = r mod 64"
    have "r div 64 = 64 * a + b" "r = 64 * (r div 64) + d"
      using div_mult_mod_eq [of "r div 64" 64] by (simp_all add: a_def b_def d_def div_mult2_eq [symmetric])
    then have "r = 4096 * a + 64 * b + d" by linarith
    moreover have "b < 64" "d < 64" by (simp_all add: b_def d_def)
    ultimately have "second3 (char_of (0xE0 + a)) (char_of (0x80 + b))" "cont (char_of (0x80 + d))"
      using three assms unfolding scalar_def by (auto simp: second3_def cont_def between_char_of)
    then show ?thesis using three
      by (simp add: utf8_def valid_utf8.simps(2) utf8_len_3 flip: a_def b_def d_def)
  next
    case four
    define a b d e where "a = r div 262144" and "b = r div 4096 mod 64" and "d = r div 64 mod 64" and "e = r mod 64"
    have "r div 4096 = 64 * a + b" "r div 64 = 64 * (r div 4096) + d" "r = 64 * (r div 64) + e"
      using div_mult_mod_eq [of "r div 4096" 64] div_mult_mod_eq [of "r div 64" 64]
      by (simp_all add: a_def b_def d_def e_def div_mult2_eq [symmetric])
    then have "r = 262144 * a + 4096 * b + 64 * d + e" by linarith
    moreover have "b < 64" "d < 64" "e < 64" by (simp_all add: b_def d_def e_def)
    ultimately have "second4 (char_of (0xF0 + a)) (char_of (0x80 + b))" "cont (char_of (0x80 + d))"
        "cont (char_of (0x80 + e))"
      using four assms unfolding scalar_def by (auto simp: second4_def cont_def between_char_of)
    then show ?thesis using four
      by (simp add: utf8_def valid_utf8.simps(2) utf8_len_4 flip: a_def b_def d_def e_def)
  qed
qed

section \<open>Strings\<close>

lemma highD: "high c \<Longrightarrow> c \<noteq> CHR 0x22 \<and> c \<noteq> CHR 0x5C \<and> \<not> (of_char c :: nat) < 32"
  by (auto simp: high_def)

lemma scan_string_plain:
  "c \<noteq> CHR 0x22 \<Longrightarrow> c \<noteq> CHR 0x5C \<Longrightarrow> \<not> (of_char c :: nat) < 32 \<Longrightarrow>
     scan_string (c # s) = map_option (apfst (\<lambda>w. c # w)) (scan_string s)"
  by (simp add: scan_string.simps(2))

lemma scan_string_high:
  "list_all high w \<Longrightarrow> scan_string (w @ s) = map_option (apfst (\<lambda>v. w @ v)) (scan_string s)"
proof (induction w)
  case Nil
  then show ?case by (cases "scan_string s") auto
next
  case (Cons c w)
  then show ?case using highD [of c] by (cases "scan_string s") (auto simp: scan_string_plain)
qed

lemma scan_string_escape2:
  "e \<in> set [CHR 0x22, CHR 0x5C, CHR ''/'', CHR ''b'', CHR ''f'', CHR ''n'', CHR ''r'', CHR ''t''] \<Longrightarrow>
     scan_string (CHR 0x5C # e # s) = map_option (apfst (\<lambda>w. CHR 0x5C # e # w)) (scan_string s)"
  by (subst scan_string.simps(2)) simp

lemma scan_string_escape6:
  "is_hex x \<Longrightarrow> is_hex y \<Longrightarrow> is_hex z \<Longrightarrow> is_hex w \<Longrightarrow>
     scan_string (CHR 0x5C # CHR ''u'' # x # y # z # w # s) =
     map_option (apfst (\<lambda>v. CHR 0x5C # CHR ''u'' # x # y # z # w # v)) (scan_string s)"
  by (subst scan_string.simps(2)) simp

lemma hex_digit_facts:
  assumes "n < 16"
  shows "is_hex (hex_digit n)" and "hex_value (hex_digit n) = n"
  using assms by (auto simp: hex_digit_def is_hex_def is_lower_hex_def is_digit_def hex_value_def between_char_of)

lemma hex_letters: "is_hex (CHR ''f'')" "is_hex (CHR ''d'')" "is_hex (CHR ''0'')" "is_hex (CHR ''2'')"
  "is_hex (CHR ''8'')" "is_hex (CHR ''9'')" "hex_value (CHR ''0'') = 0"
  by code_simp+

lemma marks: "utf8 0x2028 = [CHR 0xE2, CHR 0x80, CHR 0xA8]" "utf8 0x2029 = [CHR 0xE2, CHR 0x80, CHR 0xA9]"
  by (simp_all add: utf8_def char_of_def bit_iff_odd)

lemma has_prefixE: "has_prefix p s \<Longrightarrow> (\<And>t. s = p @ t \<Longrightarrow> Q) \<Longrightarrow> Q"
  by (metis has_prefix_def append_take_drop_id)

text \<open>What \<open>escape_string\<close> writes for the front of a text.\<close>

lemma escape_string_cases:
  obtains (malformed) "utf8_len (c # cs) = 0" "escape_string (c # cs) = CHR 0x5C # ''ufffd'' @ escape_string cs"
  | (short) e where "utf8_len (c # cs) = 1" "\<not> high c" "simple_escape e = c" "e \<noteq> CHR ''u''"
      "e \<in> set [CHR 0x22, CHR 0x5C, CHR ''/'', CHR ''b'', CHR ''f'', CHR ''n'', CHR ''r'', CHR ''t'']"
      "escape_string (c # cs) = CHR 0x5C # e # escape_string cs"
  | (control) h l where "utf8_len (c # cs) = 1" "\<not> high c" "h < 16" "l < 16" "of_char c = 16 * h + l"
      "escape_string (c # cs) = CHR 0x5C # ''u00'' @ [hex_digit h, hex_digit l] @ escape_string cs"
  | (plain) "utf8_len (c # cs) = 1" "\<not> high c" "c \<noteq> CHR 0x22" "c \<noteq> CHR 0x5C" "\<not> (of_char c :: nat) < 32"
      "escape_string (c # cs) = c # escape_string cs"
  | (separator) d s where "c # cs = utf8 (if d = CHR ''8'' then 0x2028 else 0x2029) @ s" "utf8_len (c # cs) = 3"
      "d = CHR ''8'' \<or> d = CHR ''9''" "s = drop 2 cs" "escape_string (c # cs) = CHR 0x5C # ''u202'' @ [d] @ escape_string s"
  | (multi) n w s where "c # cs = w @ s" "sequence n w" "utf8_len (c # cs) = n" "s = drop (n - 1) cs"
      "escape_string (c # cs) = w @ escape_string s"
proof (cases "high c")
  case False
  note one = utf8_len_ascii [OF False, of cs]
  note esc = escape_string.simps(2) [of c cs, unfolded Let_def one]
  have small: "(of_char c :: nat) < 128" using False by (simp add: high_def)
  show ?thesis
  proof (cases "c = CHR 0x22 \<or> c = CHR 0x5C")
    case True
    then show ?thesis using one False esc by (intro short [of c]) (auto simp: simple_escape_def)
  next
    case ordinary: False
    show ?thesis
    proof (cases "c = CHR 0x08 \<or> c = CHR 0x0C \<or> c = CHR 0x0A \<or> c = CHR 0x0D \<or> c = CHR 0x09")
      case True
      define e where "e = (if c = CHR 0x08 then CHR ''b'' else if c = CHR 0x0C then CHR ''f''
        else if c = CHR 0x0A then CHR ''n'' else if c = CHR 0x0D then CHR ''r'' else CHR ''t'')"
      show ?thesis using True one False esc by (intro short [of e]) (auto simp: simple_escape_def e_def)
    next
      case letter: False
      show ?thesis
      proof (cases "(of_char c :: nat) < 32 \<or> c = CHR ''<'' \<or> c = CHR ''>'' \<or> c = CHR 0x26")
        case True
        then show ?thesis using one False esc small ordinary letter
          by (intro control [of "of_char c div 16" "of_char c mod 16"]) auto
      next
        case other: False
        then show ?thesis using one False esc ordinary letter by (intro plain) auto
      qed
    qed
  qed
next
  case True
  note esc = escape_string.simps(2) [of c cs, unfolded Let_def]
  show ?thesis
  proof (cases "utf8_len (c # cs) = 0")
    case zero: True
    then show ?thesis using esc by (intro malformed) auto
  next
    case nonzero: False
    define n where "n = utf8_len (c # cs)"
    have seq: "sequence n (c # take (n - 1) cs)"
      using utf8_len_sequence [OF n_def [symmetric] _ True] nonzero n_def by simp
    then have big: "n \<noteq> 0" "n \<noteq> 1" by (auto simp: sequence_def)
    have mark: "second3 (CHR 0xE2) (CHR 0x80)" "cont (CHR 0xA8)" "cont (CHR 0xA9)"
      by (auto simp: cont_def second3_def between_def)
    show ?thesis
    proof (cases "has_prefix (utf8 0x2028) (c # cs)")
      case True
      then obtain s where "c # cs = utf8 0x2028 @ s" by (rule has_prefixE)
      then have cs: "c = CHR 0xE2" "cs = CHR 0x80 # CHR 0xA8 # s" by (simp_all add: marks)
      show ?thesis
      proof (rule separator [of "CHR ''8''" s])
        show "escape_string (c # cs) = CHR 0x5C # ''u202'' @ [CHR ''8''] @ escape_string s"
          using esc [folded n_def] True big cs(2) by simp
      qed (simp_all add: cs marks utf8_len_3 mark)
    next
      case no8: False
      show ?thesis
      proof (cases "has_prefix (utf8 0x2029) (c # cs)")
        case True
        then obtain s where "c # cs = utf8 0x2029 @ s" by (rule has_prefixE)
        then have cs: "c = CHR 0xE2" "cs = CHR 0x80 # CHR 0xA9 # s" by (simp_all add: marks)
        show ?thesis
        proof (rule separator [of "CHR ''9''" s])
          show "escape_string (c # cs) = CHR 0x5C # ''u202'' @ [CHR ''9''] @ escape_string s"
            using esc [folded n_def] no8 True big cs(2) by simp
        qed (simp_all add: cs marks utf8_len_3 mark)
      next
        case False
        show ?thesis
        proof (rule multi [of "c # take (n - 1) cs" "drop (n - 1) cs" n])
          show "escape_string (c # cs) = (c # take (n - 1) cs) @ escape_string (drop (n - 1) cs)"
            using esc [folded n_def] no8 False big by simp
        qed (use seq in \<open>simp_all flip: n_def\<close>)
      qed
    qed
  qed
qed

lemma scan_string_escape: "scan_string (escape_string s @ CHR 0x22 # r) = Some (escape_string s, r)"
proof (induction s rule: length_induct)
  case (1 s)
  show ?case
  proof (cases s)
    case Nil
    then show ?thesis by (simp add: scan_string.simps(2))
  next
    case s: (Cons c cs)
    then have IH: "scan_string (escape_string u @ CHR 0x22 # r) = Some (escape_string u, r)"
      if "length u \<le> length cs" for u using 1 that by simp
    have "scan_string (escape_string (c # cs) @ CHR 0x22 # r) = Some (escape_string (c # cs), r)"
    proof (cases c cs rule: escape_string_cases)
      case malformed
      then show ?thesis using IH [of cs] by (simp add: scan_string_escape6 hex_letters)
    next
      case (short e)
      then show ?thesis using IH [of cs] by (simp only: append_Cons append_Nil scan_string_escape2) simp
    next
      case (control h l)
      then show ?thesis using IH [of cs] by (simp add: scan_string_escape6 hex_letters hex_digit_facts)
    next
      case plain
      then show ?thesis using IH [of cs] by (simp add: scan_string_plain)
    next
      case (separator d t)
      then show ?thesis using IH [of t] by (auto simp: scan_string_escape6 hex_letters)
    next
      case (multi n w t)
      then have "length t \<le> length cs" by simp
      then show ?thesis using multi(2,5) IH [of t] by (simp add: sequence_def scan_string_high)
    qed
    then show ?thesis by (simp add: s)
  qed
qed

lemma char_of_ascii: "\<not> high c \<Longrightarrow> utf8 (of_char c) = [c]"
  by (simp add: utf8_def high_def)

lemma unquote_escape: "valid_utf8 s \<Longrightarrow> unquote (escape_string s) = s"
proof (induction s rule: length_induct)
  case (1 s)
  show ?case
  proof (cases s)
    case Nil
    then show ?thesis by simp
  next
    case s: (Cons c cs)
    then have IH: "unquote (escape_string u) = u" if "length u \<le> length cs" "valid_utf8 u" for u
      using 1 that by simp
    note valid = "1.prems" [unfolded s]
    have "unquote (escape_string (c # cs)) = c # cs"
    proof (cases c cs rule: escape_string_cases)
      case malformed
      then show ?thesis using valid by (simp add: valid_utf8.simps(2))
    next
      case (short e)
      then show ?thesis using IH [of cs] valid by (simp add: unquote.simps(2) valid_utf8_ascii)
    next
      case (control h l)
      have "hex4 (CHR ''0'') (CHR ''0'') (hex_digit h) (hex_digit l) = of_char c"
        using control by (simp add: hex4_def hex_letters hex_digit_facts)
      moreover have "\<not> 0xD800 \<le> (of_char c :: nat)" "utf8 (16 * h + l) = [c]"
        using control char_of_ascii [of c] by (simp_all add: high_def)
      ultimately show ?thesis using control IH [of cs] valid
        by (simp add: unquote.simps(2) Let_def char_of_ascii valid_utf8_ascii)
    next
      case plain
      then show ?thesis using IH [of cs] valid by (simp add: unquote.simps(2) Let_def utf8_len_ascii valid_utf8_ascii)
    next
      case (separator d t)
      have "hex4 (CHR ''2'') (CHR ''0'') (CHR ''2'') d = (if d = CHR ''8'' then 0x2028 else 0x2029)"
        using separator(3) by (auto simp: hex4_def hex_value_def is_digit_def between_def)
      moreover have "valid_utf8 t" using valid separator(1) by (simp add: valid_utf8_encoded scalar_def)
      ultimately show ?thesis using separator IH [of t] by (auto simp: unquote.simps(2) Let_def)
    next
      case (multi n w t)
      obtain b v where w: "w = b # v" using multi(2) by (cases w) (auto simp: sequence_def)
      then have "c = b" "cs = v @ t" using multi(1) by auto
      have v: "utf8_len (w @ escape_string t) = n" "length v = n - 1" "n \<noteq> 0" "b \<noteq> CHR 0x5C"
        using multi(2) w highD [of b] by (auto simp: sequence_def)
      have "valid_utf8 t" using valid multi(1,2) by (simp add: valid_utf8_sequence)
      then show ?thesis using multi(1,5) v IH [of t] w \<open>cs = v @ t\<close> by (simp add: unquote.simps(2) Let_def)
    qed
    then show ?thesis by (simp add: s)
  qed
qed

text \<open>What the parser accepts between quotes unquotes to well-formed UTF-8.\<close>

definition scanned :: "string \<Rightarrow> bool" where
  "scanned w \<longleftrightarrow> scan_string (w @ [CHR 0x22]) = Some (w, [])"

lemma scan_string_split: "scan_string s = Some (w, r) \<Longrightarrow> s = w @ CHR 0x22 # r \<and> scanned w"
proof (induction s arbitrary: w r rule: length_induct)
  case (1 s)
  then have IH: "scan_string t = Some (v, r) \<Longrightarrow> length t < length s \<Longrightarrow> t = v @ CHR 0x22 # r \<and> scanned v" for t v r
    by blast
  show ?case
  proof (cases s)
    case Nil
    with "1.prems" show ?thesis by simp
  next
    case (Cons c cs)
    with "1.prems" show ?thesis
      by (auto simp: scan_string.simps(2) scanned_def split: if_splits list.splits dest!: IH)
  qed
qed

lemma is_hex_value: "is_hex c \<Longrightarrow> hex_value c < 16"
  by (auto simp: is_hex_def is_lower_hex_def is_digit_def hex_value_def between_def split: if_splits)

lemma hex4_bound: "is_hex a \<Longrightarrow> is_hex b \<Longrightarrow> is_hex c \<Longrightarrow> is_hex d \<Longrightarrow> hex4 a b c d < 0x10000"
  using is_hex_value [of a] is_hex_value [of b] is_hex_value [of c] is_hex_value [of d] by (simp add: hex4_def)

lemma map_option_apfst_eq: "map_option (apfst f) x = Some (f w, r) \<Longrightarrow> inj f \<Longrightarrow> x = Some (w, r)"
  by (cases x) (auto simp: inj_def)

lemma scanned_cases:
  assumes "scanned (c # cs)"
  obtains (plain) "c \<noteq> CHR 0x5C" "scanned cs"
  | (short) e es where "c = CHR 0x5C" "cs = e # es" "scanned es"
      "e \<in> set [CHR 0x22, CHR 0x5C, CHR ''/'', CHR ''b'', CHR ''f'', CHR ''n'', CHR ''r'', CHR ''t'']"
  | (unicode) x y z w es where "c = CHR 0x5C" "cs = CHR ''u'' # x # y # z # w # es" "scanned es"
      "is_hex x" "is_hex y" "is_hex z" "is_hex w"
proof (cases "c = CHR 0x5C")
  case False
  then have "map_option (apfst (\<lambda>w. c # w)) (scan_string (cs @ [CHR 0x22])) = Some (c # cs, [])"
    using assms by (auto simp: scanned_def scan_string.simps(2) split: if_splits)
  from map_option_apfst_eq [OF this] have "scanned cs" by (simp add: scanned_def inj_def)
  with False show ?thesis by (rule plain)
next
  case c: True
  show ?thesis
  proof (cases cs)
    case Nil
    with assms c show ?thesis by (simp add: scanned_def scan_string.simps(2))
  next
    case cs: (Cons e es)
    show ?thesis
    proof (cases "e = CHR ''u''")
      case False
      with assms c cs have m: "map_option (apfst (\<lambda>w. c # e # w)) (scan_string (es @ [CHR 0x22])) = Some (c # e # es, [])"
        and e: "e \<in> set [CHR 0x22, CHR 0x5C, CHR ''/'', CHR ''b'', CHR ''f'', CHR ''n'', CHR ''r'', CHR ''t'']"
        by (auto simp: scanned_def scan_string.simps(2) split: if_splits)
      from map_option_apfst_eq [OF m] have "scanned es" by (simp add: scanned_def inj_def)
      with c cs e show ?thesis by (intro short)
    next
      case True
      with assms c cs obtain x y z w rest where rest: "es @ [CHR 0x22] = x # y # z # w # rest"
        and hex: "is_hex x" "is_hex y" "is_hex z" "is_hex w"
        and eq: "map_option (apfst (\<lambda>v. c # e # x # y # z # w # v)) (scan_string rest) = Some (c # e # es, [])"
        by (auto simp: scanned_def scan_string.simps(2) split: list.splits if_splits)
      from eq obtain v where v: "scan_string rest = Some (v, [])" "es = x # y # z # w # v" by auto
      with rest have "rest = v @ [CHR 0x22]" by simp
      with v have "scanned v" by (simp add: scanned_def)
      with c cs True v(2) hex show ?thesis by (intro unicode [of x y z w v]) simp_all
    qed
  qed
qed

lemma scanned_high: "list_all high w \<Longrightarrow> scanned (w @ s) \<Longrightarrow> scanned s"
proof (induction w)
  case (Cons c w)
  from \<open>scanned ((c # w) @ s)\<close> have "scanned (c # w @ s)" by simp
  then have "scanned (w @ s)" by (cases rule: scanned_cases) (use Cons.prems(1) highD [of c] in auto)
  with Cons show ?case by simp
qed simp

lemma replacement_scalar: "scalar 0xFFFD"
  by (simp add: scalar_def)

text \<open>How an escaped code unit is read: alone, as one half of a surrogate pair, or as a lone surrogate.\<close>

lemma unquote_unicode:
  fixes x y z w es
  defines "r \<equiv> hex4 x y z w" and "s \<equiv> CHR 0x5C # CHR ''u'' # x # y # z # w # es"
  obtains (single) "\<not> (0xD800 \<le> r \<and> r < 0xE000)" "unquote s = utf8 r @ unquote es"
  | (pair) x' y' z' w' rest where "es = CHR 0x5C # CHR ''u'' # x' # y' # z' # w' # rest"
      "0xD800 \<le> r" "r < 0xDC00" "0xDC00 \<le> hex4 x' y' z' w'" "hex4 x' y' z' w' < 0xE000"
      "unquote s = utf8 (0x10000 + (r - 0xD800) * 0x400 + (hex4 x' y' z' w' - 0xDC00)) @ unquote rest"
  | (lone) "unquote s = utf8 0xFFFD @ unquote es"
proof (cases "0xD800 \<le> r \<and> r < 0xE000")
  case False
  moreover from False have "unquote s = utf8 r @ unquote es" by (auto simp: s_def r_def unquote.simps(2) Let_def)
  ultimately show ?thesis by (rule single)
next
  case True
  show ?thesis
  proof (cases "\<exists>x' y' z' w' rest. es = CHR 0x5C # CHR ''u'' # x' # y' # z' # w' # rest \<and> r < 0xDC00 \<and>
      0xDC00 \<le> hex4 x' y' z' w' \<and> hex4 x' y' z' w' < 0xE000")
    case pair': True
    then obtain x' y' z' w' rest where p: "es = CHR 0x5C # CHR ''u'' # x' # y' # z' # w' # rest" "r < 0xDC00"
        "0xDC00 \<le> hex4 x' y' z' w'" "hex4 x' y' z' w' < 0xE000" by blast
    with True show ?thesis
      by (intro pair [of x' y' z' w' rest]) (simp_all add: s_def r_def unquote.simps(2) [of "CHR 0x5C" "CHR ''u'' # _"] Let_def)
  next
    case False
    with True have "unquote s = utf8 0xFFFD @ unquote es"
      by (auto simp: s_def r_def unquote.simps(2) [of "CHR 0x5C" "CHR ''u'' # _"] Let_def split: list.split)
    then show ?thesis by (rule lone)
  qed
qed

lemma unquote_valid: "scanned w \<Longrightarrow> valid_utf8 (unquote w)"
proof (induction w rule: length_induct)
  case (1 w)
  then have IH: "valid_utf8 (unquote v)" if "scanned v" "length v < length w" for v using that by blast
  show ?case
  proof (cases w)
    case Nil
    then show ?thesis by simp
  next
    case w: (Cons c cs)
    from "1.prems" [unfolded w] show ?thesis
    proof (cases rule: scanned_cases)
      case plain
      define n where "n = utf8_len (c # cs)"
      consider "n = 0" | "\<not> high c" | "high c" "n \<noteq> 0" by blast
      then show ?thesis
      proof cases
        case 1
        then show ?thesis using plain IH [of cs] w
          by (simp add: unquote.simps(2) valid_utf8_encoded replacement_scalar flip: n_def)
      next
        case 2
        then show ?thesis using plain IH [of cs] w
          by (simp add: unquote.simps(2) utf8_len_ascii valid_utf8_ascii)
      next
        case 3
        have seq: "sequence n (c # take (n - 1) cs)"
          using utf8_len_sequence [OF n_def [symmetric] 3(2,1)] .
        then have "list_all high (take (n - 1) cs)" by (simp add: sequence_def)
        then have "scanned (drop (n - 1) cs)" using plain(2) scanned_high [of "take (n - 1) cs"] by simp
        then have "valid_utf8 (unquote (drop (n - 1) cs))" using IH w by simp
        with seq have "valid_utf8 ((c # take (n - 1) cs) @ unquote (drop (n - 1) cs))"
          by (simp only: valid_utf8_sequence)
        then show ?thesis using plain 3 w by (simp add: unquote.simps(2) flip: n_def)
      qed
    next
      case (short e es)
      have "\<not> high (simple_escape e)" "e \<noteq> CHR ''u''"
        using short(4) by (simp only: set_simps insert_iff empty_iff, elim disjE, simp_all add: simple_escape_def high_def)+
      then show ?thesis using short IH [of es] w by (simp add: unquote.simps(2) valid_utf8_ascii)
    next
      case (unicode x y z u es)
      note r = hex4_bound [OF unicode(4-7)]
      have es: "valid_utf8 (unquote es)" using unicode IH w by simp
      have w6: "w = CHR 0x5C # CHR ''u'' # x # y # z # u # es" using unicode(1,2) w by simp
      from unquote_unicode [of x y z u es] show ?thesis
      proof cases
        case (pair x' y' z' w' rest)
        from unicode(3) [unfolded pair(1)] have "scanned rest"
          by (cases rule: scanned_cases) auto
        then have "valid_utf8 (unquote rest)" using IH unicode w pair(1) by simp
        moreover have "scalar (0x10000 + (hex4 x y z u - 0xD800) * 0x400 + (hex4 x' y' z' w' - 0xDC00))"
          using pair(2-5) unfolding scalar_def by linarith
        ultimately show ?thesis using pair(6) by (simp only: w6 valid_utf8_encoded)
      next
        case single
        then have "scalar (hex4 x y z u)" using r unfolding scalar_def by linarith
        then show ?thesis using single(2) es by (simp only: w6 valid_utf8_encoded)
      next
        case lone
        then show ?thesis using es by (simp only: w6 valid_utf8_encoded replacement_scalar)
      qed
    qed
  qed
qed

section \<open>Numbers\<close>

definition number_ok :: "string \<Rightarrow> bool" where
  "number_ok lit \<longleftrightarrow> scan_number lit = Some (lit, [])"

definition delimited :: "string \<Rightarrow> bool" where
  "delimited r \<longleftrightarrow> (case r of [] \<Rightarrow> True | c # _ \<Rightarrow> c = CHR '','' \<or> c = CHR 0x5D \<or> c = CHR 0x7D)"

text \<open>A scanner splits its text, and it does so in the same way when the rest is cut short or when a
  delimiter follows.\<close>

definition splits :: "(string \<Rightarrow> string option) \<Rightarrow> bool" where
  "splits f \<longleftrightarrow> (\<forall>s a. f s = Some a \<longrightarrow> (\<exists>p. s = p @ a \<and> (\<forall>b d. a = b @ d \<longrightarrow> f (p @ b) = Some b))) \<and>
     (\<forall>s a r. f s = Some a \<longrightarrow> delimited r \<longrightarrow> f (s @ r) = Some (a @ r))"

lemma delimited_cases: "delimited r \<Longrightarrow> r = [] \<or> (\<exists>c cs. r = c # cs \<and> c \<in> {CHR '','', CHR 0x5D, CHR 0x7D})"
  by (auto simp: delimited_def split: list.splits)

lemma dropWhile_digit_delimited: "delimited r \<Longrightarrow> dropWhile is_digit (xs @ r) = dropWhile is_digit xs @ r"
  by (induction xs) (auto dest!: delimited_cases simp: is_digit_def between_def)

lemma dropWhile_split: "\<exists>p. xs = p @ dropWhile P xs \<and> (\<forall>b d. dropWhile P xs = b @ d \<longrightarrow> dropWhile P (p @ b) = b)"
proof (intro exI [of _ "takeWhile P xs"] conjI allI impI)
  fix b d
  assume "dropWhile P xs = b @ d"
  then have "b = [] \<or> \<not> P (hd b)" by (metis append_Cons hd_dropWhile list.sel(1) list.exhaust_sel list.distinct(1))
  then show "dropWhile P (takeWhile P xs @ b) = b"
    by (cases b) (auto simp: dropWhile_append dest: set_takeWhileD)
qed simp

lemma splits_digits: "splits scan_digits"
  unfolding splits_def
proof (intro conjI allI impI)
  fix s a
  assume "scan_digits s = Some a"
  then obtain c cs where s: "s = c # cs" "is_digit c" "a = dropWhile is_digit cs"
    by (auto simp: scan_digits_def split: list.splits if_splits)
  obtain p where "cs = p @ a" "\<forall>b d. a = b @ d \<longrightarrow> dropWhile is_digit (p @ b) = b"
    using dropWhile_split [of cs is_digit] s(3) by blast
  then show "\<exists>p. s = p @ a \<and> (\<forall>b d. a = b @ d \<longrightarrow> scan_digits (p @ b) = Some b)"
    by (intro exI [of _ "c # p"]) (simp add: s scan_digits_def)
qed (auto simp: scan_digits_def dropWhile_digit_delimited split: list.splits if_splits)

lemma splits_delimited: "splits f \<Longrightarrow> f s = Some a \<Longrightarrow> delimited r \<Longrightarrow> f (s @ r) = Some (a @ r)"
  unfolding splits_def by blast

lemma splits_Cons:
  assumes "splits f" and "\<And>s. g (c # s) = f s" and "g (c # s) = Some a"
  shows "\<exists>p. c # s = p @ a \<and> (\<forall>b d. a = b @ d \<longrightarrow> g (p @ b) = Some b)"
proof -
  from assms(2,3) have "f s = Some a" by simp
  with assms(1) obtain p where "s = p @ a" "\<forall>b d. a = b @ d \<longrightarrow> f (p @ b) = Some b"
    unfolding splits_def by blast
  with assms(2) show ?thesis by (intro exI [of _ "c # p"]) simp
qed

lemma splits_int: "splits scan_int"
  unfolding splits_def
proof (intro conjI allI impI)
  fix s a
  assume a: "scan_int s = Some a"
  then obtain c cs where s: "s = c # cs" by (auto simp: scan_int_def split: list.splits)
  show "\<exists>p. s = p @ a \<and> (\<forall>b d. a = b @ d \<longrightarrow> scan_int (p @ b) = Some b)"
  proof (cases "c = CHR ''0''")
    case True
    with a s show ?thesis by (intro exI [of _ "[c]"]) (simp add: scan_int_def)
  next
    case False
    with a s have "scan_digits s = Some a" by (simp add: scan_int_def scan_digits_def)
    with splits_digits obtain p where p: "s = p @ a" "\<forall>b d. a = b @ d \<longrightarrow> scan_digits (p @ b) = Some b"
      unfolding splits_def by blast
    have "scan_int (p @ b) = Some b" if "a = b @ d" for b d
      using p that False s by (cases p) (auto simp: scan_int_def scan_digits_def split: list.splits)
    with p show ?thesis by blast
  qed
qed (auto simp: scan_int_def dropWhile_digit_delimited split: list.splits if_splits)

lemma splits_frac: "splits scan_frac"
  unfolding splits_def
proof (intro conjI allI impI)
  fix s a
  assume a: "scan_frac s = Some a"
  show "\<exists>p. s = p @ a \<and> (\<forall>b d. a = b @ d \<longrightarrow> scan_frac (p @ b) = Some b)"
  proof (cases "\<exists>cs. s = CHR ''.'' # cs")
    case True
    then obtain cs where "s = CHR ''.'' # cs" by blast
    with a show ?thesis using splits_Cons [OF splits_digits, of scan_frac "CHR ''.''" cs a]
      by (simp add: scan_frac_def)
  next
    case False
    with a have "a = s" by (auto simp: scan_frac_def split: list.splits if_splits)
    with False show ?thesis
      by (intro exI [of _ "[]"]) (auto simp: scan_frac_def split: list.splits)
  qed
next
  fix s a r
  assume "scan_frac s = Some a" and "delimited r"
  then show "scan_frac (s @ r) = Some (a @ r)"
    using splits_digits unfolding splits_def
    by (auto simp: scan_frac_def split: list.splits if_splits dest!: delimited_cases)
qed

lemma splits_exp: "splits scan_exp"
  unfolding splits_def
proof (intro conjI allI impI)
  fix s a
  assume a: "scan_exp s = Some a"
  show "\<exists>p. s = p @ a \<and> (\<forall>b d. a = b @ d \<longrightarrow> scan_exp (p @ b) = Some b)"
  proof (cases "\<exists>c cs. s = c # cs \<and> (c = CHR ''e'' \<or> c = CHR ''E'')")
    case True
    then obtain c cs where s: "s = c # cs" and c: "c = CHR ''e'' \<or> c = CHR ''E''" by blast
    with a obtain x xs where cs: "cs = x # xs" by (auto simp: scan_exp_def split: list.splits)
    define w where "w = (if x = CHR ''+'' \<or> x = CHR ''-'' then [c, x] else [c])"
    define v where "v = (if x = CHR ''+'' \<or> x = CHR ''-'' then xs else cs)"
    have "scan_digits v = Some a" "s = w @ v"
      using a s c cs by (auto simp: scan_exp_def v_def w_def)
    with splits_digits obtain p where p: "v = p @ a" "\<forall>b d. a = b @ d \<longrightarrow> scan_digits (p @ b) = Some b"
      unfolding splits_def by blast
    have "scan_exp (w @ p @ b) = Some b" if "a = b @ d" for b d
    proof -
      have *: "scan_digits (p @ b) = Some b" using p that by blast
      then obtain y ys where y: "p @ b = y # ys" "is_digit y"
        by (auto simp: scan_digits_def split: list.splits if_splits)
      then have "y \<noteq> CHR ''+''" "y \<noteq> CHR ''-''" by (auto simp: is_digit_def between_def)
      with * y c show ?thesis by (auto simp: scan_exp_def w_def)
    qed
    with p \<open>s = w @ v\<close> show ?thesis by (intro exI [of _ "w @ p"]) auto
  next
    case False
    with a have "a = s" by (auto simp: scan_exp_def split: list.splits if_splits)
    with False show ?thesis
      by (intro exI [of _ "[]"]) (auto simp: scan_exp_def split: list.splits)
  qed
next
  fix s a r
  assume "scan_exp s = Some a" and "delimited r"
  note digits = splits_delimited [OF splits_digits _ \<open>delimited r\<close>]
  from \<open>delimited r\<close> have "scan_exp r = Some r"
    by (auto simp: scan_exp_def dest!: delimited_cases)
  show "scan_exp (s @ r) = Some (a @ r)"
  proof (cases s)
    case Nil
    with \<open>scan_exp r = Some r\<close> \<open>scan_exp s = Some a\<close> show ?thesis by (simp add: scan_exp_def)
  next
    case s: (Cons c cs)
    show ?thesis
    proof (cases cs)
      case Nil
      with s \<open>scan_exp s = Some a\<close> show ?thesis by (auto simp: scan_exp_def split: if_splits)
    next
      case (Cons x xs)
      with s \<open>scan_exp s = Some a\<close> digits [of xs a] digits [of "x # xs" a] show ?thesis
        by (auto simp: scan_exp_def split: if_splits)
    qed
  qed
qed

text \<open>The three parts of a literal.\<close>

lemma splitsD:
  assumes "splits f" and "f s = Some a"
  obtains p where "s = p @ a" "\<And>b d. a = b @ d \<Longrightarrow> f (p @ b) = Some b"
  using assms unfolding splits_def by blast

definition unsigned :: "string \<Rightarrow> string" where
  "unsigned s = (case s of [] \<Rightarrow> [] | c # cs \<Rightarrow> if c = CHR ''-'' then cs else s)"

lemma scan_number_parts:
  "scan_number s = Some (w, r) \<longleftrightarrow> (\<exists>a b. scan_int (unsigned s) = Some a \<and> scan_frac a = Some b \<and>
     scan_exp b = Some r \<and> w = take (length s - length r) s)"
  by (auto simp: scan_number_def unsigned_def bind_eq_Some_conv)

lemma scan_number_split:
  assumes "scan_number s = Some (w, r)"
  shows "s = w @ r" and "number_ok w"
proof -
  from assms obtain a b where a: "scan_int (unsigned s) = Some a" and b: "scan_frac a = Some b"
    and r: "scan_exp b = Some r" and w: "w = take (length s - length r) s"
    unfolding scan_number_parts by blast
  obtain p where p: "unsigned s = p @ a" "\<And>b d. a = b @ d \<Longrightarrow> scan_int (p @ b) = Some b"
    using splitsD [OF splits_int a] by metis
  obtain q where q: "a = q @ b" "\<And>c d. b = c @ d \<Longrightarrow> scan_frac (q @ c) = Some c"
    using splitsD [OF splits_frac b] by metis
  obtain x where x: "b = x @ r" "\<And>c d. r = c @ d \<Longrightarrow> scan_exp (x @ c) = Some c"
    using splitsD [OF splits_exp r] by metis
  obtain sign where sign: "s = sign @ unsigned s" "sign = [] \<or> sign = ''-''"
  proof (cases "has_prefix ''-'' s")
    case True
    then obtain t where "s = CHR ''-'' # t" by (auto elim: has_prefixE)
    then show ?thesis by (intro that [of "''-''"]) (simp_all add: unsigned_def)
  next
    case False
    then show ?thesis by (intro that [of "[]"]) (auto simp: unsigned_def has_prefix_def split: list.splits)
  qed
  have s: "s = (sign @ p @ q @ x) @ r" using sign(1) p(1) q(1) x(1) by simp
  then have w': "w = sign @ p @ q @ x" using w by simp
  show "s = w @ r" using s w' by simp
  have "p \<noteq> []" using p(2) [of "[]" a] by (auto simp: scan_int_def)
  then obtain y ys where y: "p = y # ys" by (cases p) auto
  have "y \<noteq> CHR ''-''"
    using p(2) [of "[]" a] y by (auto simp: scan_int_def is_digit_def between_def split: if_splits)
  then have u: "unsigned w = p @ q @ x" using sign(2) w' y by (auto simp: unsigned_def)
  have "scan_int (p @ q @ x) = Some (q @ x)" "scan_frac (q @ x) = Some x" "scan_exp (x @ []) = Some []"
    using p(2) [of "q @ x" r] q(2) [of x r] x(2) [of "[]" r] q(1) x(1) by simp_all
  then show "number_ok w" unfolding number_ok_def scan_number_parts u by auto
qed

lemma scan_number_delimited:
  assumes "number_ok lit" and "delimited r"
  shows "scan_number (lit @ r) = Some (lit, r)"
proof -
  from assms(1) obtain a b where a: "scan_int (unsigned lit) = Some a" and b: "scan_frac a = Some b"
    and e: "scan_exp b = Some []"
    unfolding number_ok_def scan_number_parts by blast
  have "unsigned lit \<noteq> []" using a by (auto simp: scan_int_def)
  then have u: "unsigned (lit @ r) = unsigned lit @ r" by (cases lit) (auto simp: unsigned_def)
  show ?thesis unfolding scan_number_parts u
    using splits_delimited [OF splits_int a assms(2)] splits_delimited [OF splits_frac b assms(2)]
      splits_delimited [OF splits_exp e assms(2)] by auto
qed

lemma number_ok_head:
  assumes "number_ok lit"
  obtains c cs where "lit = c # cs" "c = CHR ''-'' \<or> is_digit c"
proof -
  from assms obtain a where "scan_int (unsigned lit) = Some a" unfolding number_ok_def scan_number_parts by blast
  then have "\<exists>c cs. lit = c # cs \<and> (c = CHR ''-'' \<or> is_digit c)"
    by (auto simp: scan_int_def unsigned_def is_digit_def between_def split: list.splits if_splits)
  with that show thesis by blast
qed

end
