(* ===== verification/JsonPrint.thy ===== *)
theory JsonPrint
  imports JsonText
begin

text \<open>
  Writing JSON and reading it back. \<open>print_json\<close> is \<open>json.Marshal\<close> of a value that \<open>Decode\<close> with
  \<open>UseNumber\<close> produces, \<open>canonical\<close> what the detour over a Go map does to an object: a repeated key
  keeps its last value, and the keys are sorted. Reading what was written gives the value back.
\<close>

section \<open>Printing\<close>

fun print_json :: "json \<Rightarrow> string" where
  "print_json JNull = ''null''"
| "print_json (JBool b) = (if b then ''true'' else ''false'')"
| "print_json (JNumber lit) = lit"
| "print_json (JString s) = marshal_string s"
| "print_json (JArray vs) = ''['' @ comma_separated (map print_json vs) @ '']''"
| "print_json (JObject ms) = [CHR 0x7B] @
     comma_separated (map (\<lambda>(k, v). marshal_string k @ '':'' @ print_json v) ms) @ [CHR 0x7D]"

text \<open>The values that a parser with \<open>d\<close> levels of nesting left can produce.\<close>

fun printable :: "nat \<Rightarrow> json \<Rightarrow> bool" where
  "printable d JNull = True"
| "printable d (JBool b) = True"
| "printable d (JNumber lit) = number_ok lit"
| "printable d (JString s) = valid_utf8 s"
| "printable d (JArray vs) = (d \<noteq> 0 \<and> list_all (printable (d - 1)) vs)"
| "printable d (JObject ms) = (d \<noteq> 0 \<and> list_all (\<lambda>(k, v). valid_utf8 k \<and> printable (d - 1) v) ms)"

fun canonical :: "json \<Rightarrow> json" where
  "canonical (JArray vs) = JArray (map canonical vs)"
| "canonical (JObject ms) = (let entries = map (\<lambda>(k, v). (k, canonical v)) ms in
     JObject (map (\<lambda>k. (k, case object_get entries k of Some v \<Rightarrow> v | None \<Rightarrow> JNull)) (sorted_set (map fst ms))))"
| "canonical v = v"

section \<open>Reading\<close>

text \<open>A printed value starts with a byte that is neither white space nor the end of a container.\<close>

lemma print_json_head:
  "printable d v \<Longrightarrow> \<exists>c cs. print_json v = c # cs \<and> \<not> is_ws c \<and> c \<noteq> CHR 0x5D \<and> c \<noteq> CHR 0x7D \<and> c \<noteq> CHR '',''"
  by (cases v) (auto simp: marshal_string_def is_ws_def is_digit_def between_def elim!: number_ok_head)

lemma skip_ws_head: "\<not> is_ws c \<Longrightarrow> skip_ws (c # cs) = c # cs"
  by (simp add: skip_ws_def)

lemma not_ws [simp]: "\<not> is_ws (CHR 0x22)" "\<not> is_ws (CHR 0x7B)" "\<not> is_ws (CHR 0x7D)" "\<not> is_ws (CHR 0x5B)"
  "\<not> is_ws (CHR 0x5D)" "\<not> is_ws (CHR '','')" "\<not> is_ws (CHR '':'')" "\<not> is_ws (CHR ''n'')" "\<not> is_ws (CHR ''t'')"
  "\<not> is_ws (CHR ''f'')"
  by (simp_all add: is_ws_def)

lemma skip_ws_print: "printable d v \<Longrightarrow> skip_ws (print_json v @ r) = print_json v @ r"
  using print_json_head [of d v] by (auto simp: skip_ws_head)

lemma comma_separated_Cons: "comma_separated (w # ws) = (if ws = [] then w else w @ '','' @ comma_separated ws)"
  by (cases ws) auto

text \<open>\<open>reads v d\<close>: with enough fuel the parser reads the text of \<open>v\<close> back.\<close>

definition reads :: "json \<Rightarrow> nat \<Rightarrow> bool" where
  "reads v d \<longleftrightarrow> (\<forall>r n. delimited r \<longrightarrow> 2 * length (print_json v @ r) < n \<longrightarrow>
     parse_value n d (print_json v @ r) = Some (v, r))"

lemma readsI: "(\<And>r m. delimited r \<Longrightarrow> parse_value (Suc m) d (print_json v @ r) = Some (v, r)) \<Longrightarrow> reads v d"
  unfolding reads_def by (intro allI impI, case_tac n) auto

lemma reads_elems:
  "vs \<noteq> [] \<Longrightarrow> \<forall>v \<in> set vs. printable d v \<and> reads v d \<Longrightarrow>
     2 * length (comma_separated (map print_json vs) @ CHR 0x5D # r) + 1 < n \<Longrightarrow>
     parse_elems n d (comma_separated (map print_json vs) @ CHR 0x5D # r) = Some (vs, r)"
proof (induction vs arbitrary: n)
  case (Cons v vs)
  then obtain m where n: "n = Suc m" by (cases n) auto
  have rd: "delimited t \<Longrightarrow> 2 * length (print_json v @ t) < m \<Longrightarrow> parse_value m d (print_json v @ t) = Some (v, t)" for t
    using Cons.prems(2) by (simp add: reads_def)
  show ?case
  proof (cases "vs = []")
    case True
    then show ?thesis using rd [of "CHR 0x5D # r"] Cons.prems(3) n by (simp add: delimited_def skip_ws_head)
  next
    case False
    let ?t = "comma_separated (map print_json vs) @ CHR 0x5D # r"
    have "parse_value m d (print_json v @ CHR '','' # ?t) = Some (v, CHR '','' # ?t)"
      using rd [of "CHR '','' # ?t"] Cons.prems(3) n False by (simp add: delimited_def comma_separated_Cons)
    moreover have "parse_elems m d ?t = Some (vs, r)"
      using Cons.IH [OF False, of m] Cons.prems(2,3) n False by (simp add: comma_separated_Cons)
    ultimately show ?thesis using n False by (simp add: comma_separated_Cons skip_ws_head)
  qed
qed simp

definition print_member :: "string \<times> json \<Rightarrow> string" where
  "print_member = (\<lambda>(k, v). marshal_string k @ '':'' @ print_json v)"

lemma parse_member:
  assumes "valid_utf8 k" and "printable d v" and "reads v d" and "delimited t"
    and "2 * length (print_member (k, v) @ t) \<le> m"
  shows "parse_members (Suc m) d (print_member (k, v) @ t) =
    (let e = (k, print_json v, v) in case skip_ws t of [] \<Rightarrow> None
     | x # xs \<Rightarrow> if x = CHR 0x7D then Some ([e], xs)
         else if x = CHR '','' then map_option (apfst (\<lambda>ms. e # ms)) (parse_members m d xs) else None)"
proof -
  have v: "parse_value m d (print_json v @ t) = Some (v, t)"
    using assms(3-5) by (simp add: reads_def print_member_def marshal_string_def)
  have s: "scan_string (escape_string k @ CHR 0x22 # CHR '':'' # print_json v @ t) =
      Some (escape_string k, CHR '':'' # print_json v @ t)"
    by (rule scan_string_escape)
  show ?thesis
    using v s assms(1,2)
    by (simp add: print_member_def marshal_string_def skip_ws_head skip_ws_print [of d] unquote_escape)
qed

lemma reads_members:
  "ms \<noteq> [] \<Longrightarrow> \<forall>(k, v) \<in> set ms. valid_utf8 k \<and> printable d v \<and> reads v d \<Longrightarrow>
     2 * length (comma_separated (map print_member ms) @ CHR 0x7D # r) + 1 < n \<Longrightarrow>
     parse_members n d (comma_separated (map print_member ms) @ CHR 0x7D # r) =
     Some (map (\<lambda>(k, v). (k, print_json v, v)) ms, r)"
proof (induction ms arbitrary: n)
  case (Cons e ms)
  then obtain k v m where n: "n = Suc m" and e: "e = (k, v)" by (cases n; cases e) auto
  note member = parse_member [of k d v _ m]
  have ok: "valid_utf8 k" "printable d v" "reads v d" using Cons.prems(2) e by auto
  show ?case
  proof (cases "ms = []")
    case True
    then show ?thesis using member [OF ok, of "CHR 0x7D # r"] Cons.prems(3) n e
      by (simp add: delimited_def skip_ws_head)
  next
    case False
    let ?t = "comma_separated (map print_member ms) @ CHR 0x7D # r"
    have "parse_members m d ?t = Some (map (\<lambda>(k, v). (k, print_json v, v)) ms, r)"
      using Cons.IH [OF False, of m] Cons.prems(2,3) n False by (simp add: comma_separated_Cons)
    then show ?thesis using member [OF ok, of "CHR '','' # ?t"] Cons.prems(3) n e False
      by (simp add: delimited_def skip_ws_head comma_separated_Cons)
  qed
qed simp

lemma print_object: "print_json (JObject ms) = CHR 0x7B # comma_separated (map print_member ms) @ [CHR 0x7D]"
  by (simp add: print_member_def)

lemma comma_separated_head:
  "ws \<noteq> [] \<Longrightarrow> hd ws = c # cs \<Longrightarrow> \<exists>ds. comma_separated ws = c # ds"
  by (cases ws) (auto simp: comma_separated_Cons)

lemma print_json_reads: "printable d v \<Longrightarrow> reads v d"
proof (induction d v rule: printable.induct)
  case (3 d lit)
  show ?case unfolding reads_def
  proof (intro allI impI)
    fix r n
    assume r: "delimited r" and n: "2 * length (print_json (JNumber lit) @ r) < n"
    obtain c cs where lit: "lit = c # cs" "c = CHR ''-'' \<or> is_digit c" using 3 by (auto elim: number_ok_head)
    obtain m where m: "n = Suc m" using n by (cases n) auto
    have "\<not> is_ws c" "c \<noteq> CHR 0x22" "c \<noteq> CHR 0x7B" "c \<noteq> CHR 0x5B" "c \<noteq> CHR ''n''" "c \<noteq> CHR ''t''" "c \<noteq> CHR ''f''"
      using lit(2) by (auto simp: is_ws_def is_digit_def between_def)
    then show "parse_value n d (print_json (JNumber lit) @ r) = Some (JNumber lit, r)"
      using scan_number_delimited [of lit r] 3 r m lit(1) by (simp add: skip_ws_head has_prefix_def)
  qed
next
  case (5 d vs)
  then have vs: "\<forall>v \<in> set vs. printable (d - 1) v \<and> reads v (d - 1)" and d: "d \<noteq> 0"
    by (auto simp: list_all_iff)
  show ?case unfolding reads_def
  proof (intro allI impI)
    fix r n
    assume n: "2 * length (print_json (JArray vs) @ r) < n"
    then obtain m where m: "n = Suc m" by (cases n) auto
    show "parse_value n d (print_json (JArray vs) @ r) = Some (JArray vs, r)"
    proof (cases vs)
      case Nil
      then show ?thesis using m d by (simp add: skip_ws_head)
    next
      case (Cons v us)
      let ?t = "comma_separated (map print_json vs) @ CHR 0x5D # r"
      obtain c cs where "print_json v = c # cs" "\<not> is_ws c" "c \<noteq> CHR 0x5D" using print_json_head vs Cons by force
      moreover from this obtain ds where "comma_separated (map print_json vs) = c # ds"
        using comma_separated_head [of "map print_json vs" c cs] Cons by auto
      moreover have "parse_elems m (d - 1) ?t = Some (vs, r)"
        using reads_elems [of vs "d - 1" r m] vs n m Cons by simp
      ultimately show ?thesis using m d by (simp add: skip_ws_head)
    qed
  qed
next
  case (6 d ms)
  then have ms: "\<forall>(k, v) \<in> set ms. valid_utf8 k \<and> printable (d - 1) v \<and> reads v (d - 1)" and d: "d \<noteq> 0"
    by (auto simp: list_all_iff)
  show ?case unfolding reads_def print_object
  proof (intro allI impI)
    fix r n
    assume n: "2 * length ((CHR 0x7B # comma_separated (map print_member ms) @ [CHR 0x7D]) @ r) < n"
    then obtain m where m: "n = Suc m" by (cases n) auto
    show "parse_value n d ((CHR 0x7B # comma_separated (map print_member ms) @ [CHR 0x7D]) @ r) = Some (JObject ms, r)"
    proof (cases ms)
      case Nil
      then show ?thesis using m d by (simp add: skip_ws_head)
    next
      case (Cons e us)
      let ?t = "comma_separated (map print_member ms) @ CHR 0x7D # r"
      obtain cs where "print_member e = CHR 0x22 # cs" by (cases e) (simp add: print_member_def marshal_string_def)
      then obtain ds where "comma_separated (map print_member ms) = CHR 0x22 # ds"
        using comma_separated_head [of "map print_member ms"] Cons by auto
      moreover have "parse_members m (d - 1) ?t = Some (map (\<lambda>(k, v). (k, print_json v, v)) ms, r)"
        using reads_members [of ms "d - 1" r m] ms n m Cons by simp
      moreover have "map (\<lambda>(k, _, v). (k, v)) (map (\<lambda>(k, v). (k, print_json v, v)) ms) = ms"
        by (induction ms) auto
      ultimately show ?thesis using m d by (simp add: skip_ws_head)
    qed
  qed
qed (auto intro!: readsI simp: marshal_string_def skip_ws_head scan_string_escape unquote_escape has_prefix_def)

text \<open>Conversely, what the parser produces is printable.\<close>

lemma parse_printable_all:
  "(\<forall>d s v r. parse_value n d s = Some (v, r) \<longrightarrow> printable d v) \<and>
   (\<forall>d s vs r. parse_elems n d s = Some (vs, r) \<longrightarrow> list_all (printable d) vs) \<and>
   (\<forall>d s ms r. parse_members n d s = Some (ms, r) \<longrightarrow> list_all (\<lambda>m. valid_utf8 (fst m) \<and> printable d (snd (snd m))) ms)"
proof (induction n)
  case 0
  then show ?case by simp
next
  case (Suc n)
  then have V: "parse_value n d s = Some (v, r) \<Longrightarrow> printable d v"
    and E: "parse_elems n d s = Some (vs, r) \<Longrightarrow> list_all (printable d) vs"
    and M: "parse_members n d s = Some (ms, r) \<Longrightarrow> list_all (\<lambda>m. valid_utf8 (fst m) \<and> printable d (snd (snd m))) ms"
    for d s v vs ms r
    by blast+
  have M': "parse_members n d s = Some (ms, r) \<Longrightarrow>
      list_all (\<lambda>(k, v). valid_utf8 k \<and> printable d v) (map (\<lambda>(k, raw, v). (k, v)) ms)" for d s ms r
    using M by (fastforce simp: list_all_iff)
  have S: "scan_string s = Some (w, r) \<Longrightarrow> valid_utf8 (unquote w)" for s w r
    using scan_string_split unquote_valid by blast
  have N: "scan_number s = Some (w, r) \<Longrightarrow> number_ok w" for s w r by (rule scan_number_split)
  have "printable d v" if "parse_value (Suc n) d s = Some (v, r)" for d s v r
    using that by (auto split: list.splits if_splits dest: E M' S N)
  moreover have "list_all (printable d) vs" if "parse_elems (Suc n) d s = Some (vs, r)" for d s vs r
    using that by (auto split: list.splits if_splits option.splits prod.splits dest: V E)
  moreover have "list_all (\<lambda>m. valid_utf8 (fst m) \<and> printable d (snd (snd m))) ms"
    if "parse_members (Suc n) d s = Some (ms, r)" for d s ms r
    using that by (auto simp: Let_def split: list.splits if_splits option.splits prod.splits dest: V M S)
  ultimately show ?case by blast
qed

lemma json_parse_printable: "json_parse s = Some v \<Longrightarrow> printable maxNestingDepth v"
  by (auto dest: parse_printable_all [THEN conjunct1, rule_format] simp: json_parse_def simp del: parse_value.simps split: option.splits prod.splits if_splits)

lemma json_parse_print: "printable maxNestingDepth v \<Longrightarrow> json_parse (print_json v) = Some v"
  using print_json_reads [of maxNestingDepth v] unfolding reads_def
  by (auto simp: json_parse_def delimited_def skip_ws_def dest!: spec [of _ "[]"])

section \<open>Canonical values\<close>

lemma object_get_in: "object_get ms k = Some v \<Longrightarrow> (k, v) \<in> set ms"
  by (auto simp: object_get_def dest: map_of_SomeD)

lemma object_get_exists: "k \<in> fst ` set ms \<Longrightarrow> \<exists>v. object_get ms k = Some v"
  by (metis map_of_eq_None_iff not_Some_eq object_get_def set_rev)

text \<open>The value of each key of a canonical object is the canonical form of a member.\<close>

lemma canonical_member:
  assumes "k \<in> fst ` set ms"
  obtains u where "object_get (map (\<lambda>(k, v). (k, canonical v)) ms) k = Some (canonical u)" "(k, u) \<in> set ms"
proof -
  have "k \<in> fst ` set (map (\<lambda>(k, v). (k, canonical v)) ms)" using assms by force
  then obtain w where w: "object_get (map (\<lambda>(k, v). (k, canonical v)) ms) k = Some w" using object_get_exists by blast
  with object_get_in [OF w] that show thesis by auto
qed

lemma printable_canonical: "printable d v \<Longrightarrow> printable d (canonical v)"
proof (induction d v rule: printable.induct)
  case (5 d vs)
  then show ?case by (auto simp: list_all_iff)
next
  case (6 d ms)
  have ok: "printable (d - 1) (canonical v)" "valid_utf8 k" if "(k, v) \<in> set ms" for k v
    using 6 that by (auto simp: list_all_iff)
  have "valid_utf8 k \<and> printable (d - 1) (case object_get (map (\<lambda>(k, v). (k, canonical v)) ms) k of
      Some v \<Rightarrow> v | None \<Rightarrow> JNull)" if "k \<in> fst ` set ms" for k
    using that by (rule canonical_member) (use ok in auto)
  then show ?case using "6.prems" by (simp add: list_all_iff Let_def)
qed simp_all

lemma object_get_distinct: "distinct ks \<Longrightarrow> k \<in> set ks \<Longrightarrow> object_get (map (\<lambda>k. (k, f k)) ks) k = Some (f k)"
  by (simp add: object_get_def rev_map) (simp add: map_of_map_restrict)

lemma canonical_idem: "canonical (canonical v) = canonical v"
proof (induction v rule: canonical.induct)
  case (2 ms)
  define g where "g k = (case object_get (map (\<lambda>(k, v). (k, canonical v)) ms) k of Some v \<Rightarrow> v | None \<Rightarrow> JNull)" for k
  define ks where "ks = sorted_set (map fst ms)"
  have g: "canonical (g k) = g k" if "k \<in> set ks" for k
  proof -
    from that have "k \<in> fst ` set ms" by (simp add: ks_def)
    then show ?thesis
    proof (rule canonical_member)
      fix u
      assume "object_get (map (\<lambda>(k, v). (k, canonical v)) ms) k = Some (canonical u)" "(k, u) \<in> set ms"
      then show ?thesis using 2 by (auto simp: g_def)
    qed
  qed
  have "canonical (JObject ms) = JObject (map (\<lambda>k. (k, g k)) ks)"
    by (simp add: Let_def g_def ks_def)
  moreover have "sorted_set (map fst (map (\<lambda>k. (k, g k)) ks)) = ks"
    by (simp add: comp_def ks_def)
  moreover have "object_get (map (\<lambda>(k, v). (k, canonical v)) (map (\<lambda>k. (k, g k)) ks)) k = Some (g k)"
    if "k \<in> set ks" for k
    using object_get_distinct [of ks k "\<lambda>k. canonical (g k)"] g that by (simp add: comp_def ks_def)
  ultimately show ?case by (simp add: Let_def)
qed simp_all

lemma json_parse_canonical: "json_parse s = Some v \<Longrightarrow> json_parse (print_json (canonical v)) = Some (canonical v)"
  by (intro json_parse_print printable_canonical json_parse_printable)

end
