(* ===== verification/StateTypes.thy ===== *)
theory StateTypes
  imports Json "HOL-Library.Code_Target_Nat"
begin

text \<open>
  The durable data of \<open>src/runtime/src/ports/statestore\<close> (\<open>statestore.go\<close> and \<open>work.go\<close>): events,
  the status of every state machine, and the projections the reducers maintain.

  Every projection of the source carries the same five fields (its identity under the JSON key
  \<open>id\<close>, \<open>ResourceVersion\<close>, \<open>LastGlobalPosition\<close>, \<open>CreatedAt\<close> and \<open>UpdatedAt\<close>). They are the record
  \<open>projection\<close>, which the projection records extend, so that what is shared is stated once. In the
  same way \<open>PendingEvent\<close> and \<open>Event\<close> extend the fields they have in common. The statuses a
  projection can hold are closed sets, hence datatypes; kinds, aggregate types, actor types and
  approval classes arrive as text and stay strings.
\<close>

text \<open>A \<open>time.Time\<close> counts nanoseconds from the Unix epoch; the zero value of the type is the first
  instant of year 1.\<close>

definition zero_time :: timestamp where "zero_time = -62135596800000000000"

definition IsZero :: "timestamp \<Rightarrow> bool" where "IsZero t \<longleftrightarrow> t = zero_time"

section \<open>Events\<close>

type_synonym AggregateType = string

abbreviation (input) AggregateProject :: AggregateType where "AggregateProject \<equiv> ''project''"
abbreviation (input) AggregateWork :: AggregateType where "AggregateWork \<equiv> ''work''"
abbreviation (input) AggregateStory :: AggregateType where "AggregateStory \<equiv> ''story''"
abbreviation (input) AggregatePoint :: AggregateType where "AggregatePoint \<equiv> ''point''"
abbreviation (input) AggregateRun :: AggregateType where "AggregateRun \<equiv> ''run''"
abbreviation (input) AggregateVisit :: AggregateType where "AggregateVisit \<equiv> ''visit''"
abbreviation (input) AggregateAttempt :: AggregateType where "AggregateAttempt \<equiv> ''attempt''"
abbreviation (input) AggregateArtifact :: AggregateType where "AggregateArtifact \<equiv> ''artifact''"
abbreviation (input) AggregateApproval :: AggregateType where "AggregateApproval \<equiv> ''approval''"
abbreviation (input) AggregateOperation :: AggregateType where "AggregateOperation \<equiv> ''operation''"
abbreviation (input) AggregateAssessment :: AggregateType where "AggregateAssessment \<equiv> ''assessment''"
abbreviation (input) AggregateInput :: AggregateType where "AggregateInput \<equiv> ''input''"
abbreviation (input) AggregatePermission :: AggregateType where "AggregatePermission \<equiv> ''permission''"

abbreviation (input) ActorUser :: string where "ActorUser \<equiv> ''user''"
abbreviation (input) ActorSystem :: string where "ActorSystem \<equiv> ''system''"
abbreviation (input) ActorProvider :: string where "ActorProvider \<equiv> ''provider''"
abbreviation (input) ActorExternal :: string where "ActorExternal \<equiv> ''external''"

record EventActor =
  ActorType :: string
  ActorID :: string

record event_fields =
  SchemaVersion :: uint64
  EventID :: string
  AggregateType :: AggregateType
  AggregateID :: string
  Kind :: string
  OccurredAt :: timestamp
  CorrelationID :: string
  CausationID :: "string option"
  CommandID :: string
  event_actor :: EventActor
  Data :: raw_message
  Metadata :: raw_message

record PendingEvent = event_fields +
  ExpectedRevision :: uint64

record Event = event_fields +
  GlobalPosition :: uint64
  AggregateRevision :: uint64
  RecordedAt :: timestamp

record EventBounds =
  Oldest :: uint64
  Latest :: uint64

section \<open>Immutable JSON snapshots\<close>

type_synonym JSONSnapshot = string

definition MarshalJSON :: "JSONSnapshot \<Rightarrow> raw_message option" where
  "MarshalJSON snapshot = (if snapshot = [] then Some ''null''
     else if json_valid snapshot then Some snapshot else None)"

definition UnmarshalJSON :: "raw_message \<Rightarrow> JSONSnapshot option" where
  "UnmarshalJSON encoded = (if \<not> json_valid encoded then None
     else if encoded = ''null'' then Some [] else Some encoded)"

section \<open>Projections\<close>

record projection =
  ResourceID :: string
  ResourceVersion :: uint64
  LastGlobalPosition :: uint64
  CreatedAt :: timestamp
  UpdatedAt :: timestamp

datatype RunStatus = RunDraft | RunReady | RunQueued | RunRunning | RunWaiting | RunBlocked
  | RunCompleted | RunFailed | RunCancelled | RunReconcileRequired

fun run_status_string :: "RunStatus \<Rightarrow> string" where
  "run_status_string RunDraft = ''draft''"
| "run_status_string RunReady = ''ready''"
| "run_status_string RunQueued = ''queued''"
| "run_status_string RunRunning = ''running''"
| "run_status_string RunWaiting = ''waiting''"
| "run_status_string RunBlocked = ''blocked''"
| "run_status_string RunCompleted = ''completed''"
| "run_status_string RunFailed = ''failed''"
| "run_status_string RunCancelled = ''cancelled''"
| "run_status_string RunReconcileRequired = ''reconcile_required''"

definition run_terminal :: "RunStatus \<Rightarrow> bool" where
  "run_terminal status \<longleftrightarrow> status = RunCompleted \<or> status = RunCancelled \<or> status = RunReconcileRequired"

record RunProjection = projection +
  run_WorkItemID :: string
  WorkflowID :: string
  WorkflowVersion :: string
  WorkflowDigest :: string
  RouteDigest :: string
  RouteSnapshot :: JSONSnapshot
  run_Priority :: int
  run_Status :: RunStatus

datatype NodeStatus = NodePending | NodeReady | NodeRunning | NodeValidating | NodeWaitingCheckpoint
  | NodeSucceeded | NodeRejected | NodeFailed | NodeCancelled

fun node_status_string :: "NodeStatus \<Rightarrow> string" where
  "node_status_string NodePending = ''pending''"
| "node_status_string NodeReady = ''ready''"
| "node_status_string NodeRunning = ''running''"
| "node_status_string NodeValidating = ''validating''"
| "node_status_string NodeWaitingCheckpoint = ''waiting_checkpoint''"
| "node_status_string NodeSucceeded = ''succeeded''"
| "node_status_string NodeRejected = ''rejected''"
| "node_status_string NodeFailed = ''failed''"
| "node_status_string NodeCancelled = ''cancelled''"

definition node_terminal :: "NodeStatus \<Rightarrow> bool" where
  "node_terminal status \<longleftrightarrow> status \<in> {NodeSucceeded, NodeRejected, NodeFailed, NodeCancelled}"

record NodeProjection = projection +
  node_RunID :: string
  node_NodeID :: string
  node_Status :: NodeStatus

datatype AttemptStatus = AttemptCreated | AttemptStarting | AttemptRunning | AttemptValidating
  | AttemptSucceeded | AttemptFailed | AttemptCancelled | AttemptInterrupted | AttemptReconcileRequired

fun attempt_status_string :: "AttemptStatus \<Rightarrow> string" where
  "attempt_status_string AttemptCreated = ''created''"
| "attempt_status_string AttemptStarting = ''starting''"
| "attempt_status_string AttemptRunning = ''running''"
| "attempt_status_string AttemptValidating = ''validating''"
| "attempt_status_string AttemptSucceeded = ''succeeded''"
| "attempt_status_string AttemptFailed = ''failed''"
| "attempt_status_string AttemptCancelled = ''cancelled''"
| "attempt_status_string AttemptInterrupted = ''interrupted''"
| "attempt_status_string AttemptReconcileRequired = ''reconcile_required''"

definition attempt_terminal :: "AttemptStatus \<Rightarrow> bool" where
  "attempt_terminal status \<longleftrightarrow>
     status \<in> {AttemptSucceeded, AttemptFailed, AttemptCancelled, AttemptInterrupted, AttemptReconcileRequired}"

record AttemptProjection = projection +
  attempt_RunID :: string
  attempt_VisitID :: string
  attempt_NodeID :: string
  PointID :: string
  PointRevision :: uint64
  attempt_Priority :: int
  Scenario :: string
  Provider :: string
  attempt_Status :: AttemptStatus
  attempt_ProviderThreadID :: string
  attempt_ProviderTurnID :: string
  ProcessOwnerID :: string
  LastSequence :: uint64
  LogReference :: string

section \<open>Commands\<close>

record CommandEvidence =
  cmd_Scope :: string
  cmd_IdempotencyKey :: string
  cmd_RequestDigest :: string
  cmd_Status :: string
  cmd_ResponseStatus :: "int option"
  cmd_Response :: raw_message
  cmd_FirstEventPosition :: "uint64 option"
  cmd_LastEventPosition :: "uint64 option"
  cmd_CreatedAt :: timestamp
  cmd_CompletedAt :: "timestamp option"

record BeginCommandRequest =
  begin_Scope :: string
  begin_IdempotencyKey :: string
  begin_RequestDigest :: string
  begin_CreatedAt :: timestamp

record CompleteCommandRequest =
  complete_Scope :: string
  complete_IdempotencyKey :: string
  complete_ResponseStatus :: int
  complete_Response :: raw_message
  complete_FirstEventPosition :: "uint64 option"
  complete_LastEventPosition :: "uint64 option"
  complete_CompletedAt :: timestamp

section \<open>Approvals, readiness, questions and permissions\<close>

abbreviation (input) ApprovalWorkflowCheckpoint :: string where "ApprovalWorkflowCheckpoint \<equiv> ''workflow_checkpoint''"
abbreviation (input) ApprovalWorkflowControl :: string where "ApprovalWorkflowControl \<equiv> ''workflow_control''"
abbreviation (input) ApprovalProviderPermission :: string where "ApprovalProviderPermission \<equiv> ''provider_permission''"
abbreviation (input) ApprovalExternalDelivery :: string where "ApprovalExternalDelivery \<equiv> ''external_delivery''"

datatype ApprovalStatus = ApprovalPending | ApprovalApproved | ApprovalChangesRequested
  | ApprovalRejected | ApprovalDenied | ApprovalCancelled | ApprovalExpired

fun approval_status_string :: "ApprovalStatus \<Rightarrow> string" where
  "approval_status_string ApprovalPending = ''pending''"
| "approval_status_string ApprovalApproved = ''approved''"
| "approval_status_string ApprovalChangesRequested = ''changes_requested''"
| "approval_status_string ApprovalRejected = ''rejected''"
| "approval_status_string ApprovalDenied = ''denied''"
| "approval_status_string ApprovalCancelled = ''cancelled''"
| "approval_status_string ApprovalExpired = ''expired''"

record ApprovalDecisionProjection =
  decision_Action :: string
  decision_ActionKey :: string
  decision_Comment :: string
  decision_Actor :: EventActor
  DecidedAt :: timestamp

record ApprovalProjection = projection +
  approval_RunID :: string
  Class :: string
  approval_Status :: ApprovalStatus
  CheckpointID :: string
  approval_VisitID :: string
  approval_NodeID :: string
  approval_AttemptID :: string
  CheckpointRevision :: uint64
  CandidateArtifactID :: string
  CandidateArtifactVersion :: uint64
  CandidateDigest :: string
  approval_CheckpointMode :: string
  MaxRevisions :: "uint64 option"
  approval_ScopeDigest :: string
  approval_PolicyDigest :: string
  approval_Decision :: "ApprovalDecisionProjection option"

datatype ReadinessAssessmentStatus = ReadinessAssessmentPending | ReadinessAssessmentDecided

fun readiness_status_string :: "ReadinessAssessmentStatus \<Rightarrow> string" where
  "readiness_status_string ReadinessAssessmentPending = ''pending''"
| "readiness_status_string ReadinessAssessmentDecided = ''decided''"

abbreviation (input) ReadinessEffectPending :: string where "ReadinessEffectPending \<equiv> ''pending''"

record ReadinessDecisionProjection =
  DecisionID :: string
  Choice :: string
  RemedyCode :: string
  Reason :: string
  EffectStatus :: string
  readiness_Actor :: EventActor
  readiness_DecidedAt :: timestamp

record ReadinessAssessmentProjection = projection +
  readiness_RunID :: string
  readiness_NodeID :: string
  Disposition :: string
  AssessmentDigest :: string
  readiness_PolicyDigest :: string
  Submission :: JSONSnapshot
  readiness_RouteContext :: JSONSnapshot
  readiness_Status :: ReadinessAssessmentStatus
  readiness_Decision :: "ReadinessDecisionProjection option"

datatype InputRequestStatus = InputRequestPending | InputRequestAnswerRecorded | InputRequestAnswered

fun input_status_string :: "InputRequestStatus \<Rightarrow> string" where
  "input_status_string InputRequestPending = ''pending''"
| "input_status_string InputRequestAnswerRecorded = ''answer_recorded''"
| "input_status_string InputRequestAnswered = ''answered''"

record InputAnswerProjection =
  answer_Answer :: JSONSnapshot
  answer_ActionKey :: string
  answer_Actor :: EventActor
  answer_RecordedAt :: timestamp

record InputReceiptProjection =
  input_receipt_ProviderRequestID :: string
  input_receipt_DeliveredAt :: timestamp

record InputRequestProjection = projection +
  input_RunID :: string
  input_AttemptID :: string
  input_NodeID :: string
  input_ProviderThreadID :: string
  input_ProviderRequestID :: string
  input_ScopeDigest :: string
  input_Request :: JSONSnapshot
  input_Status :: InputRequestStatus
  input_Answer :: "InputAnswerProjection option"
  input_Receipt :: "InputReceiptProjection option"

datatype ProviderPermissionStatus = ProviderPermissionPending | ProviderPermissionDecisionRecorded
  | ProviderPermissionResponded

fun permission_status_string :: "ProviderPermissionStatus \<Rightarrow> string" where
  "permission_status_string ProviderPermissionPending = ''pending''"
| "permission_status_string ProviderPermissionDecisionRecorded = ''decision_recorded''"
| "permission_status_string ProviderPermissionResponded = ''responded''"

record ProviderPermissionDecisionProjection =
  permission_decision :: string
  permission_ActionKey :: string
  permission_Actor :: EventActor
  permission_RecordedAt :: timestamp

record ProviderPermissionReceiptProjection =
  permission_receipt_ProviderRequestID :: string
  permission_receipt_DeliveredAt :: timestamp

record ProviderPermissionProjection = projection +
  permission_RunID :: string
  permission_AttemptID :: string
  permission_NodeID :: string
  permission_ProviderThreadID :: string
  permission_ProviderTurnID :: string
  permission_ProviderRequestID :: string
  permission_InteractionKind :: string
  permission_Scope :: JSONSnapshot
  permission_ScopeDigest :: string
  permission_PolicyDigest :: string
  permission_Evidence :: JSONSnapshot
  permission_Status :: ProviderPermissionStatus
  permission_Decision :: "ProviderPermissionDecisionProjection option"
  permission_Receipt :: "ProviderPermissionReceiptProjection option"

section \<open>Leases and queues\<close>

datatype LeaseScopeKind = LeaseScopeAttempt | LeaseScopeRepository | LeaseScopeWorktree
  | LeaseScopeUnknown string

datatype LeaseState = LeaseHeld | LeaseReleasing | LeaseReleased | LeaseReconcileRequired

text \<open>A \<open>time.Duration\<close> counts nanoseconds.\<close>

definition DefaultLeaseDuration :: int where "DefaultLeaseDuration = 30000000000"

definition MaximumHeartbeatInterval :: int where "MaximumHeartbeatInterval = 10000000000"

record LeaseGuard =
  guard_LeaseID :: string
  guard_HolderAttemptID :: string
  guard_DaemonInstanceID :: string
  guard_FencingToken :: uint64

record Lease =
  LeaseID :: string
  lease_ScopeKind :: LeaseScopeKind
  lease_ScopeID :: string
  HolderAttemptID :: string
  DaemonInstanceID :: string
  FencingToken :: uint64
  AcquiredAt :: timestamp
  HeartbeatAt :: timestamp
  ExpiresAt :: timestamp
  HostBootID :: string
  ProcessIdentity :: raw_message
  lease_State :: LeaseState
  lease_Evidence :: raw_message
  ReleasedAt :: "timestamp option"

record AcquireLeaseRequest =
  acquire_LeaseID :: string
  acquire_ScopeKind :: LeaseScopeKind
  acquire_ScopeID :: string
  acquire_HolderAttemptID :: string
  acquire_DaemonInstanceID :: string
  acquire_HostBootID :: string
  ExpectedFencingToken :: uint64
  Duration :: int
  acquire_ProcessIdentity :: raw_message

datatype QueueKind = QueueAttempt | QueueRepositoryWrite | QueueUnknown string

record QueueEntry =
  queue_Kind :: QueueKind
  queue_ScopeID :: string
  queue_ItemID :: string
  queue_Priority :: int
  AvailableAt :: timestamp
  EnqueuedAt :: timestamp
  queue_Payload :: raw_message

record EnqueueRequest =
  enqueue_Kind :: QueueKind
  enqueue_ScopeID :: string
  enqueue_ItemID :: string
  enqueue_Priority :: int
  enqueue_AvailableAt :: timestamp
  enqueue_Payload :: raw_message

section \<open>Projects, work items, stories and points\<close>

abbreviation (input) WorkRoutingAutomatic :: string where "WorkRoutingAutomatic \<equiv> ''automatic''"
abbreviation (input) WorkRoutingOverride :: string where "WorkRoutingOverride \<equiv> ''override''"

record WorkRoutingIntent =
  intent_Mode :: string
  intent_WorkflowID :: string
  intent_WorkflowVersion :: string
  intent_EntryNodeID :: string
  intent_TerminalNodeIDs :: "string list"

datatype ProjectStatus = ProjectActive | ProjectArchived

fun project_status_string :: "ProjectStatus \<Rightarrow> string" where
  "project_status_string ProjectActive = ''active''"
| "project_status_string ProjectArchived = ''archived''"

record ProjectProjection = projection +
  project_Name :: string
  project_SourceHash :: string
  project_Status :: ProjectStatus

datatype WorkItemStatus = WorkItemOpen | WorkItemActive | WorkItemCompleted | WorkItemCancelled

fun work_status_string :: "WorkItemStatus \<Rightarrow> string" where
  "work_status_string WorkItemOpen = ''open''"
| "work_status_string WorkItemActive = ''active''"
| "work_status_string WorkItemCompleted = ''completed''"
| "work_status_string WorkItemCancelled = ''cancelled''"

definition work_terminal :: "WorkItemStatus \<Rightarrow> bool" where
  "work_terminal status \<longleftrightarrow> status = WorkItemCompleted \<or> status = WorkItemCancelled"

datatype WorkDeletionState = WorkRetained | WorkDeleting | WorkDeleted

record WorkItemProjection = projection +
  ProjectID :: string
  work_Title :: string
  Deletion :: WorkDeletionState
  Details :: string
  work_Evidence :: "string list"
  RoutingIntent :: WorkRoutingIntent
  work_SourceHash :: string
  work_Priority :: int
  work_Status :: WorkItemStatus

datatype StoryStatus = StoryPlanned | StoryReady | StoryRunning | StoryCompleted | StoryCancelled
  | StoryRetired

fun story_status_string :: "StoryStatus \<Rightarrow> string" where
  "story_status_string StoryPlanned = ''planned''"
| "story_status_string StoryReady = ''ready''"
| "story_status_string StoryRunning = ''running''"
| "story_status_string StoryCompleted = ''completed''"
| "story_status_string StoryCancelled = ''cancelled''"
| "story_status_string StoryRetired = ''retired''"

definition story_terminal :: "StoryStatus \<Rightarrow> bool" where
  "story_terminal status \<longleftrightarrow> status = StoryCompleted \<or> status = StoryCancelled \<or> status = StoryRetired"

record StoryProjection = projection +
  story_WorkItemID :: string
  story_Title :: string
  story_SourceHash :: string
  story_Priority :: int
  story_Position :: int
  story_Status :: StoryStatus

datatype PointStatus = PointPlanned | PointReady | PointRunning | PointValidating
  | PointAwaitingApproval | PointAccepted | PointCommitted | PointPublished | PointFailed
  | PointRejected | PointSuperseded | PointReconcileRequired

fun point_status_string :: "PointStatus \<Rightarrow> string" where
  "point_status_string PointPlanned = ''planned''"
| "point_status_string PointReady = ''ready''"
| "point_status_string PointRunning = ''running''"
| "point_status_string PointValidating = ''validating''"
| "point_status_string PointAwaitingApproval = ''awaiting_approval''"
| "point_status_string PointAccepted = ''accepted''"
| "point_status_string PointCommitted = ''committed''"
| "point_status_string PointPublished = ''published''"
| "point_status_string PointFailed = ''failed''"
| "point_status_string PointRejected = ''rejected''"
| "point_status_string PointSuperseded = ''superseded''"
| "point_status_string PointReconcileRequired = ''reconcile_required''"

definition point_terminal :: "PointStatus \<Rightarrow> bool" where
  "point_terminal status \<longleftrightarrow>
     status \<in> {PointPublished, PointFailed, PointRejected, PointSuperseded, PointReconcileRequired}"

record PointProjection = projection +
  StoryID :: string
  point_Revision :: uint64
  point_Title :: string
  point_SourceHash :: string
  point_Priority :: int
  point_Position :: int
  Dependencies :: "string list"
  point_Status :: PointStatus

section \<open>Facts\<close>

text \<open>A snapshot that holds a JSON text other than \<open>null\<close> survives being written and read back; so
  does the empty one.\<close>

lemma snapshot_roundtrip:
  "snapshot \<noteq> ''null'' \<Longrightarrow> MarshalJSON snapshot = Some encoded \<Longrightarrow> UnmarshalJSON encoded = Some snapshot"
proof -
  have "json_valid ''null''" by code_simp
  then show "snapshot \<noteq> ''null'' \<Longrightarrow> MarshalJSON snapshot = Some encoded \<Longrightarrow> ?thesis"
    by (auto simp: MarshalJSON_def UnmarshalJSON_def split: if_splits)
qed

end
