(* ===== verification/Reducer.thy ===== *)
theory Reducer
  imports StateTypes
begin

text \<open>
  What the reducers of \<open>src/runtime/src/core/projection\<close> have in common. A reducer takes the current
  projection, or none, and one event; it ignores an event of another aggregate type, refuses one
  with an error, or returns the next projection. \<open>reduce_aggregate\<close> is the frame that
  \<open>ReduceRun\<close> and its ten siblings repeat: the schema and ownership tests, the creating event, the
  identity and revision tests, the switch on the kind, and the final stamping of the projection.
  The Go result \<open>(projection, applies, err)\<close> is the datatype \<open>reduction\<close>.

  The locale \<open>projection_reducer\<close> is the contract a reducer keeps towards the event store, and its
  consequences for the replay of a stream of events; each component interprets it on its reducer.
\<close>

datatype reduce_error =
    UnsupportedSchemaVersionError string uint64 \<comment> \<open>event, schema version\<close>
  | InvalidTransitionError string string string string \<comment> \<open>machine, identity, state, event kind\<close>
  | FirstEventError string string \<comment> \<open>aggregate, kind of its first event\<close>
  | AggregateMismatchError string string \<comment> \<open>projection, aggregate of the event\<close>
  | RevisionMismatchError string uint64 uint64 \<comment> \<open>aggregate, its revision, that of the event\<close>
  | DecodeDataError string \<comment> \<open>kind\<close>
  | EventDataError string \<comment> \<open>kind whose data misses a requirement\<close>

datatype 'p reduction = Ignored | Reduced 'p | Failed bool reduce_error

fun of_result :: "reduce_error + 'p \<Rightarrow> 'p reduction" where
  "of_result (Inl e) = Failed True e"
| "of_result (Inr p) = Reduced p"

definition invalidTransition :: "string \<Rightarrow> string \<Rightarrow> string \<Rightarrow> string \<Rightarrow> reduce_error" where
  "invalidTransition machine ident from kind = InvalidTransitionError machine ident from kind"

definition validSourceHash :: "string \<Rightarrow> bool" where
  "validSourceHash s \<longleftrightarrow> digestPattern s"

definition decodeData :: "Event \<Rightarrow> (members \<Rightarrow> 'a option) \<Rightarrow> reduce_error + 'a" where
  "decodeData event destination = (case unmarshal_object (Data event) of
     None \<Rightarrow> Inl (DecodeDataError (Kind event))
   | Some ms \<Rightarrow> (case destination ms of None \<Rightarrow> Inl (DecodeDataError (Kind event)) | Some d \<Rightarrow> Inr d))"

definition validateCurrent :: "string \<Rightarrow> uint64 \<Rightarrow> Event \<Rightarrow> reduce_error + unit" where
  "validateCurrent ident revision event =
    (if ident \<noteq> AggregateID event then Inl (AggregateMismatchError ident (AggregateID event))
     else if AggregateRevision event \<noteq> revision + 1
     then Inl (RevisionMismatchError ident revision (AggregateRevision event))
     else Inr ())"

text \<open>The stamps of a projection that has applied an event.\<close>

definition advance :: "Event \<Rightarrow> 'a projection_scheme \<Rightarrow> 'a projection_scheme" where
  "advance event p = p\<lparr>ResourceVersion := AggregateRevision event,
     LastGlobalPosition := GlobalPosition event, UpdatedAt := RecordedAt event\<rparr>"

definition reduce_aggregate :: "AggregateType \<Rightarrow> (Event \<Rightarrow> reduce_error + 'a projection_scheme) \<Rightarrow>
    ('a projection_scheme \<Rightarrow> Event \<Rightarrow> reduce_error + 'a projection_scheme) \<Rightarrow>
    'a projection_scheme option \<Rightarrow> Event \<Rightarrow> 'a projection_scheme reduction" where
  "reduce_aggregate aggregate create switch current event =
    (if SchemaVersion event \<noteq> 1
     then Failed False (UnsupportedSchemaVersionError (EventID event) (SchemaVersion event))
     else if AggregateType event \<noteq> aggregate then Ignored
     else (case current of
        None \<Rightarrow> of_result (create event)
      | Some p \<Rightarrow> of_result (
          result_bind (validateCurrent (ResourceID p) (ResourceVersion p) event) (\<lambda>_.
          result_bind (switch p event) (\<lambda>next. Inr (advance event next))))))"

section \<open>Issue data\<close>

definition issue_data :: "Event \<Rightarrow> reduce_error + string \<times> string" where
  "issue_data event = decodeData event (\<lambda>ms. do {
     code \<leftarrow> get_string ''code'' ms; message \<leftarrow> get_string ''message'' ms; Some (code, message) })"

definition requireIssueData :: "Event \<Rightarrow> reduce_error + unit" where
  "requireIssueData event = result_bind (issue_data event) (\<lambda>(code, message).
     if blank code \<or> blank message then Inl (EventDataError (Kind event)) else Inr ())"

definition validateOptionalIssueData :: "Event \<Rightarrow> reduce_error + unit" where
  "validateOptionalIssueData event = result_bind (issue_data event) (\<lambda>(code, message).
     if (\<not> blank code) \<noteq> (\<not> blank message) then Inl (EventDataError (Kind event)) else Inr ())"

section \<open>The contract of a reducer\<close>

definition stamped :: "Event \<Rightarrow> 'a projection_scheme \<Rightarrow> bool" where
  "stamped e p \<longleftrightarrow> ResourceID p = AggregateID e \<and> ResourceVersion p = AggregateRevision e \<and>
     LastGlobalPosition p = GlobalPosition e \<and> UpdatedAt p = RecordedAt e"

text \<open>The projection an event stream leads to, for a reducer: events of other aggregate types are
  skipped, the first error ends the replay.\<close>

fun replay :: "('p option \<Rightarrow> Event \<Rightarrow> 'p reduction) \<Rightarrow> 'p option \<Rightarrow> Event list \<Rightarrow> reduce_error + 'p option" where
  "replay reduce current [] = Inr current"
| "replay reduce current (e # es) = (case reduce current e of
     Ignored \<Rightarrow> replay reduce current es
   | Reduced p \<Rightarrow> replay reduce (Some p) es
   | Failed _ err \<Rightarrow> Inl err)"

lemma replay_append:
  "replay r c (es @ fs) = result_bind (replay r c es) (\<lambda>d. replay r d fs)"
  by (induction es arbitrary: c) (auto split: reduction.splits)

locale projection_reducer =
  fixes reduce :: "'a projection_scheme option \<Rightarrow> Event \<Rightarrow> 'a projection_scheme reduction"
    and aggregate :: AggregateType
  assumes unsupported: "SchemaVersion e \<noteq> 1 \<Longrightarrow>
      reduce c e = Failed False (UnsupportedSchemaVersionError (EventID e) (SchemaVersion e))"
    and ignored: "SchemaVersion e = 1 \<Longrightarrow> reduce c e = Ignored \<longleftrightarrow> AggregateType e \<noteq> aggregate"
    and created: "reduce None e = Reduced p \<Longrightarrow> stamped e p \<and> CreatedAt p = RecordedAt e"
    and advanced: "reduce (Some q) e = Reduced p \<Longrightarrow> stamped e p \<and> CreatedAt p = CreatedAt q \<and>
      ResourceID p = ResourceID q \<and> ResourceVersion p = ResourceVersion q + 1"
begin

lemma reduced_owned: "reduce c e = Reduced p \<Longrightarrow> SchemaVersion e = 1 \<and> AggregateType e = aggregate"
  using unsupported [of e c] ignored [of e c] by auto

text \<open>Only the events of its own type matter to the result of a replay.\<close>

lemma replay_filter:
  assumes "\<forall>e \<in> set es. SchemaVersion e = 1"
  shows "replay reduce c es = replay reduce c (filter (\<lambda>e. AggregateType e = aggregate) es)"
  using assms
proof (induction es arbitrary: c)
  case (Cons e es)
  then show ?case using ignored [of e c] by (auto split: reduction.splits)
qed simp

text \<open>A replay that succeeds on owned events has met consecutive revisions of one aggregate, and the
  projection carries the stamps of the last event.\<close>

lemma replay_from:
  assumes "replay reduce (Some q) es = Inr (Some p)"
    and "\<forall>e \<in> set es. AggregateType e = aggregate"
  shows "ResourceID p = ResourceID q \<and> CreatedAt p = CreatedAt q \<and>
    ResourceVersion p = ResourceVersion q + of_nat (length es) \<and>
    (\<forall>i < length es. AggregateID (es ! i) = ResourceID q \<and>
       AggregateRevision (es ! i) = ResourceVersion q + of_nat (Suc i)) \<and>
    (es \<noteq> [] \<longrightarrow> stamped (last es) p)"
  using assms
proof (induction es arbitrary: q)
  case (Cons e es)
  from Cons.prems obtain q' where q': "reduce (Some q) e = Reduced q'"
    and rest: "replay reduce (Some q') es = Inr (Some p)"
    using unsupported [of e "Some q"] ignored [of e "Some q"]
    by (auto split: reduction.splits)
  note step = advanced [OF q']
  have tail: "ResourceID p = ResourceID q' \<and> CreatedAt p = CreatedAt q' \<and>
    ResourceVersion p = ResourceVersion q' + of_nat (length es) \<and>
    (\<forall>i < length es. AggregateID (es ! i) = ResourceID q' \<and>
       AggregateRevision (es ! i) = ResourceVersion q' + of_nat (Suc i)) \<and>
    (es \<noteq> [] \<longrightarrow> stamped (last es) p)"
    using Cons.IH [OF rest] Cons.prems(2) by simp
  have "AggregateID ((e # es) ! i) = ResourceID q \<and>
      AggregateRevision ((e # es) ! i) = ResourceVersion q + of_nat (Suc i)" if "i < length (e # es)" for i
    using that tail step by (cases i) (auto simp: stamped_def)
  with tail step rest show ?case by auto
qed simp

text \<open>A quantity that grows by one on the events of a given kind, and only on them, counts them.\<close>

lemma replay_count:
  assumes step: "\<And>q e p. I q \<Longrightarrow> reduce (Some q) e = Reduced p \<Longrightarrow>
      I p \<and> m p = m q + (if Kind e = k then 1 else 0 :: nat)"
    and "replay reduce (Some q) es = Inr (Some p)" and "I q"
    and "\<forall>e \<in> set es. AggregateType e = aggregate"
  shows "I p \<and> m p = m q + length (filter (\<lambda>e. Kind e = k) es)"
  using assms(2-)
proof (induction es arbitrary: q)
  case (Cons e es)
  from Cons.prems obtain q' where q': "reduce (Some q) e = Reduced q'"
    and rest: "replay reduce (Some q') es = Inr (Some p)"
    using unsupported [of e "Some q"] ignored [of e "Some q"] by (auto split: reduction.splits)
  from step [OF Cons.prems(2) q'] Cons.IH [OF rest] Cons.prems(3) show ?case by auto
qed simp

lemma replay_first:
  assumes "replay reduce None es = Inr (Some p)" and "\<forall>e \<in> set es. AggregateType e = aggregate"
  obtains e fs q where "es = e # fs" and "reduce None e = Reduced q"
    and "replay reduce (Some q) fs = Inr (Some p)"
proof (cases es)
  case Nil
  with assms(1) show ?thesis by simp
next
  case (Cons e fs)
  with assms that show ?thesis
    using unsupported [of e None] ignored [of e None] by (auto split: reduction.splits)
qed

lemma replay_stream:
  assumes r: "replay reduce None (e # es) = Inr (Some p)"
    and own: "\<forall>f \<in> set (e # es). AggregateType f = aggregate"
  shows "ResourceID p = AggregateID e \<and> CreatedAt p = RecordedAt e \<and>
    ResourceVersion p = AggregateRevision e + of_nat (length es) \<and>
    (\<forall>i < length (e # es). AggregateID ((e # es) ! i) = AggregateID e \<and>
       AggregateRevision ((e # es) ! i) = AggregateRevision e + of_nat i) \<and>
    stamped (last (e # es)) p"
proof -
  from r own obtain q where q: "reduce None e = Reduced q"
    and rest: "replay reduce (Some q) es = Inr (Some p)"
    using unsupported [of e None] ignored [of e None]
    by (auto split: reduction.splits)
  note first = created [OF q]
  note tail = replay_from [OF rest]
  have "AggregateID ((e # es) ! i) = AggregateID e \<and>
      AggregateRevision ((e # es) ! i) = AggregateRevision e + of_nat i" if "i < length (e # es)" for i
    using that tail first own by (cases i) (auto simp: stamped_def)
  with tail first own rest show ?thesis by (auto simp: stamped_def)
qed

end

text \<open>The frame keeps the contract when the creating event stamps the projection and the switch on
  the kind touches neither the identity nor the creation time.\<close>

lemma reduce_aggregate_contract:
  assumes "\<And>e p. create e = Inr p \<Longrightarrow> stamped e p \<and> CreatedAt p = RecordedAt e"
    and "\<And>q e p. switch q e = Inr p \<Longrightarrow> ResourceID p = ResourceID q \<and> CreatedAt p = CreatedAt q"
  shows "projection_reducer (reduce_aggregate aggregate create switch) aggregate"
proof
  have fin: "of_result r = Reduced p \<longleftrightarrow> r = Inr p" and "of_result r \<noteq> Ignored" for r and p :: "'a projection_scheme"
    by (cases r; auto)+
  note [simp] = this
  show "SchemaVersion e = 1 \<Longrightarrow>
      reduce_aggregate aggregate create switch c e = Ignored \<longleftrightarrow> AggregateType e \<noteq> aggregate" for c e
    by (simp add: reduce_aggregate_def split: option.split)
  show "reduce_aggregate aggregate create switch None e = Reduced p \<Longrightarrow>
      stamped e p \<and> CreatedAt p = RecordedAt e" for e p
    using assms(1) by (auto simp: reduce_aggregate_def split: if_splits)
  show "reduce_aggregate aggregate create switch (Some q) e = Reduced p \<Longrightarrow>
      stamped e p \<and> CreatedAt p = CreatedAt q \<and> ResourceID p = ResourceID q \<and>
      ResourceVersion p = ResourceVersion q + 1" for q e p
    using assms(2) [of q e]
    by (auto simp: reduce_aggregate_def validateCurrent_def stamped_def advance_def split: if_splits)
qed (simp add: reduce_aggregate_def)

text \<open>The event that follows a projection, with a given kind and given data.\<close>

definition next_event :: "AggregateType \<Rightarrow> 'a projection_scheme \<Rightarrow> string \<Rightarrow> raw_message \<Rightarrow> Event" where
  "next_event aggregate p kind d = \<lparr>SchemaVersion = 1, EventID = [], AggregateType = aggregate,
     AggregateID = ResourceID p, Kind = kind, OccurredAt = 0, CorrelationID = [], CausationID = None,
     CommandID = [], event_actor = \<lparr>ActorType = ActorUser, ActorID = []\<rparr>, Data = d, Metadata = [],
     GlobalPosition = 0, AggregateRevision = ResourceVersion p + 1, RecordedAt = 0\<rparr>"

lemma next_event_simps [simp]:
  "Kind (next_event agg p k d) = k" "Data (next_event agg p k d) = d"
  "CorrelationID (next_event agg p k d) = []"
  by (simp_all add: next_event_def)

lemma reduce_next_event:
  "reduce_aggregate agg create switch (Some p) (next_event agg p k d) =
     of_result (result_bind (switch p (next_event agg p k d))
       (\<lambda>q. Inr (advance (next_event agg p k d) q)))"
  by (simp add: reduce_aggregate_def validateCurrent_def next_event_def)

lemma reduced_switch:
  assumes "reduce_aggregate agg create switch (Some p) e = Reduced q"
  obtains p' where "switch p e = Inr p'" and "q = advance e p'"
  using assms
  by (cases "result_bind (validateCurrent (ResourceID p) (ResourceVersion p) e)
      (\<lambda>_. result_bind (switch p e) (\<lambda>next. Inr (advance e next)))")
    (auto simp: reduce_aggregate_def split: if_splits)

lemma reduced_create:
  assumes "reduce_aggregate agg create switch None e = Reduced q"
  shows "create e = Inr q"
  using assms by (cases "create e") (auto simp: reduce_aggregate_def split: if_splits)

text \<open>The frame keeps an invariant that the creating event establishes, the switch preserves, and the
  stamps do not touch.\<close>

lemma reduce_aggregate_invariant:
  assumes "\<And>e p. create e = Inr p \<Longrightarrow> I p"
    and "\<And>q e p. I q \<Longrightarrow> switch q e = Inr p \<Longrightarrow> I p"
    and "\<And>e p. I (advance e p) \<longleftrightarrow> I p"
    and "reduce_aggregate agg create switch c e = Reduced p" and "\<And>q. c = Some q \<Longrightarrow> I q"
  shows "I p"
proof (cases c)
  case None
  with assms(4) reduced_create assms(1) show ?thesis by blast
next
  case (Some q)
  with assms(4) obtain p' where "switch q e = Inr p'" and "p = advance e p'"
    by (auto elim: reduced_switch)
  with assms(2,3,5) Some show ?thesis by blast
qed

lemma replay_invariant:
  assumes step: "\<And>c e p. (\<And>q. c = Some q \<Longrightarrow> I q) \<Longrightarrow> reduce c e = Reduced p \<Longrightarrow> I p"
  shows "replay reduce c es = Inr (Some p) \<Longrightarrow> (\<And>q. c = Some q \<Longrightarrow> I q) \<Longrightarrow> I p"
proof (induction es arbitrary: c)
  case (Cons e es)
  show ?case
  proof (cases "reduce c e")
    case (Reduced q)
    then have "I q" using step Cons.prems(2) by blast
    with Cons Reduced show ?thesis by auto
  qed (use Cons in auto)
qed simp

end
