(* ===== verification/Coordination.thy ===== *)
theory Coordination
  imports Reducer "HOL-Library.Product_Lexorder"
begin

text \<open>
  Leases, fencing tokens and scheduling queues:
  \<open>src/runtime/src/adapters/statestore/sqlite/coordination.go\<close>. The state is the content of the
  tables \<open>lease_scopes\<close>, \<open>leases\<close> and \<open>queue_entries\<close>; every operation is one transaction, from the
  state and the reading of the clock to an error or the result and the next state. The constraints
  of the three tables (migration \<open>0004\<close>) are part of the inserting operations.

  The locale \<open>guarded_transition\<close> is the contract of the functions that \<open>transitionGuardedLease\<close> and
  the heartbeat apply to a lease, interpreted on all four; \<open>lease_exclusive\<close> and its corollaries
  show that a scope has one owner at a time and that tokens never go back.
\<close>

section \<open>Stored JSON and times\<close>

text \<open>\<open>json.Compact\<close> drops white space outside strings.\<close>

fun json_compact :: "bool \<Rightarrow> string \<Rightarrow> string" where
  "json_compact quoted [] = []"
| "json_compact False (c # cs) = (if is_ws c then json_compact False cs else c # json_compact (c = CHR 0x22) cs)"
| "json_compact True (c # cs) = (if c = CHR 0x5C then (case cs of [] \<Rightarrow> [c] | d # ds \<Rightarrow> c # d # json_compact True ds)
     else c # json_compact (c \<noteq> CHR 0x22) cs)"

definition requiredJSONObject :: "raw_message \<Rightarrow> raw_message option" where
  "requiredJSONObject v = (case json_parse v of Some (JObject _) \<Rightarrow> Some (json_compact False v) | _ \<Rightarrow> None)"

definition nullableJSONObject :: "raw_message \<Rightarrow> raw_message option" where
  "nullableJSONObject v = (if v = [] then Some [] else requiredJSONObject v)"

text \<open>SQLite compares stored times as text. \<open>formatTime\<close> writes RFC 3339 with the trailing zeros of
  the fraction, and an empty fraction altogether, removed. Up to the seconds the text has a fixed
  width (in the years 0 to 9999) and orders like the number of seconds; the rest is
  \<open>fraction_text\<close>, compared byte by byte.\<close>

fun strip_zeros :: "string \<Rightarrow> string" where
  "strip_zeros [] = []"
| "strip_zeros (c # cs) = (if c = CHR ''0'' then strip_zeros cs else c # cs)"

definition fraction_text :: "nat \<Rightarrow> string" where
  "fraction_text n = (if n = 0 then ''Z'' else
     (let digits = decimal n in
      ''.'' @ rev (strip_zeros (rev (replicate (9 - length digits) (CHR ''0'') @ digits))) @ ''Z''))"

definition formatTime :: "timestamp \<Rightarrow> int \<times> string" where
  "formatTime t = (t div 1000000000, fraction_text (nat (t mod 1000000000)))"

section \<open>State\<close>

type_synonym lease_scope = "LeaseScopeKind \<times> string"

record coordination =
  lease_scopes :: "(lease_scope \<times> uint64) list"
  leases :: "Lease gomap"
  queue_entries :: "QueueEntry list"

definition empty_coordination :: coordination where
  "empty_coordination = \<lparr>lease_scopes = [], leases = [], queue_entries = []\<rparr>"

datatype coordination_error =
    RequestInvalid string
  | FencingConflictError lease_scope uint64 uint64 \<comment> \<open>expected, actual\<close>
  | LeaseHeldError lease_scope string LeaseState timestamp \<comment> \<open>its owner and when that expires\<close>
  | LeaseGuardConflictError string
  | LeaseExpiredError string timestamp
  | LeaseStateError string LeaseState
  | LeaseEvidenceError string
  | ClockRegressed string
  | QueueConflictError QueueKind string string
  | QueueHeadError string string string \<comment> \<open>scope, wanted, actual\<close>
  | CoordinationNotFound string string
  | LeaseConstraintFailed string

definition lease_scope_of :: "Lease \<Rightarrow> lease_scope" where
  "lease_scope_of l = (lease_ScopeKind l, lease_ScopeID l)"

definition request_scope :: "AcquireLeaseRequest \<Rightarrow> lease_scope" where
  "request_scope r = (acquire_ScopeKind r, acquire_ScopeID r)"

section \<open>Validation\<close>

definition normalizeLeaseDuration :: "int \<Rightarrow> int" where
  "normalizeLeaseDuration duration = (if duration = 0 then DefaultLeaseDuration else duration)"

definition validateLeaseDuration :: "int \<Rightarrow> coordination_error + unit" where
  "validateLeaseDuration duration =
     require (duration \<ge> MaximumHeartbeatInterval) (RequestInvalid ''lease duration'')"

definition validateAcquireLeaseRequest :: "AcquireLeaseRequest \<Rightarrow> coordination_error + unit" where
  "validateAcquireLeaseRequest r =
    (if acquire_LeaseID r = [] \<or> acquire_ScopeID r = [] \<or> acquire_HolderAttemptID r = [] \<or>
        acquire_DaemonInstanceID r = [] \<or> acquire_HostBootID r = []
     then Inl (RequestInvalid ''lease identities'')
     else if acquire_ScopeKind r \<notin> {LeaseScopeAttempt, LeaseScopeRepository, LeaseScopeWorktree}
     then Inl (RequestInvalid ''lease scope kind'')
     else result_bind (validateLeaseDuration (normalizeLeaseDuration (Duration r))) (\<lambda>_.
       require (nullableJSONObject (acquire_ProcessIdentity r) \<noteq> None) (RequestInvalid ''process identity'')))"

definition validateLeaseGuard :: "LeaseGuard \<Rightarrow> coordination_error + unit" where
  "validateLeaseGuard g = require (guard_LeaseID g \<noteq> [] \<and> guard_HolderAttemptID g \<noteq> [] \<and>
     guard_DaemonInstanceID g \<noteq> [] \<and> guard_FencingToken g \<noteq> 0) (RequestInvalid ''lease guard'')"

definition validateQueueCoordinates :: "QueueKind \<Rightarrow> string \<Rightarrow> string \<Rightarrow> coordination_error + unit" where
  "validateQueueCoordinates kind scope item =
    (if kind \<notin> {QueueAttempt, QueueRepositoryWrite} then Inl (RequestInvalid ''queue kind'')
     else require (scope \<noteq> [] \<and> item \<noteq> []) (RequestInvalid ''queue coordinates''))"

definition validateEnqueueRequest :: "EnqueueRequest \<Rightarrow> coordination_error + raw_message" where
  "validateEnqueueRequest r =
    result_bind (validateQueueCoordinates (enqueue_Kind r) (enqueue_ScopeID r) (enqueue_ItemID r)) (\<lambda>_.
    if enqueue_Priority r < 0 then Inl (RequestInvalid ''queue priority'')
    else if IsZero (enqueue_AvailableAt r) then Inl (RequestInvalid ''queue availability'')
    else (case requiredJSONObject (enqueue_Payload r) of
        None \<Rightarrow> Inl (RequestInvalid ''queue payload'') | Some payload \<Rightarrow> Inr payload))"

section \<open>Acquiring leases\<close>

definition leaseMatchesRequest :: "Lease \<Rightarrow> AcquireLeaseRequest \<Rightarrow> bool" where
  "leaseMatchesRequest l r = (case nullableJSONObject (acquire_ProcessIdentity r) of
     None \<Rightarrow> False
   | Some identity \<Rightarrow> lease_scope_of l = request_scope r \<and>
       HolderAttemptID l = acquire_HolderAttemptID r \<and> DaemonInstanceID l = acquire_DaemonInstanceID r \<and>
       HostBootID l = acquire_HostBootID r \<and> FencingToken l = ExpectedFencingToken r + 1 \<and>
       ExpiresAt l - AcquiredAt l = normalizeLeaseDuration (Duration r) \<and> ProcessIdentity l = identity)"

definition readActiveLease :: "coordination \<Rightarrow> lease_scope \<Rightarrow> Lease option" where
  "readActiveLease s scope =
     map_option snd (find (\<lambda>(_, l). lease_scope_of l = scope \<and> lease_State l \<noteq> LeaseReleased) (leases s))"

definition last_token :: "coordination \<Rightarrow> lease_scope \<Rightarrow> uint64" where
  "last_token s scope = (case map_of (lease_scopes s) scope of None \<Rightarrow> 0 | Some token \<Rightarrow> token)"

definition insert_lease :: "coordination \<Rightarrow> Lease \<Rightarrow> coordination_error + coordination" where
  "insert_lease s l =
    (if FencingToken l = 0 \<or> has_key (leases s) (LeaseID l) \<or>
        list_ex (\<lambda>(_, m). lease_scope_of m = lease_scope_of l \<and>
          (FencingToken m = FencingToken l \<or> lease_State m \<noteq> LeaseReleased)) (leases s)
     then Inl (LeaseConstraintFailed (LeaseID l))
     else Inr (s\<lparr>leases := map_put (LeaseID l) l (leases s)\<rparr>))"

definition acquireLeaseTx :: "coordination \<Rightarrow> AcquireLeaseRequest \<Rightarrow> timestamp \<Rightarrow>
    coordination_error + Lease \<times> coordination" where
  "acquireLeaseTx s r now = (case map_of (leases s) (acquire_LeaseID r) of
     Some existing \<Rightarrow> if leaseMatchesRequest existing r then Inr (existing, s)
       else Inl (LeaseGuardConflictError (acquire_LeaseID r))
   | None \<Rightarrow>
       let scope = request_scope r; actual = last_token s scope in
       if actual \<noteq> ExpectedFencingToken r
       then Inl (FencingConflictError scope (ExpectedFencingToken r) actual)
       else (case readActiveLease s scope of
         Some active \<Rightarrow> Inl (LeaseHeldError scope (LeaseID active) (lease_State active) (ExpiresAt active))
       | None \<Rightarrow> (case nullableJSONObject (acquire_ProcessIdentity r) of
           None \<Rightarrow> Inl (RequestInvalid ''process identity'')
         | Some identity \<Rightarrow>
             let token = actual + 1;
                 l = \<lparr>LeaseID = acquire_LeaseID r, lease_ScopeKind = acquire_ScopeKind r,
                   lease_ScopeID = acquire_ScopeID r, HolderAttemptID = acquire_HolderAttemptID r,
                   DaemonInstanceID = acquire_DaemonInstanceID r, FencingToken = token,
                   AcquiredAt = now, HeartbeatAt = now,
                   ExpiresAt = now + normalizeLeaseDuration (Duration r), HostBootID = acquire_HostBootID r,
                   ProcessIdentity = identity, lease_State = LeaseHeld, lease_Evidence = [],
                   ReleasedAt = None\<rparr> in
             result_bind (insert_lease s l) (\<lambda>s.
             Inr (l, s\<lparr>lease_scopes := map_put scope token (lease_scopes s)\<rparr>)))))"

definition AcquireLease :: "coordination \<Rightarrow> AcquireLeaseRequest \<Rightarrow> timestamp \<Rightarrow>
    coordination_error + Lease \<times> coordination" where
  "AcquireLease s r now = result_bind (validateAcquireLeaseRequest r) (\<lambda>_. acquireLeaseTx s r now)"

section \<open>Guarded transitions\<close>

definition readGuardedLease :: "coordination \<Rightarrow> LeaseGuard \<Rightarrow> coordination_error + Lease" where
  "readGuardedLease s g = (case map_of (leases s) (guard_LeaseID g) of
     None \<Rightarrow> Inl (CoordinationNotFound ''lease'' (guard_LeaseID g))
   | Some l \<Rightarrow> if HolderAttemptID l \<noteq> guard_HolderAttemptID g \<or> DaemonInstanceID l \<noteq> guard_DaemonInstanceID g \<or>
         FencingToken l \<noteq> guard_FencingToken g
       then Inl (LeaseGuardConflictError (guard_LeaseID g)) else Inr l)"

definition transitionGuardedLease :: "(Lease \<Rightarrow> timestamp \<Rightarrow> coordination_error + Lease) \<Rightarrow>
    coordination \<Rightarrow> LeaseGuard \<Rightarrow> timestamp \<Rightarrow> coordination_error + Lease \<times> coordination" where
  "transitionGuardedLease transition s g now =
    result_bind (validateLeaseGuard g) (\<lambda>_.
    result_bind (readGuardedLease s g) (\<lambda>l.
    result_bind (transition l now) (\<lambda>l'.
    Inr (l', s\<lparr>leases := map_put (guard_LeaseID g) l' (leases s)\<rparr>))))"

definition beat :: "int \<Rightarrow> Lease \<Rightarrow> timestamp \<Rightarrow> coordination_error + Lease" where
  "beat duration l now =
    (if lease_State l \<noteq> LeaseHeld then Inl (LeaseStateError (LeaseID l) (lease_State l))
     else if now < HeartbeatAt l then Inl (ClockRegressed (LeaseID l))
     else if now > ExpiresAt l then Inl (LeaseExpiredError (LeaseID l) (ExpiresAt l))
     else Inr (l\<lparr>HeartbeatAt := now, ExpiresAt := now + duration\<rparr>))"

definition HeartbeatLease :: "coordination \<Rightarrow> LeaseGuard \<Rightarrow> int \<Rightarrow> timestamp \<Rightarrow>
    coordination_error + Lease \<times> coordination" where
  "HeartbeatLease s g duration now =
    result_bind (validateLeaseGuard g) (\<lambda>_. result_bind (validateLeaseDuration duration) (\<lambda>_.
    transitionGuardedLease (beat duration) s g now))"

definition begin_release :: "Lease \<Rightarrow> timestamp \<Rightarrow> coordination_error + Lease" where
  "begin_release l now =
    (if lease_State l = LeaseReleasing then Inr l
     else if lease_State l \<noteq> LeaseHeld then Inl (LeaseStateError (LeaseID l) (lease_State l))
     else Inr (l\<lparr>lease_State := LeaseReleasing\<rparr>))"

definition BeginLeaseRelease :: "coordination \<Rightarrow> LeaseGuard \<Rightarrow> timestamp \<Rightarrow>
    coordination_error + Lease \<times> coordination" where
  "BeginLeaseRelease = transitionGuardedLease begin_release"

definition complete_release :: "raw_message \<Rightarrow> Lease \<Rightarrow> timestamp \<Rightarrow> coordination_error + Lease" where
  "complete_release evidence l now =
    (if lease_State l = LeaseReleased
     then (if lease_Evidence l = evidence then Inr l else Inl (LeaseEvidenceError (LeaseID l)))
     else if lease_State l \<noteq> LeaseReleasing \<and> lease_State l \<noteq> LeaseReconcileRequired
     then Inl (LeaseStateError (LeaseID l) (lease_State l))
     else Inr (l\<lparr>lease_State := LeaseReleased, lease_Evidence := evidence, ReleasedAt := Some now\<rparr>))"

definition CompleteLeaseRelease :: "coordination \<Rightarrow> LeaseGuard \<Rightarrow> raw_message \<Rightarrow> timestamp \<Rightarrow>
    coordination_error + Lease \<times> coordination" where
  "CompleteLeaseRelease s g evidence now = (case requiredJSONObject evidence of
     None \<Rightarrow> Inl (RequestInvalid ''release evidence'')
   | Some normalized \<Rightarrow> transitionGuardedLease (complete_release normalized) s g now)"

definition require_reconciliation :: "raw_message \<Rightarrow> Lease \<Rightarrow> timestamp \<Rightarrow> coordination_error + Lease" where
  "require_reconciliation evidence l now =
    (if lease_State l = LeaseReconcileRequired
     then (if lease_Evidence l = evidence then Inr l else Inl (LeaseEvidenceError (LeaseID l)))
     else if lease_State l \<noteq> LeaseHeld \<and> lease_State l \<noteq> LeaseReleasing
     then Inl (LeaseStateError (LeaseID l) (lease_State l))
     else Inr (l\<lparr>lease_State := LeaseReconcileRequired, lease_Evidence := evidence\<rparr>))"

definition MarkLeaseReconcileRequired :: "coordination \<Rightarrow> LeaseGuard \<Rightarrow> raw_message \<Rightarrow> timestamp \<Rightarrow>
    coordination_error + Lease \<times> coordination" where
  "MarkLeaseReconcileRequired s g evidence now = (case requiredJSONObject evidence of
     None \<Rightarrow> Inl (RequestInvalid ''reconciliation evidence'')
   | Some normalized \<Rightarrow> transitionGuardedLease (require_reconciliation normalized) s g now)"

definition ValidateLease :: "coordination \<Rightarrow> lease_scope \<Rightarrow> LeaseGuard \<Rightarrow> timestamp \<Rightarrow>
    coordination_error + Lease" where
  "ValidateLease s scope g now =
    result_bind (validateLeaseGuard g) (\<lambda>_.
    result_bind (readGuardedLease s g) (\<lambda>l.
    if lease_scope_of l \<noteq> scope then Inl (LeaseGuardConflictError (guard_LeaseID g))
    else if lease_State l \<noteq> LeaseHeld then Inl (LeaseStateError (LeaseID l) (lease_State l))
    else if now > ExpiresAt l then Inl (LeaseExpiredError (LeaseID l) (ExpiresAt l))
    else Inr l))"

section \<open>Queues\<close>

definition queue_key :: "QueueEntry \<Rightarrow> QueueKind \<times> string \<times> string" where
  "queue_key e = (queue_Kind e, queue_ScopeID e, queue_ItemID e)"

definition Enqueue :: "coordination \<Rightarrow> EnqueueRequest \<Rightarrow> timestamp \<Rightarrow>
    coordination_error + QueueEntry \<times> coordination" where
  "Enqueue s r now = result_bind (validateEnqueueRequest r) (\<lambda>normalized.
     let new = \<lparr>queue_Kind = enqueue_Kind r, queue_ScopeID = enqueue_ScopeID r,
           queue_ItemID = enqueue_ItemID r, queue_Priority = enqueue_Priority r,
           AvailableAt = enqueue_AvailableAt r, EnqueuedAt = now, queue_Payload = normalized\<rparr> in
     case find (\<lambda>e. queue_key e = queue_key new) (queue_entries s) of
       None \<Rightarrow> Inr (new, s\<lparr>queue_entries := queue_entries s @ [new]\<rparr>)
     | Some e \<Rightarrow> if queue_Priority e \<noteq> enqueue_Priority r \<or> AvailableAt e \<noteq> enqueue_AvailableAt r \<or>
           queue_Payload e \<noteq> normalized
         then Inl (QueueConflictError (enqueue_Kind r) (enqueue_ScopeID r) (enqueue_ItemID r))
         else Inr (e, s))"

definition queue_order :: "QueueEntry \<Rightarrow> int \<times> (int \<times> string) \<times> string" where
  "queue_order e = (- queue_Priority e, formatTime (EnqueuedAt e), queue_ItemID e)"

definition available_entries :: "coordination \<Rightarrow> QueueKind \<Rightarrow> string \<Rightarrow> timestamp \<Rightarrow> QueueEntry list" where
  "available_entries s kind scope now = filter (\<lambda>e. queue_Kind e = kind \<and> queue_ScopeID e = scope \<and>
     formatTime (AvailableAt e) \<le> formatTime now) (queue_entries s)"

definition select_head :: "coordination \<Rightarrow> QueueKind \<Rightarrow> string \<Rightarrow> timestamp \<Rightarrow> QueueEntry option" where
  "select_head s kind scope now = (case sort_key queue_order (available_entries s kind scope now) of
     [] \<Rightarrow> None | e # _ \<Rightarrow> Some e)"

definition QueueHead :: "coordination \<Rightarrow> QueueKind \<Rightarrow> string \<Rightarrow> timestamp \<Rightarrow> coordination_error + QueueEntry" where
  "QueueHead s kind scope now = result_bind (validateQueueCoordinates kind scope ''head'') (\<lambda>_.
     case select_head s kind scope now of
       None \<Rightarrow> Inl (CoordinationNotFound ''queue head'' scope) | Some e \<Rightarrow> Inr e)"

definition delete_entry :: "coordination \<Rightarrow> QueueKind \<Rightarrow> string \<Rightarrow> string \<Rightarrow> coordination" where
  "delete_entry s kind scope item =
     s\<lparr>queue_entries := filter (\<lambda>e. queue_key e \<noteq> (kind, scope, item)) (queue_entries s)\<rparr>"

definition RemoveQueueEntry :: "coordination \<Rightarrow> QueueKind \<Rightarrow> string \<Rightarrow> string \<Rightarrow> coordination_error + coordination" where
  "RemoveQueueEntry s kind scope item = result_bind (validateQueueCoordinates kind scope item) (\<lambda>_.
     Inr (delete_entry s kind scope item))"

definition AcquireRepositoryLock :: "coordination \<Rightarrow> string \<Rightarrow> AcquireLeaseRequest \<Rightarrow> timestamp \<Rightarrow>
    coordination_error + Lease \<times> coordination" where
  "AcquireRepositoryLock s item r now =
    (if acquire_ScopeKind r \<noteq> LeaseScopeRepository then Inl (RequestInvalid ''repository scope'')
     else result_bind (validateAcquireLeaseRequest r) (\<lambda>_.
       if item = [] then Inl (RequestInvalid ''queue item'')
       else (case map_of (leases s) (acquire_LeaseID r) of
          Some existing \<Rightarrow> if leaseMatchesRequest existing r then Inr (existing, s)
            else Inl (LeaseGuardConflictError (acquire_LeaseID r))
        | None \<Rightarrow> (case select_head s QueueRepositoryWrite (acquire_ScopeID r) now of
            None \<Rightarrow> Inl (CoordinationNotFound ''repository queue head'' (acquire_ScopeID r))
          | Some head \<Rightarrow>
              if queue_ItemID head \<noteq> item
              then Inl (QueueHeadError (acquire_ScopeID r) item (queue_ItemID head))
              else result_bind (acquireLeaseTx s r now) (\<lambda>(l, s).
                Inr (l, delete_entry s QueueRepositoryWrite (acquire_ScopeID r) item))))))"

section \<open>Recovery of leases\<close>

text \<open>The decisions of startup recovery (\<open>core/recovery\<close>) and what they do to a lease
  (\<open>applyLeaseRecovery\<close> of \<open>recovery.go\<close>): the row is changed only if its state is still the
  observed one.\<close>

datatype Outcome = OutcomeAdopt | OutcomeResume | OutcomeRetry | OutcomeInterrupt
  | OutcomeReconcileRequired | OutcomeUnknown string

fun lease_state_string :: "LeaseState \<Rightarrow> string" where
  "lease_state_string LeaseHeld = ''held''"
| "lease_state_string LeaseReleasing = ''releasing''"
| "lease_state_string LeaseReleased = ''released''"
| "lease_state_string LeaseReconcileRequired = ''reconcile_required''"

definition recovery_duration :: int where "recovery_duration = 30000000000"

definition recover_lease :: "string \<Rightarrow> string \<Rightarrow> Outcome \<Rightarrow> raw_message \<Rightarrow> Lease \<Rightarrow> timestamp \<Rightarrow>
    coordination_error + Lease" where
  "recover_lease startup observed outcome evidence l now =
    (if observed \<noteq> ''held'' \<and> observed \<noteq> ''releasing'' then Inl (LeaseStateError (LeaseID l) (lease_State l))
     else if outcome = OutcomeResume \<and> observed \<noteq> ''held'' then Inl (LeaseStateError (LeaseID l) (lease_State l))
     else if lease_state_string (lease_State l) \<noteq> observed then Inl (LeaseStateError (LeaseID l) (lease_State l))
     else (case outcome of
        OutcomeResume \<Rightarrow> Inr (l\<lparr>DaemonInstanceID := startup, HeartbeatAt := now,
          ExpiresAt := now + recovery_duration\<rparr>)
      | OutcomeRetry \<Rightarrow> Inr (l\<lparr>lease_State := LeaseReleased, lease_Evidence := evidence, ReleasedAt := Some now\<rparr>)
      | OutcomeInterrupt \<Rightarrow> Inr (l\<lparr>lease_State := LeaseReleased, lease_Evidence := evidence, ReleasedAt := Some now\<rparr>)
      | OutcomeReconcileRequired \<Rightarrow> Inr (l\<lparr>lease_State := LeaseReconcileRequired, lease_Evidence := evidence\<rparr>)
      | _ \<Rightarrow> Inl (LeaseStateError (LeaseID l) (lease_State l))))"

definition applyLeaseRecovery :: "coordination \<Rightarrow> string \<Rightarrow> string \<Rightarrow> string \<Rightarrow> Outcome \<Rightarrow> raw_message \<Rightarrow>
    timestamp \<Rightarrow> coordination_error + coordination" where
  "applyLeaseRecovery s startup i observed outcome evidence now = (case map_of (leases s) i of
     None \<Rightarrow> Inl (CoordinationNotFound ''lease'' i)
   | Some l \<Rightarrow> result_bind (recover_lease startup observed outcome evidence l now) (\<lambda>l'.
       Inr (s\<lparr>leases := map_put i l' (leases s)\<rparr>)))"

section \<open>The invariant\<close>

definition coordination_ok :: "coordination \<Rightarrow> bool" where
  "coordination_ok s \<longleftrightarrow> wf_map (leases s) \<and>
     (\<forall>i l. map_of (leases s) i = Some l \<longrightarrow> LeaseID l = i \<and> FencingToken l \<noteq> 0 \<and>
        FencingToken l \<le> last_token s (lease_scope_of l) \<and>
        (lease_State l \<noteq> LeaseReleased \<longrightarrow> FencingToken l = last_token s (lease_scope_of l))) \<and>
     (\<forall>i j l m. map_of (leases s) i = Some l \<longrightarrow> map_of (leases s) j = Some m \<longrightarrow>
        lease_scope_of l = lease_scope_of m \<longrightarrow> FencingToken l = FencingToken m \<longrightarrow> i = j)"

lemma coordination_okD:
  assumes "coordination_ok s" and "map_of (leases s) i = Some l"
  shows "LeaseID l = i" "FencingToken l \<noteq> 0" "FencingToken l \<le> last_token s (lease_scope_of l)"
    "lease_State l \<noteq> LeaseReleased \<Longrightarrow> FencingToken l = last_token s (lease_scope_of l)"
  using assms by (auto simp: coordination_ok_def)

lemma coordination_ok_unique:
  "coordination_ok s \<Longrightarrow> map_of (leases s) i = Some l \<Longrightarrow> map_of (leases s) j = Some m \<Longrightarrow>
     lease_scope_of l = lease_scope_of m \<Longrightarrow> FencingToken l = FencingToken m \<Longrightarrow> i = j"
  by (auto simp: coordination_ok_def)

lemma word_next_greater: "w + 1 \<noteq> 0 \<Longrightarrow> w < (w + 1 :: uint64)"
  using word_less_nat_alt unatSuc [of w] by (simp add: add.commute word_less_nat_alt)

lemma insert_lease_Inr:
  assumes "insert_lease s l = Inr s'"
  shows "s' = s\<lparr>leases := map_put (LeaseID l) l (leases s)\<rparr>" "FencingToken l \<noteq> 0"
    "map_of (leases s) (LeaseID l) = None"
    "\<And>i m. map_of (leases s) i = Some m \<Longrightarrow> lease_scope_of m = lease_scope_of l \<Longrightarrow>
       FencingToken m \<noteq> FencingToken l \<and> lease_State m = LeaseReleased"
proof -
  from assms have none: "\<not> has_key (leases s) (LeaseID l)"
    and all: "\<forall>(i, m) \<in> set (leases s). lease_scope_of m = lease_scope_of l \<longrightarrow>
        FencingToken m \<noteq> FencingToken l \<and> lease_State m = LeaseReleased"
    by (auto simp: insert_lease_def list_ex_iff split: if_splits)
  show "s' = s\<lparr>leases := map_put (LeaseID l) l (leases s)\<rparr>" "FencingToken l \<noteq> 0"
    using assms by (auto simp: insert_lease_def split: if_splits)
  show "map_of (leases s) (LeaseID l) = None" using none by (simp add: has_key_map_of)
  show "FencingToken m \<noteq> FencingToken l \<and> lease_State m = LeaseReleased"
    if "map_of (leases s) i = Some m" "lease_scope_of m = lease_scope_of l" for i m
    using all map_of_SomeD [OF that(1)] that(2) by auto
qed

text \<open>What a granted request has done: nothing for a known lease, and otherwise one new held lease
  with the next token of its scope, whose other leases are all released.\<close>

definition granted :: "coordination \<Rightarrow> Lease \<Rightarrow> coordination \<Rightarrow> bool" where
  "granted s l s' \<longleftrightarrow> map_of (leases s) (LeaseID l) = None \<and> lease_State l = LeaseHeld \<and>
     last_token s (lease_scope_of l) + 1 \<noteq> 0 \<and> FencingToken l = last_token s (lease_scope_of l) + 1 \<and>
     (\<forall>i m. map_of (leases s) i = Some m \<longrightarrow> lease_scope_of m = lease_scope_of l \<longrightarrow> lease_State m = LeaseReleased) \<and>
     leases s' = map_put (LeaseID l) l (leases s) \<and>
     lease_scopes s' = map_put (lease_scope_of l) (FencingToken l) (lease_scopes s)"

lemma acquireLeaseTx_Inr:
  assumes "acquireLeaseTx s r now = Inr (l, s')"
  shows "(s' = s \<and> map_of (leases s) (acquire_LeaseID r) = Some l \<and> leaseMatchesRequest l r) \<or>
    (granted s l s' \<and> LeaseID l = acquire_LeaseID r \<and> lease_scope_of l = request_scope r \<and>
     queue_entries s' = queue_entries s)"
proof (cases "map_of (leases s) (acquire_LeaseID r)")
  case (Some m)
  with assms show ?thesis by (auto simp: acquireLeaseTx_def split: if_splits)
next
  case None
  then obtain t where t: "insert_lease s l = Inr t"
    and l: "LeaseID l = acquire_LeaseID r" "lease_scope_of l = request_scope r" "lease_State l = LeaseHeld"
      "FencingToken l = last_token s (request_scope r) + 1"
    and s': "s' = t\<lparr>lease_scopes := map_put (request_scope r) (FencingToken l) (lease_scopes t)\<rparr>"
    using assms
    by (auto simp: acquireLeaseTx_def Let_def lease_scope_of_def request_scope_def split: if_splits option.splits)
  from insert_lease_Inr [OF t] show ?thesis
    using l by (auto simp: granted_def s')
qed

lemma last_token_granted:
  "granted s l s' \<Longrightarrow> last_token s' scope =
     (if scope = lease_scope_of l then FencingToken l else last_token s scope)"
  by (simp add: granted_def last_token_def)

lemma granted_ok:
  assumes "coordination_ok s" and "granted s l s'"
  shows "coordination_ok s'"
proof -
  let ?scope = "lease_scope_of l"
  have l: "map_of (leases s) (LeaseID l) = None" "lease_State l = LeaseHeld"
      "last_token s ?scope + 1 \<noteq> 0" "FencingToken l = last_token s ?scope + 1"
      "leases s' = map_put (LeaseID l) l (leases s)"
    and others: "\<And>i m. map_of (leases s) i = Some m \<Longrightarrow> lease_scope_of m = ?scope \<Longrightarrow> lease_State m = LeaseReleased"
    using assms(2) by (auto simp: granted_def)
  note tokens = last_token_granted [OF assms(2)]
  have up: "last_token s ?scope < FencingToken l" using word_next_greater [OF l(3)] l(4) by simp
  have less: "FencingToken m < FencingToken l" if "map_of (leases s) i = Some m" "lease_scope_of m = ?scope" for i m
    using coordination_okD(3) [OF assms(1) that(1)] that(2) up by simp
  show ?thesis
    unfolding coordination_ok_def
  proof (intro conjI allI impI)
    show "wf_map (leases s')" using assms(1) by (simp add: l(5) coordination_ok_def)
  next
    fix i m assume m: "map_of (leases s') i = Some m"
    show "LeaseID m = i" "FencingToken m \<noteq> 0" "FencingToken m \<le> last_token s' (lease_scope_of m)"
      using m coordination_okD [OF assms(1), of i m] less [of i m] l(3,4)
      by (auto simp: l(5) tokens split: if_splits)
    show "FencingToken m = last_token s' (lease_scope_of m)" if "lease_State m \<noteq> LeaseReleased"
      using m coordination_okD(4) [OF assms(1), of i m] others [of i m] that
      by (auto simp: l(5) tokens split: if_splits)
  next
    fix i j m n
    assume "map_of (leases s') i = Some m" "map_of (leases s') j = Some n"
      "lease_scope_of m = lease_scope_of n" "FencingToken m = FencingToken n"
    then show "i = j"
      using coordination_ok_unique [OF assms(1), of i m j n] less [of i m] less [of j n]
      by (auto simp: l(5) split: if_splits)
  qed
qed

section \<open>The contract of guarded transitions\<close>

definition same_lease :: "Lease \<Rightarrow> Lease \<Rightarrow> bool" where
  "same_lease l l' \<longleftrightarrow> LeaseID l' = LeaseID l \<and> lease_scope_of l' = lease_scope_of l \<and>
     HolderAttemptID l' = HolderAttemptID l \<and> FencingToken l' = FencingToken l \<and>
     (lease_State l = LeaseReleased \<longrightarrow> l' = l)"

text \<open>Replacing a lease by one with the same identity keeps the invariant and every token.\<close>

lemma replaced_ok:
  assumes "coordination_ok s" and l: "map_of (leases s) i = Some l" and "same_lease l l'"
  shows "coordination_ok (s\<lparr>leases := map_put i l' (leases s)\<rparr>)" (is "coordination_ok ?s'")
proof -
  have tokens: "last_token ?s' scope = last_token s scope" for scope by (simp add: last_token_def)
  note old = coordination_okD [OF assms(1)] and own = assms(3) [unfolded same_lease_def]
  show ?thesis
    unfolding coordination_ok_def
  proof (intro conjI allI impI)
    show "wf_map (leases ?s')" using assms(1) by (simp add: coordination_ok_def)
  next
    fix j m assume m: "map_of (leases ?s') j = Some m"
    show "LeaseID m = j" "FencingToken m \<noteq> 0" "FencingToken m \<le> last_token ?s' (lease_scope_of m)"
      using m old(1-3) [of j m] old(1-3) [OF l] own by (auto simp: tokens split: if_splits)
    show "FencingToken m = last_token ?s' (lease_scope_of m)" if "lease_State m \<noteq> LeaseReleased"
      using m old(4) [of j m] old(4) [OF l] own that by (auto simp: tokens split: if_splits)
  next
    fix j k m n
    assume "map_of (leases ?s') j = Some m" "map_of (leases ?s') k = Some n"
      "lease_scope_of m = lease_scope_of n" "FencingToken m = FencingToken n"
    then show "j = k"
      using coordination_ok_unique [OF assms(1), of j m k n] coordination_ok_unique [OF assms(1) l, of k n]
        coordination_ok_unique [OF assms(1) _ l, of j m] own
      by (auto split: if_splits)
  qed
qed

locale guarded_transition =
  fixes transition :: "Lease \<Rightarrow> timestamp \<Rightarrow> coordination_error + Lease"
  assumes same: "transition l now = Inr l' \<Longrightarrow> same_lease l l'"
begin

lemma transition_Inr:
  assumes "transitionGuardedLease transition s g now = Inr (l', s')"
  obtains l where "map_of (leases s) (guard_LeaseID g) = Some l" and "same_lease l l'"
    and "FencingToken l = guard_FencingToken g"
    and "s' = s\<lparr>leases := map_put (guard_LeaseID g) l' (leases s)\<rparr>"
  using assms same
  by (auto simp: transitionGuardedLease_def readGuardedLease_def split: option.splits if_splits)

text \<open>A guard with another token than its lease is refused.\<close>

lemma stale_guard:
  assumes "map_of (leases s) (guard_LeaseID g) = Some l" and "FencingToken l \<noteq> guard_FencingToken g"
  shows "\<exists>err. transitionGuardedLease transition s g now = Inl err"
proof (rule ccontr)
  assume "\<not> ?thesis"
  then obtain l' s' where "transitionGuardedLease transition s g now = Inr (l', s')"
    by (cases "transitionGuardedLease transition s g now") auto
  then show False by (rule transition_Inr) (use assms in simp)
qed

end

interpretation heartbeat: guarded_transition "beat duration" for duration
  by unfold_locales (auto simp: beat_def same_lease_def lease_scope_of_def split: if_splits)

interpretation release: guarded_transition begin_release
  by unfold_locales (auto simp: begin_release_def same_lease_def lease_scope_of_def split: if_splits)

interpretation completion: guarded_transition "complete_release evidence" for evidence
  by unfold_locales (auto simp: complete_release_def same_lease_def lease_scope_of_def split: if_splits)

interpretation reconciliation: guarded_transition "require_reconciliation evidence" for evidence
  by unfold_locales (auto simp: require_reconciliation_def same_lease_def lease_scope_of_def split: if_splits)

interpretation recovery: guarded_transition "recover_lease startup observed outcome evidence"
  for startup observed outcome evidence
  by unfold_locales (auto simp: recover_lease_def same_lease_def lease_scope_of_def
      split: if_splits Outcome.splits LeaseState.splits)

section \<open>Reachable states\<close>

inductive coordination_step :: "coordination \<Rightarrow> coordination \<Rightarrow> bool" where
  acquired: "AcquireLease s r now = Inr (l, s') \<Longrightarrow> coordination_step s s'"
| locked: "AcquireRepositoryLock s item r now = Inr (l, s') \<Longrightarrow> coordination_step s s'"
| beaten: "HeartbeatLease s g duration now = Inr (l, s') \<Longrightarrow> coordination_step s s'"
| releasing: "BeginLeaseRelease s g now = Inr (l, s') \<Longrightarrow> coordination_step s s'"
| released: "CompleteLeaseRelease s g evidence now = Inr (l, s') \<Longrightarrow> coordination_step s s'"
| uncertain: "MarkLeaseReconcileRequired s g evidence now = Inr (l, s') \<Longrightarrow> coordination_step s s'"
| recovered: "applyLeaseRecovery s startup i observed outcome evidence now = Inr s' \<Longrightarrow> coordination_step s s'"
| enqueued: "Enqueue s q now = Inr (e, s') \<Longrightarrow> coordination_step s s'"
| removed: "RemoveQueueEntry s kind scope item = Inr s' \<Longrightarrow> coordination_step s s'"

lemma coordination_ok_queue [simp]: "coordination_ok (s\<lparr>queue_entries := q\<rparr>) = coordination_ok s"
  by (simp add: coordination_ok_def last_token_def)

lemma granted_released:
  assumes "granted s l s'" and "map_of (leases s) i = Some m"
  shows "map_of (leases s') i = Some m"
  using assms by (auto simp: granted_def)

text \<open>Every step is a grant, the replacement of a lease or a change of the queue.\<close>

lemma step_cases:
  assumes "coordination_step s s'"
  obtains "leases s' = leases s" "lease_scopes s' = lease_scopes s"
  | l q where "granted s l (s'\<lparr>queue_entries := q\<rparr>)"
  | i l l' where "map_of (leases s) i = Some l" and "same_lease l l'" and "s' = s\<lparr>leases := map_put i l' (leases s)\<rparr>"
  using assms
proof cases
  case (acquired r now l)
  then have "acquireLeaseTx s r now = Inr (l, s')" by (simp add: AcquireLease_def)
  from acquireLeaseTx_Inr [OF this] show ?thesis
    using that(1) that(2) [of l "queue_entries s'"] by auto
next
  case (locked item r now l)
  then consider "s' = s"
    | s1 where "acquireLeaseTx s r now = Inr (l, s1)"
        "s' = delete_entry s1 QueueRepositoryWrite (acquire_ScopeID r) item"
    by (auto simp: AcquireRepositoryLock_def split: if_splits option.splits)
  then show ?thesis
  proof cases
    case (2 s1)
    from acquireLeaseTx_Inr [OF 2(1)] show ?thesis
      using that(1) that(2) [of l "queue_entries s1"] 2(2) by (auto simp: delete_entry_def granted_def)
  qed (use that(1) in simp)
next
  case (beaten g duration now l)
  then have "transitionGuardedLease (beat duration) s g now = Inr (l, s')" by (simp add: HeartbeatLease_def)
  then show ?thesis by (rule heartbeat.transition_Inr) (erule (1) that(3))
next
  case (releasing g now l)
  then show ?thesis unfolding BeginLeaseRelease_def by (rule release.transition_Inr) (erule (1) that(3))
next
  case (released g evidence now l)
  then obtain e where "transitionGuardedLease (complete_release e) s g now = Inr (l, s')"
    by (auto simp: CompleteLeaseRelease_def split: option.splits)
  then show ?thesis by (rule completion.transition_Inr) (erule (1) that(3))
next
  case (uncertain g evidence now l)
  then obtain e where "transitionGuardedLease (require_reconciliation e) s g now = Inr (l, s')"
    by (auto simp: MarkLeaseReconcileRequired_def split: option.splits)
  then show ?thesis by (rule reconciliation.transition_Inr) (erule (1) that(3))
next
  case (recovered startup i observed outcome evidence now)
  then obtain l l' where "map_of (leases s) i = Some l" "s' = s\<lparr>leases := map_put i l' (leases s)\<rparr>"
      "recover_lease startup observed outcome evidence l now = Inr l'"
    by (auto simp: applyLeaseRecovery_def split: option.splits)
  then show ?thesis using recovery.same that(3) by blast
next
  case (enqueued q now e)
  then show ?thesis using that(1) by (auto simp: Enqueue_def Let_def split: option.splits if_splits)
next
  case (removed kind scope item)
  then show ?thesis using that(1) by (auto simp: RemoveQueueEntry_def delete_entry_def)
qed

lemma step_ok: "coordination_ok s \<Longrightarrow> coordination_step s s' \<Longrightarrow> coordination_ok s'"
proof (erule step_cases)
  assume "coordination_ok s" "leases s' = leases s" "lease_scopes s' = lease_scopes s"
  then show ?thesis by (simp add: coordination_ok_def last_token_def)
next
  fix l q assume "coordination_ok s" "granted s l (s'\<lparr>queue_entries := q\<rparr>)"
  then have "coordination_ok (s'\<lparr>queue_entries := q\<rparr>)" by (rule granted_ok)
  then show ?thesis by simp
qed (simp add: replaced_ok)

lemma step_released:
  assumes "coordination_step s s'" and "map_of (leases s) i = Some m" and "lease_State m = LeaseReleased"
  shows "map_of (leases s') i = Some m"
  using assms(1)
proof (rule step_cases)
  fix l q assume "granted s l (s'\<lparr>queue_entries := q\<rparr>)"
  from granted_released [OF this assms(2)] show ?thesis by simp
qed (use assms(2,3) in \<open>auto simp: same_lease_def\<close>)

abbreviation coordination_steps :: "coordination \<Rightarrow> coordination \<Rightarrow> bool" where
  "coordination_steps \<equiv> coordination_step\<^sup>*\<^sup>*"

lemma steps_ok: "coordination_steps s s' \<Longrightarrow> coordination_ok s \<Longrightarrow> coordination_ok s'"
  by (induction rule: rtranclp_induct) (auto intro: step_ok)

lemma steps_released:
  "coordination_steps s s' \<Longrightarrow> map_of (leases s) i = Some m \<Longrightarrow> lease_State m = LeaseReleased \<Longrightarrow>
     map_of (leases s') i = Some m"
  by (induction rule: rtranclp_induct) (auto dest: step_released)

lemma empty_coordination_ok: "coordination_ok empty_coordination"
  by (simp add: coordination_ok_def empty_coordination_def)

lemmas reachable_ok = steps_ok [OF _ empty_coordination_ok]

section \<open>Consequences\<close>

text \<open>An unreleased lease blocks its scope at every time, expired or not.\<close>

lemma held_scope_refused:
  assumes "coordination_ok s" and "map_of (leases s) i = Some m" and "lease_State m \<noteq> LeaseReleased"
    and "request_scope r = lease_scope_of m" and "map_of (leases s) (acquire_LeaseID r) = None"
  shows "\<exists>err. AcquireLease s r now = Inl err"
proof (rule ccontr)
  assume "\<not> ?thesis"
  then obtain l s' where "acquireLeaseTx s r now = Inr (l, s')"
    by (cases "AcquireLease s r now") (auto simp: AcquireLease_def)
  from acquireLeaseTx_Inr [OF this] assms show False by (auto simp: granted_def)
qed

lemma ValidateLease_Inr:
  assumes "ValidateLease s scope g now = Inr l"
  shows "map_of (leases s) (guard_LeaseID g) = Some l" "lease_scope_of l = scope" "lease_State l = LeaseHeld"
    "g = \<lparr>guard_LeaseID = guard_LeaseID g, guard_HolderAttemptID = HolderAttemptID l,
      guard_DaemonInstanceID = DaemonInstanceID l, guard_FencingToken = FencingToken l\<rparr>"
  using assms
  by (cases g; auto simp: ValidateLease_def readGuardedLease_def split: option.splits if_splits)+

lemma select_head_first:
  assumes "select_head s kind scope now = Some e"
  shows "e \<in> set (queue_entries s)" "queue_Kind e = kind" "queue_ScopeID e = scope"
    "formatTime (AvailableAt e) \<le> formatTime now"
    "\<And>f. f \<in> set (available_entries s kind scope now) \<Longrightarrow> queue_order e \<le> queue_order f"
proof -
  let ?es = "available_entries s kind scope now"
  obtain fs where sorted: "sort_key queue_order ?es = e # fs"
    using assms by (auto simp: select_head_def split: list.splits)
  then have "e \<in> set ?es" by (metis list.set_intros(1) set_sort)
  then show "e \<in> set (queue_entries s)" "queue_Kind e = kind" "queue_ScopeID e = scope"
    "formatTime (AvailableAt e) \<le> formatTime now"
    by (auto simp: available_entries_def)
  show "queue_order e \<le> queue_order f" if "f \<in> set ?es" for f
    using sorted_sort_key [of queue_order ?es] set_sort [of queue_order ?es] that
    by (auto simp: sorted)
qed

text \<open>Stored times do not order like the instants they stand for: half a second after an instant
  its text is smaller.\<close>

lemma text_order_reversed: "formatTime 1500000000 < formatTime 1000000000"
  by code_simp

section \<open>Properties\<close>

definition example_request :: "string \<Rightarrow> uint64 \<Rightarrow> AcquireLeaseRequest" where
  "example_request i token = \<lparr>acquire_LeaseID = i, acquire_ScopeKind = LeaseScopeRepository,
     acquire_ScopeID = ''repo'', acquire_HolderAttemptID = ''attempt'', acquire_DaemonInstanceID = ''daemon'',
     acquire_HostBootID = ''boot'', ExpectedFencingToken = token, Duration = 0, acquire_ProcessIdentity = []\<rparr>"

definition example_guard :: "string \<Rightarrow> uint64 \<Rightarrow> LeaseGuard" where
  "example_guard i token = \<lparr>guard_LeaseID = i, guard_HolderAttemptID = ''attempt'',
     guard_DaemonInstanceID = ''daemon'', guard_FencingToken = token\<rparr>"

definition example_lease :: "string \<Rightarrow> uint64 \<Rightarrow> Lease" where
  "example_lease i token = \<lparr>LeaseID = i, lease_ScopeKind = LeaseScopeRepository, lease_ScopeID = ''repo'',
     HolderAttemptID = ''attempt'', DaemonInstanceID = ''daemon'', FencingToken = token, AcquiredAt = 0,
     HeartbeatAt = 0, ExpiresAt = 30000000000, HostBootID = ''boot'', ProcessIdentity = [],
     lease_State = LeaseHeld, lease_Evidence = [], ReleasedAt = None\<rparr>"

definition example_held :: coordination where
  "example_held = \<lparr>lease_scopes = [((LeaseScopeRepository, ''repo''), 1)],
     leases = [(''a'', example_lease ''a'' 1)], queue_entries = []\<rparr>"

lemmas acquire_example_defs = AcquireLease_def acquireLeaseTx_def example_request_def
  validateAcquireLeaseRequest_def validateLeaseDuration_def normalizeLeaseDuration_def
  nullableJSONObject_def DefaultLeaseDuration_def MaximumHeartbeatInterval_def require_def
  last_token_def readActiveLease_def insert_lease_def has_key_def request_scope_def
  example_lease_def example_held_def map_put_def lease_scope_of_def Let_def

lemma example_held_acquired:
  "AcquireLease empty_coordination (example_request ''a'' 0) 0 = Inr (example_lease ''a'' 1, example_held)"
  by (simp add: acquire_example_defs empty_coordination_def)

lemma example_held_reachable: "coordination_steps empty_coordination example_held"
  using acquired [OF example_held_acquired] by blast

text \<open>C26: mutual exclusion: in every reachable state, two capabilities that are accepted for the same
  scope, at whatever times they are checked, are the same capability of the same lease, and it
  carries the last fencing token of the scope.\<close>

theorem lease_mutual_exclusion:
  assumes "coordination_steps empty_coordination s"
    and "ValidateLease s scope g now = Inr l" and "ValidateLease s scope h later = Inr m"
  shows "g = h \<and> l = m \<and> FencingToken l = last_token s scope"
proof -
  note l = ValidateLease_Inr [OF assms(2)] and m = ValidateLease_Inr [OF assms(3)]
  have ok: "coordination_ok s" by (rule reachable_ok [OF assms(1)])
  have tokens: "FencingToken l = last_token s scope" "FencingToken m = last_token s scope"
    using coordination_okD(4) [OF ok l(1)] coordination_okD(4) [OF ok m(1)] l(2,3) m(2,3) by auto
  have "guard_LeaseID g = guard_LeaseID h"
    using coordination_ok_unique [OF ok l(1) m(1)] l(2) m(2) tokens by simp
  with l m tokens show ?thesis by (metis option.inject)
qed

theorem lease_mutual_exclusion_witness:
  "ValidateLease example_held (LeaseScopeRepository, ''repo'') (example_guard ''a'' 1) 5 =
      Inr (example_lease ''a'' 1) \<and>
    FencingToken (example_lease ''a'' 1) = last_token example_held (LeaseScopeRepository, ''repo'')"
proof -
  have v: "ValidateLease example_held (LeaseScopeRepository, ''repo'') (example_guard ''a'' 1) 5 =
      Inr (example_lease ''a'' 1)"
    by (simp add: ValidateLease_def example_held_def example_guard_def example_lease_def
        validateLeaseGuard_def readGuardedLease_def lease_scope_of_def)
  with lease_mutual_exclusion [OF example_held_reachable v v] show ?thesis by blast
qed

text \<open>C27: a new lease fences its predecessors: granting a lease in a reachable state takes the next
  token of the scope without wrap-around, larger than that of every earlier lease of the scope, and
  from then on no capability of an earlier lease of the scope is ever accepted again.\<close>

theorem acquired_fences_predecessors:
  assumes "coordination_steps empty_coordination s" and "AcquireLease s r now = Inr (l, s')"
    and "map_of (leases s) (acquire_LeaseID r) = None"
    and "map_of (leases s) i = Some m" and "lease_scope_of m = lease_scope_of l"
    and "coordination_steps s' s''" and "guard_LeaseID g = i"
  shows "FencingToken m < FencingToken l \<and> unat (FencingToken l) = unat (last_token s (lease_scope_of l)) + 1 \<and>
    (\<exists>err. ValidateLease s'' scope g later = Inl err)"
proof -
  have ok: "coordination_ok s" by (rule reachable_ok [OF assms(1)])
  have g: "granted s l s'"
    using assms(2,3) acquireLeaseTx_Inr [of s r now l s'] by (auto simp: AcquireLease_def)
  then have next_token: "FencingToken l = last_token s (lease_scope_of l) + 1" "last_token s (lease_scope_of l) + 1 \<noteq> 0"
    and released: "lease_State m = LeaseReleased"
    using assms(4,5) by (auto simp: granted_def)
  have "FencingToken m \<le> last_token s (lease_scope_of l)"
    using coordination_okD(3) [OF ok assms(4)] assms(5) by simp
  then have "FencingToken m < FencingToken l"
    using word_next_greater [OF next_token(2)] next_token(1) by simp
  moreover have "unat (FencingToken l) = unat (last_token s (lease_scope_of l)) + 1"
    using next_token unatSuc [of "last_token s (lease_scope_of l)"] by (simp add: add.commute)
  moreover have "map_of (leases s'') i = Some m"
    using steps_released [OF assms(6) granted_released [OF g assms(4)] released] .
  then have "ValidateLease s'' scope g later \<noteq> Inr x" for x
    using ValidateLease_Inr [of s'' scope g later x] assms(7) released by auto
  ultimately show ?thesis by (cases "ValidateLease s'' scope g later") auto
qed
definition example_released_lease :: Lease where
  "example_released_lease = (example_lease ''a'' 1)
     \<lparr>lease_State := LeaseReleased, lease_Evidence := ''{}'', ReleasedAt := Some 9\<rparr>"

definition example_free :: coordination where
  "example_free = \<lparr>lease_scopes = [((LeaseScopeRepository, ''repo''), 1)],
     leases = [(''a'', example_released_lease)], queue_entries = []\<rparr>"

lemma empty_object: "requiredJSONObject ''{}'' = Some ''{}''"
  by code_simp

lemma example_free_reachable: "coordination_steps empty_coordination example_free"
proof -
  let ?mid = "example_held\<lparr>leases := [(''a'', (example_lease ''a'' 1)\<lparr>lease_State := LeaseReleasing\<rparr>)]\<rparr>"
  note simps = transitionGuardedLease_def validateLeaseGuard_def readGuardedLease_def example_guard_def
    example_held_def example_lease_def map_put_def has_key_def begin_release_def complete_release_def
  have "\<exists>l. BeginLeaseRelease example_held (example_guard ''a'' 1) 8 = Inr (l, ?mid)"
    by (simp add: BeginLeaseRelease_def simps)
  then have "coordination_step example_held ?mid" by (blast intro: coordination_step.releasing)
  moreover have "\<exists>l. CompleteLeaseRelease ?mid (example_guard ''a'' 1) ''{}'' 9 = Inr (l, example_free)"
    by (simp add: CompleteLeaseRelease_def empty_object simps example_free_def example_released_lease_def)
  then have "coordination_step ?mid example_free" by (blast intro: coordination_step.released)
  ultimately show ?thesis using example_held_reachable by (metis rtranclp.rtrancl_into_rtrancl)
qed

theorem acquired_fences_predecessors_witness:
  "\<exists>l s'. AcquireLease example_free (example_request ''b'' 1) 10 = Inr (l, s') \<and>
    FencingToken example_released_lease < FencingToken l \<and>
    (\<exists>err. ValidateLease s' (LeaseScopeRepository, ''repo'') (example_guard ''a'' 1) 11 = Inl err)"
proof -
  have "\<exists>l s'. AcquireLease example_free (example_request ''b'' 1) 10 = Inr (l, s') \<and>
      lease_scope_of example_released_lease = lease_scope_of l"
    by (simp add: acquire_example_defs example_free_def example_released_lease_def)
  then obtain l s' where a: "AcquireLease example_free (example_request ''b'' 1) 10 = Inr (l, s')"
      and scope: "lease_scope_of example_released_lease = lease_scope_of l" by blast
  have "map_of (leases example_free) (acquire_LeaseID (example_request ''b'' 1)) = None"
      "map_of (leases example_free) ''a'' = Some example_released_lease"
    by (simp_all add: example_free_def example_request_def)
  from acquired_fences_predecessors [OF example_free_reachable a this scope rtranclp.rtrancl_refl,
      of "example_guard ''a'' 1" "(LeaseScopeRepository, ''repo'')" 11] a
  show ?thesis by (auto simp: example_guard_def)
qed

text \<open>C28: the repository lock goes to the head of its queue: when a lock is newly granted for a queue
  item, that item was available and no available item of the repository came before it by
  priority, then stored time of enqueueing, then identity; the item leaves the queue and no other
  item does.\<close>

theorem repository_lock_fair:
  assumes "AcquireRepositoryLock s item r now = Inr (l, s')"
    and "map_of (leases s) (acquire_LeaseID r) = None"
  shows "\<exists>head \<in> set (queue_entries s). queue_key head = (QueueRepositoryWrite, acquire_ScopeID r, item) \<and>
    formatTime (AvailableAt head) \<le> formatTime now \<and>
    (\<forall>e \<in> set (queue_entries s). queue_Kind e = QueueRepositoryWrite \<and> queue_ScopeID e = acquire_ScopeID r \<and>
       formatTime (AvailableAt e) \<le> formatTime now \<longrightarrow> queue_order head \<le> queue_order e) \<and>
    queue_entries s' = filter (\<lambda>e. queue_key e \<noteq> queue_key head) (queue_entries s) \<and>
    granted s l (s'\<lparr>queue_entries := queue_entries s\<rparr>)"
proof -
  obtain head s1 where head: "select_head s QueueRepositoryWrite (acquire_ScopeID r) now = Some head"
      "queue_ItemID head = item"
    and s1: "acquireLeaseTx s r now = Inr (l, s1)"
      "s' = delete_entry s1 QueueRepositoryWrite (acquire_ScopeID r) item"
    using assms by (auto simp: AcquireRepositoryLock_def split: if_splits option.splits)
  have grant: "granted s l s1" "queue_entries s1 = queue_entries s"
    using acquireLeaseTx_Inr [OF s1(1)] assms(2) by auto
  note first = select_head_first [OF head(1)]
  have key: "queue_key head = (QueueRepositoryWrite, acquire_ScopeID r, item)"
    using first(2,3) head(2) by (simp add: queue_key_def)
  show ?thesis
  proof (rule bexI [OF _ first(1)], intro conjI)
    show "queue_entries s' = filter (\<lambda>e. queue_key e \<noteq> queue_key head) (queue_entries s)"
      by (simp add: s1(2) delete_entry_def grant key)
    show "granted s l (s'\<lparr>queue_entries := queue_entries s\<rparr>)"
      using grant by (simp add: s1(2) delete_entry_def granted_def)
  qed (use key first(4,5) in \<open>auto simp: available_entries_def\<close>)
qed

definition example_entry :: "string \<Rightarrow> int \<Rightarrow> QueueEntry" where
  "example_entry item priority = \<lparr>queue_Kind = QueueRepositoryWrite, queue_ScopeID = ''repo'',
     queue_ItemID = item, queue_Priority = priority, AvailableAt = 0, EnqueuedAt = 0, queue_Payload = ''{}''\<rparr>"

definition example_queue :: coordination where
  "example_queue = empty_coordination\<lparr>queue_entries := [example_entry ''slow'' 0, example_entry ''fast'' 2]\<rparr>"

theorem repository_lock_fair_witness:
  "\<exists>l s'. AcquireRepositoryLock example_queue ''fast'' (example_request ''a'' 0) 0 = Inr (l, s') \<and>
    (\<exists>head \<in> set (queue_entries example_queue). queue_ItemID head = ''fast'' \<and>
      queue_entries s' = filter (\<lambda>e. queue_key e \<noteq> queue_key head) (queue_entries example_queue))"
proof -
  have "case AcquireRepositoryLock example_queue ''fast'' (example_request ''a'' 0) 0 of
      Inl _ \<Rightarrow> False | Inr (l, s') \<Rightarrow> True"
    by code_simp
  then obtain l s' where r: "AcquireRepositoryLock example_queue ''fast'' (example_request ''a'' 0) 0 = Inr (l, s')"
    by (cases "AcquireRepositoryLock example_queue ''fast'' (example_request ''a'' 0) 0") auto
  have "map_of (leases example_queue) (acquire_LeaseID (example_request ''a'' 0)) = None"
    by (simp add: example_queue_def empty_coordination_def)
  from repository_lock_fair [OF r this] r show ?thesis by (auto simp: queue_key_def)
qed

end
