(* ===== verification/ApprovalReducer.thy ===== *)
theory ApprovalReducer
  imports Reducer
begin

text \<open>
  \<open>ReduceApproval\<close> of \<open>src/runtime/src/core/projection/reducer.go\<close>: the request of an approval with its
  optional checkpoint subject, the review conversation on a pending checkpoint (feedback, resumed
  revision, agent response), and the one event that resolves it. The lemmas show that a resolved
  approval accepts no further event, and that an approval counts as granted only by a decision of
  the right kind on the request as it was made.
\<close>

definition validApprovalClass :: "string \<Rightarrow> bool" where
  "validApprovalClass c \<longleftrightarrow> c = ApprovalWorkflowCheckpoint \<or> c = ApprovalWorkflowControl \<or>
     c = ApprovalProviderPermission \<or> c = ApprovalExternalDelivery"

text \<open>The decoded data of \<open>approval.requested\<close>.\<close>

record approval_request =
  req_RunID :: string
  req_Class :: string
  req_CheckpointID :: string
  req_VisitID :: string
  req_NodeID :: string
  req_AttemptID :: string
  req_CheckpointRevision :: uint64
  req_CandidateArtifactID :: string
  req_CandidateArtifactVersion :: uint64
  req_CandidateDigest :: string
  req_CheckpointMode :: string
  req_MaxRevisions :: "uint64 option"
  req_ScopeDigest :: string
  req_PolicyDigest :: string

definition decode_approval_request :: "members \<Rightarrow> approval_request option" where
  "decode_approval_request ms = do {
     run \<leftarrow> get_string ''runId'' ms; class \<leftarrow> get_string ''class'' ms;
     checkpoint \<leftarrow> get_string ''checkpointId'' ms; visit \<leftarrow> get_string ''visitId'' ms;
     node \<leftarrow> get_string ''nodeId'' ms; attempt \<leftarrow> get_string ''attemptId'' ms;
     revision \<leftarrow> get_uint64 ''checkpointRevision'' ms;
     artifact \<leftarrow> get_string ''candidateArtifactId'' ms;
     version \<leftarrow> get_uint64 ''candidateArtifactVersion'' ms;
     digest \<leftarrow> get_string ''candidateDigest'' ms; mode \<leftarrow> get_string ''checkpointMode'' ms;
     maxRevisions \<leftarrow> get_uint64_ptr ''maxRevisions'' ms;
     scope \<leftarrow> get_string ''scopeDigest'' ms; policy \<leftarrow> get_string ''policyDigest'' ms;
     Some \<lparr>req_RunID = run, req_Class = class, req_CheckpointID = checkpoint, req_VisitID = visit,
       req_NodeID = node, req_AttemptID = attempt, req_CheckpointRevision = revision,
       req_CandidateArtifactID = artifact, req_CandidateArtifactVersion = version,
       req_CandidateDigest = digest, req_CheckpointMode = mode, req_MaxRevisions = maxRevisions,
       req_ScopeDigest = scope, req_PolicyDigest = policy\<rparr> }"

definition checkpoint_fields :: "approval_request \<Rightarrow> bool" where
  "checkpoint_fields d \<longleftrightarrow> req_CheckpointID d \<noteq> [] \<or> req_VisitID d \<noteq> [] \<or> req_NodeID d \<noteq> [] \<or>
     req_AttemptID d \<noteq> [] \<or> req_CheckpointRevision d \<noteq> 0 \<or> req_CandidateArtifactID d \<noteq> [] \<or>
     req_CandidateArtifactVersion d \<noteq> 0 \<or> req_CandidateDigest d \<noteq> [] \<or> req_CheckpointMode d \<noteq> [] \<or>
     req_MaxRevisions d \<noteq> None"

definition control_subject :: "approval_request \<Rightarrow> bool" where
  "control_subject d \<longleftrightarrow> req_Class d = ApprovalWorkflowControl \<and> req_VisitID d \<noteq> [] \<and>
     req_NodeID d \<noteq> [] \<and> req_AttemptID d \<noteq> [] \<and> req_CheckpointID d = [] \<and>
     req_CheckpointRevision d = 0 \<and> req_CandidateArtifactID d = [] \<and>
     req_CandidateArtifactVersion d = 0 \<and> req_CandidateDigest d = [] \<and> req_CheckpointMode d = [] \<and>
     req_MaxRevisions d = None"

definition complete_subject :: "approval_request \<Rightarrow> bool" where
  "complete_subject d \<longleftrightarrow> req_Class d = ApprovalWorkflowCheckpoint \<and> req_CheckpointID d \<noteq> [] \<and>
     req_VisitID d \<noteq> [] \<and> req_NodeID d \<noteq> [] \<and> req_AttemptID d \<noteq> [] \<and> 0 < req_CheckpointRevision d \<and>
     req_CandidateArtifactID d \<noteq> [] \<and> 0 < req_CandidateArtifactVersion d \<and>
     req_CandidateDigest d \<noteq> [] \<and>
     (req_CheckpointMode d = ''approve'' \<or> req_CheckpointMode d = ''approve_on_change'') \<and>
     (case req_MaxRevisions d of None \<Rightarrow> True | Some n \<Rightarrow> 0 < n)"

definition create_approval :: "Event \<Rightarrow> reduce_error + ApprovalProjection" where
  "create_approval event =
    (if Kind event \<noteq> ''approval.requested'' then Inl (FirstEventError (AggregateID event) (Kind event))
     else result_bind (decodeData event decode_approval_request) (\<lambda>d.
       if req_RunID d = [] \<or> req_ScopeDigest d = [] \<or> req_PolicyDigest d = [] \<or>
          \<not> validApprovalClass (req_Class d)
       then Inl (EventDataError (Kind event))
       else if checkpoint_fields d \<and> \<not> complete_subject d \<and> \<not> control_subject d
       then Inl (EventDataError (Kind event))
       else Inr \<lparr>ResourceID = AggregateID event, ResourceVersion = AggregateRevision event,
         LastGlobalPosition = GlobalPosition event, CreatedAt = RecordedAt event,
         UpdatedAt = RecordedAt event, approval_RunID = req_RunID d, Class = req_Class d,
         approval_Status = ApprovalPending, CheckpointID = req_CheckpointID d,
         approval_VisitID = req_VisitID d, approval_NodeID = req_NodeID d,
         approval_AttemptID = req_AttemptID d, CheckpointRevision = req_CheckpointRevision d,
         CandidateArtifactID = req_CandidateArtifactID d,
         CandidateArtifactVersion = req_CandidateArtifactVersion d,
         CandidateDigest = req_CandidateDigest d, approval_CheckpointMode = req_CheckpointMode d,
         MaxRevisions = req_MaxRevisions d, approval_ScopeDigest = req_ScopeDigest d,
         approval_PolicyDigest = req_PolicyDigest d, approval_Decision = None\<rparr>))"

definition refuse_approval :: "ApprovalProjection \<Rightarrow> Event \<Rightarrow> reduce_error + 'a" where
  "refuse_approval current event = Inl (invalidTransition ''approval'' (ResourceID current)
     (approval_status_string (approval_Status current)) (Kind event))"

definition pending_checkpoint :: "ApprovalProjection \<Rightarrow> bool" where
  "pending_checkpoint current \<longleftrightarrow>
     Class current = ApprovalWorkflowCheckpoint \<and> approval_Status current = ApprovalPending"

definition submit_feedback :: "ApprovalProjection \<Rightarrow> Event \<Rightarrow> reduce_error + ApprovalProjection" where
  "submit_feedback current event =
    (if \<not> pending_checkpoint current then refuse_approval current event
     else result_bind (decodeData event (\<lambda>ms. do {
         feedback \<leftarrow> get_string ''feedbackSetId'' ms; candidate \<leftarrow> get_string ''candidateDigest'' ms;
         scope \<leftarrow> get_string ''scopeDigest'' ms; policy \<leftarrow> get_string ''policyDigest'' ms;
         message \<leftarrow> get_string ''message'' ms; instruction \<leftarrow> get_string ''overallInstruction'' ms;
         Some (feedback, candidate, scope, policy, message, instruction) }))
       (\<lambda>(feedback, candidate, scope, policy, message, instruction).
         let legacy = (feedback = [] \<and> message \<noteq> []);
             anchored = (feedback \<noteq> [] \<and> instruction \<noteq> [] \<and> policy = approval_PolicyDigest current) in
         if candidate \<noteq> CandidateDigest current \<or> scope \<noteq> approval_ScopeDigest current \<or>
            (\<not> legacy \<and> \<not> anchored)
         then Inl (EventDataError (Kind event)) else Inr current))"

definition resume_revision :: "ApprovalProjection \<Rightarrow> Event \<Rightarrow> reduce_error + ApprovalProjection" where
  "resume_revision current event =
    (if \<not> pending_checkpoint current then refuse_approval current event
     else result_bind (decodeData event (\<lambda>ms. do {
         candidate \<leftarrow> get_string ''candidateDigest'' ms; scope \<leftarrow> get_string ''scopeDigest'' ms;
         attempt \<leftarrow> get_string ''attemptId'' ms; Some (candidate, scope, attempt) }))
       (\<lambda>(candidate, scope, attempt).
         if candidate \<noteq> CandidateDigest current \<or> scope \<noteq> approval_ScopeDigest current \<or> attempt = []
         then Inl (EventDataError (Kind event)) else Inr current))"

text \<open>The nested \<open>resultingCandidate\<close> is present or nil.\<close>

definition decode_candidate :: "members option \<Rightarrow> (string \<times> uint64) option option" where
  "decode_candidate c = (case c of None \<Rightarrow> Some None
     | Some ms \<Rightarrow> do { artifact \<leftarrow> get_string ''artifactId'' ms; version \<leftarrow> get_uint64 ''version'' ms;
         Some (Some (artifact, version)) })"

definition agent_responded :: "ApprovalProjection \<Rightarrow> Event \<Rightarrow> reduce_error + ApprovalProjection" where
  "agent_responded current event =
    (if \<not> pending_checkpoint current then refuse_approval current event
     else result_bind (decodeData event (\<lambda>ms. do {
         candidate \<leftarrow> get_string ''candidateDigest'' ms; scope \<leftarrow> get_string ''scopeDigest'' ms;
         attempt \<leftarrow> get_string ''attemptId'' ms; outcome \<leftarrow> get_string ''outcome'' ms;
         nested \<leftarrow> get_struct_ptr ''resultingCandidate'' ms; resulting \<leftarrow> decode_candidate nested;
         resultingDigest \<leftarrow> get_string ''resultingDigest'' ms;
         Some (candidate, scope, attempt, outcome, resulting, resultingDigest) }))
       (\<lambda>(candidate, scope, attempt, outcome, resulting, resultingDigest).
         if candidate \<noteq> CandidateDigest current \<or> scope \<noteq> approval_ScopeDigest current \<or> attempt = []
         then Inl (EventDataError (Kind event))
         else if outcome = ''revised'' then
           (if resultingDigest = [] \<or>
               resulting \<noteq> Some (CandidateArtifactID current, CandidateArtifactVersion current + 1)
            then Inl (EventDataError (Kind event))
            else Inr (current\<lparr>approval_Status := ApprovalChangesRequested\<rparr>))
         else if outcome = ''failed'' \<or> outcome = ''cancelled'' then
           (if resulting \<noteq> None \<or> resultingDigest \<noteq> [] then Inl (EventDataError (Kind event))
            else Inr current)
         else Inl (EventDataError (Kind event))))"

definition decided_status :: "string \<Rightarrow> ApprovalStatus option" where
  "decided_status action =
    (if action = ''approve'' then Some ApprovalApproved
     else if action \<in> {''acknowledge'', ''satisfy_external'', ''allow_once'', ''allow_for_session''}
     then Some ApprovalApproved
     else if action = ''request_changes'' then Some ApprovalChangesRequested
     else if action = ''reject'' then Some ApprovalRejected
     else if action = ''deny'' then Some ApprovalDenied
     else None)"

definition decision_data :: "Event \<Rightarrow> reduce_error + string \<times> string \<times> string \<times> string" where
  "decision_data event = decodeData event (\<lambda>ms. do {
     action \<leftarrow> get_string ''action'' ms; scope \<leftarrow> get_string ''scopeDigest'' ms;
     policy \<leftarrow> get_string ''policyDigest'' ms; remark \<leftarrow> get_string ''comment'' ms;
     Some (action, scope, policy, remark) })"

definition decide_approval :: "ApprovalProjection \<Rightarrow> Event \<Rightarrow> reduce_error + ApprovalProjection" where
  "decide_approval current event =
    (if approval_Status current \<noteq> ApprovalPending then refuse_approval current event
     else result_bind (decision_data event) (\<lambda>(action, scope, policy, remark).
       if CheckpointID current \<noteq> [] \<and>
          (scope \<noteq> approval_ScopeDigest current \<or> policy \<noteq> approval_PolicyDigest current)
       then Inl (EventDataError (Kind event))
       else (case decided_status action of
          None \<Rightarrow> Inl (EventDataError (Kind event))
        | Some status \<Rightarrow> Inr (current\<lparr>approval_Status := status,
            approval_Decision := Some \<lparr>decision_Action = action, decision_ActionKey = CommandID event,
              decision_Comment = remark, decision_Actor = event_actor event,
              DecidedAt = RecordedAt event\<rparr>\<rparr>))))"

definition approval_switch :: "ApprovalProjection \<Rightarrow> Event \<Rightarrow> reduce_error + ApprovalProjection" where
  "approval_switch current event =
    (let kind = Kind event in
     if kind = ''approval.feedback_submitted'' then submit_feedback current event
     else if kind = ''approval.revision_resumed'' then resume_revision current event
     else if kind = ''approval.agent_responded'' then agent_responded current event
     else if kind = ''approval.decided'' then decide_approval current event
     else if kind = ''approval.cancelled'' then
       (if approval_Status current \<noteq> ApprovalPending then refuse_approval current event
        else Inr (current\<lparr>approval_Status := ApprovalCancelled\<rparr>))
     else if kind = ''approval.expired'' then
       (if approval_Status current \<noteq> ApprovalPending then refuse_approval current event
        else Inr (current\<lparr>approval_Status := ApprovalExpired\<rparr>))
     else refuse_approval current event)"

definition ReduceApproval :: "ApprovalProjection option \<Rightarrow> Event \<Rightarrow> ApprovalProjection reduction" where
  "ReduceApproval = reduce_aggregate AggregateApproval create_approval approval_switch"

section \<open>What an approval keeps\<close>

lemmas approval_switch_defs = approval_switch_def submit_feedback_def resume_revision_def
  agent_responded_def decide_approval_def refuse_approval_def pending_checkpoint_def

lemma approval_switch_pending: "approval_switch c e = Inr p \<Longrightarrow> approval_Status c = ApprovalPending"
  by (auto simp: approval_switch_defs Let_def split: if_splits)

lemma approval_switch_cases:
  assumes "approval_switch c e = Inr p"
  obtains "p = c" | s where "s \<in> {ApprovalChangesRequested, ApprovalCancelled, ApprovalExpired}"
      and "p = c\<lparr>approval_Status := s\<rparr>"
  | "Kind e = ''approval.decided''" and "decide_approval c e = Inr p"
proof -
  have "p = c \<or> (\<exists>s \<in> {ApprovalChangesRequested, ApprovalCancelled, ApprovalExpired}.
      p = c\<lparr>approval_Status := s\<rparr>) \<or> Kind e = ''approval.decided'' \<and> decide_approval c e = Inr p"
    using assms
    by (auto simp: approval_switch_def submit_feedback_def resume_revision_def agent_responded_def
        refuse_approval_def Let_def simp del: ApprovalProjection.update_convs split: if_splits)
  then show ?thesis using that by blast
qed

lemma decide_approval_row:
  assumes "decide_approval c e = Inr p"
  obtains action scope policy remark status
  where "decision_data e = Inr (action, scope, policy, remark)" and "decided_status action = Some status"
    and "CheckpointID c = [] \<or> scope = approval_ScopeDigest c \<and> policy = approval_PolicyDigest c"
    and "p = c\<lparr>approval_Status := status, approval_Decision := Some \<lparr>decision_Action = action,
      decision_ActionKey = CommandID e, decision_Comment = remark, decision_Actor = event_actor e,
      DecidedAt = RecordedAt e\<rparr>\<rparr>"
  using assms by (auto simp: decide_approval_def refuse_approval_def split: if_splits option.splits)

text \<open>The request an approval was created with.\<close>

definition same_request :: "ApprovalProjection \<Rightarrow> ApprovalProjection \<Rightarrow> bool" where
  "same_request p c \<longleftrightarrow> ResourceID p = ResourceID c \<and> CreatedAt p = CreatedAt c \<and>
     approval_RunID p = approval_RunID c \<and> Class p = Class c \<and> CheckpointID p = CheckpointID c \<and>
     approval_VisitID p = approval_VisitID c \<and> approval_NodeID p = approval_NodeID c \<and>
     approval_AttemptID p = approval_AttemptID c \<and> CheckpointRevision p = CheckpointRevision c \<and>
     CandidateArtifactID p = CandidateArtifactID c \<and>
     CandidateArtifactVersion p = CandidateArtifactVersion c \<and> CandidateDigest p = CandidateDigest c \<and>
     approval_CheckpointMode p = approval_CheckpointMode c \<and> MaxRevisions p = MaxRevisions c \<and>
     approval_ScopeDigest p = approval_ScopeDigest c \<and> approval_PolicyDigest p = approval_PolicyDigest c"

lemma same_request_refl [simp]: "same_request c c"
  by (simp add: same_request_def)

lemma same_request_trans: "same_request p q \<Longrightarrow> same_request q c \<Longrightarrow> same_request p c"
  by (simp add: same_request_def)

lemma approval_switch_request: "approval_switch c e = Inr p \<Longrightarrow> same_request p c"
  by (elim approval_switch_cases decide_approval_row) (simp_all add: same_request_def)

lemma create_approval_stamped: "create_approval e = Inr p \<Longrightarrow> stamped e p \<and> CreatedAt p = RecordedAt e"
  by (auto simp: create_approval_def stamped_def split: if_splits)

interpretation approval_reducer: projection_reducer ReduceApproval AggregateApproval
  unfolding ReduceApproval_def using create_approval_stamped approval_switch_request
  by (intro reduce_aggregate_contract) (auto simp: same_request_def)

section \<open>Resolution\<close>

lemma resolved_refused:
  assumes "approval_Status c \<noteq> ApprovalPending"
  shows "ReduceApproval (Some c) e \<noteq> Reduced p"
  using assms unfolding ReduceApproval_def by (metis approval_switch_pending reduced_switch)

lemma resolved_replay:
  assumes "approval_Status c \<noteq> ApprovalPending" and "replay ReduceApproval (Some c) es = Inr (Some p)"
  shows "p = c"
  using assms(2)
proof (induction es)
  case (Cons e es)
  then show ?case using resolved_refused [OF assms(1), of e] by (auto split: reduction.splits)
qed simp

text \<open>The event grants the approval: a decision with a granting action, on the digests of the request
  when it has a checkpoint, recorded in the projection with its actor and command.\<close>

definition grants :: "Event \<Rightarrow> ApprovalProjection \<Rightarrow> bool" where
  "grants e p \<longleftrightarrow> Kind e = ''approval.decided'' \<and> AggregateID e = ResourceID p \<and>
    (\<exists>action scope policy remark. decision_data e = Inr (action, scope, policy, remark) \<and>
       action \<in> {''approve'', ''acknowledge'', ''satisfy_external'', ''allow_once'', ''allow_for_session''} \<and>
       (CheckpointID p = [] \<or> scope = approval_ScopeDigest p \<and> policy = approval_PolicyDigest p) \<and>
       approval_Decision p = Some \<lparr>decision_Action = action, decision_ActionKey = CommandID e,
         decision_Comment = remark, decision_Actor = event_actor e, DecidedAt = RecordedAt e\<rparr>)"

lemma decided_status_approved:
  "decided_status action = Some ApprovalApproved \<longleftrightarrow>
     action \<in> {''approve'', ''acknowledge'', ''satisfy_external'', ''allow_once'', ''allow_for_session''}"
  by (simp add: decided_status_def)

lemma approved_step:
  assumes r: "ReduceApproval c e = Reduced p" and ok: "approval_Status p = ApprovalApproved"
  shows "grants e p"
proof (cases c)
  case None
  with r have "create_approval e = Inr p" unfolding ReduceApproval_def by (auto dest: reduced_create)
  with ok show ?thesis by (auto simp: create_approval_def split: if_splits)
next
  case (Some q)
  with r obtain p' where sw: "approval_switch q e = Inr p'" and p: "p = advance e p'"
    unfolding ReduceApproval_def by (auto elim: reduced_switch)
  have "AggregateID e = ResourceID p" using approval_reducer.advanced [OF r [unfolded Some]] by (simp add: stamped_def)
  with sw ok p approval_switch_pending [OF sw] show ?thesis
    by (elim approval_switch_cases decide_approval_row)
      (auto simp: grants_def advance_def decided_status_approved)
qed

lemma approved_replay:
  assumes "replay ReduceApproval c es = Inr (Some p)" and "approval_Status p = ApprovalApproved"
    and "\<And>q. c = Some q \<Longrightarrow> approval_Status q = ApprovalPending"
  shows "\<exists>e \<in> set es. grants e p"
  using assms
proof (induction es arbitrary: c)
  case Nil
  then show ?case by auto
next
  case (Cons e es)
  show ?case
  proof (cases "ReduceApproval c e")
    case (Reduced q)
    show ?thesis
    proof (cases "approval_Status q = ApprovalPending")
      case True
      with Cons.IH [of "Some q"] Cons.prems Reduced show ?thesis by auto
    next
      case False
      with Cons.prems Reduced have "p = q" using resolved_replay by simp
      with approved_step Reduced Cons.prems(2) show ?thesis by auto
    qed
  qed (use Cons in auto)
qed

section \<open>Properties\<close>


definition example_approval_events :: "Event list" where
  \<open>example_approval_events = map (\<lambda>(revision, kind, d).
     \<lparr>SchemaVersion = 1, EventID = ''event_1'', AggregateType = AggregateApproval,
      AggregateID = ''approval_1'', Kind = kind, OccurredAt = 0, CorrelationID = ''run_1'',
      CausationID = None, CommandID = ''command_1'',
      event_actor = \<lparr>ActorType = ActorUser, ActorID = ''operator''\<rparr>, Data = d, Metadata = [],
      GlobalPosition = revision, AggregateRevision = revision, RecordedAt = 0\<rparr>)
    [(1, ''approval.requested'', ''{"runId":"r","class":"external_delivery","scopeDigest":"s","policyDigest":"p"}''),
     (2, ''approval.decided'', ''{"action":"approve"}'')]\<close>

lemma example_approval_replay:
  "case replay ReduceApproval None example_approval_events of
     Inr (Some p) \<Rightarrow> approval_Status p = ApprovalApproved | _ \<Rightarrow> False"
  by code_simp


text \<open>A resolved approval is final: once the status is no longer \<open>pending\<close>, every further event of
  the approval is refused with an error, so the decision, its actor and the status never change.\<close>

theorem approval_resolution_final:
  assumes "approval_Status c \<noteq> ApprovalPending"
    and "SchemaVersion e = 1" and "AggregateType e = AggregateApproval"
  shows "\<exists>err. ReduceApproval (Some c) e = Failed True err"
proof (cases "ReduceApproval (Some c) e")
  case Ignored
  with approval_reducer.ignored assms(2,3) show ?thesis by blast
next
  case (Reduced p)
  with resolved_refused assms(1) show ?thesis by blast
next
  case (Failed b err)
  with assms(2,3) show ?thesis
    by (auto simp: ReduceApproval_def reduce_aggregate_def elim: of_result.elims)
qed

definition example_denied :: ApprovalProjection where
  "example_denied = \<lparr>ResourceID = ''approval_1'', ResourceVersion = 2, LastGlobalPosition = 2,
     CreatedAt = 0, UpdatedAt = 0, approval_RunID = ''r'', Class = ''external_delivery'',
     approval_Status = ApprovalDenied, CheckpointID = [], approval_VisitID = [], approval_NodeID = [],
     approval_AttemptID = [], CheckpointRevision = 0, CandidateArtifactID = [],
     CandidateArtifactVersion = 0, CandidateDigest = [], approval_CheckpointMode = [],
     MaxRevisions = None, approval_ScopeDigest = ''s'', approval_PolicyDigest = ''p'',
     approval_Decision = None\<rparr>"

theorem approval_resolution_final_witness:
  "\<exists>err. ReduceApproval (Some example_denied) (example_approval_events ! 1) = Failed True err"
  by (rule approval_resolution_final) (simp_all add: example_denied_def example_approval_events_def)

end
