(* ===== verification/WorkReducer.thy ===== *)
theory WorkReducer
  imports Reducer
begin

text \<open>
  The reducers of \<open>src/runtime/src/core/projection/work.go\<close>: projects, work items with their deletion
  state and routing intent, stories, and implementation points with their revisions and
  dependencies. The lemmas show that deletion only ever moves forward and blocks new work, that the
  dependencies of a point are sorted, distinct and exclude the point, and that a point is published
  only after it was accepted and committed in the same revision.
\<close>

section \<open>Projects\<close>

definition create_project :: "Event \<Rightarrow> reduce_error + ProjectProjection" where
  "create_project event =
    (if Kind event \<noteq> ''project.created'' then Inl (FirstEventError (AggregateID event) (Kind event))
     else result_bind (decodeData event (\<lambda>ms. do {
         name \<leftarrow> get_string ''Name'' ms; hash \<leftarrow> get_string ''SourceHash'' ms; Some (name, hash) }))
       (\<lambda>(name, hash).
         if name = [] \<or> \<not> validSourceHash hash then Inl (EventDataError (Kind event))
         else Inr \<lparr>ResourceID = AggregateID event, ResourceVersion = AggregateRevision event,
           LastGlobalPosition = GlobalPosition event, CreatedAt = RecordedAt event,
           UpdatedAt = RecordedAt event, project_Name = name, project_SourceHash = hash,
           project_Status = ProjectActive\<rparr>))"

definition project_switch :: "ProjectProjection \<Rightarrow> Event \<Rightarrow> reduce_error + ProjectProjection" where
  "project_switch current event =
    (if Kind event = ''project.archived'' \<and> project_Status current = ProjectActive
     then Inr (current\<lparr>project_Status := ProjectArchived\<rparr>)
     else Inl (invalidTransition ''project'' (ResourceID current)
       (project_status_string (project_Status current)) (Kind event)))"

definition ReduceProject :: "ProjectProjection option \<Rightarrow> Event \<Rightarrow> ProjectProjection reduction" where
  "ReduceProject = reduce_aggregate AggregateProject create_project project_switch"

section \<open>Work items\<close>

text \<open>The loops that refuse an empty, untrimmed or repeated entry.\<close>

fun distinct_trimmed :: "string list \<Rightarrow> string set \<Rightarrow> bool" where
  "distinct_trimmed [] seen = True"
| "distinct_trimmed (v # vs) seen =
     (if v = [] \<or> untrimmed v \<or> v \<in> seen then False else distinct_trimmed vs (insert v seen))"

definition override_fields :: "WorkRoutingIntent \<Rightarrow> bool" where
  "override_fields intent \<longleftrightarrow> intent_WorkflowID intent \<noteq> [] \<or> intent_WorkflowVersion intent \<noteq> [] \<or>
     intent_EntryNodeID intent \<noteq> [] \<or> intent_TerminalNodeIDs intent \<noteq> []"

definition validateWorkRoutingIntent :: "WorkRoutingIntent \<Rightarrow> bool" where
  "validateWorkRoutingIntent intent \<longleftrightarrow>
    (if untrimmed (intent_WorkflowID intent) \<or> untrimmed (intent_WorkflowVersion intent) \<or>
        untrimmed (intent_EntryNodeID intent) then False
     else if \<not> distinct_trimmed (intent_TerminalNodeIDs intent) {} then False
     else if intent_Mode intent = WorkRoutingAutomatic then \<not> override_fields intent
     else if intent_Mode intent = WorkRoutingOverride then intent_WorkflowID intent \<noteq> []
     else False)"

definition decode_routing_intent :: "members \<Rightarrow> WorkRoutingIntent option" where
  "decode_routing_intent ms = do {
     mode \<leftarrow> get_string ''mode'' ms; workflow \<leftarrow> get_string ''workflowId'' ms;
     version \<leftarrow> get_string ''workflowVersion'' ms; entry \<leftarrow> get_string ''entryNodeId'' ms;
     terminals \<leftarrow> get_strings ''terminalNodeIds'' ms;
     Some \<lparr>intent_Mode = mode, intent_WorkflowID = workflow, intent_WorkflowVersion = version,
       intent_EntryNodeID = entry, intent_TerminalNodeIDs = terminals\<rparr> }"

definition create_work :: "Event \<Rightarrow> reduce_error + WorkItemProjection" where
  "create_work event =
    (if Kind event \<noteq> ''work.created'' then Inl (FirstEventError (AggregateID event) (Kind event))
     else result_bind (decodeData event (\<lambda>ms. do {
         project \<leftarrow> get_string ''projectId'' ms; title \<leftarrow> get_string ''title'' ms;
         details \<leftarrow> get_string ''details'' ms; evidence \<leftarrow> get_strings ''evidence'' ms;
         routing \<leftarrow> get_struct ''routingIntent'' ms; intent \<leftarrow> decode_routing_intent routing;
         hash \<leftarrow> get_string ''sourceHash'' ms; priority \<leftarrow> get_int ''priority'' ms;
         Some (project, title, details, evidence, intent, hash, priority) }))
       (\<lambda>(project, title, details, evidence, intent, hash, priority).
         let intent' = (if intent_Mode intent = [] then intent\<lparr>intent_Mode := WorkRoutingAutomatic\<rparr> else intent) in
         if project = [] \<or> title = [] \<or> \<not> validSourceHash hash \<or> priority < 0
         then Inl (EventDataError (Kind event))
         else if intent_Mode intent = [] \<and> override_fields intent then Inl (EventDataError (Kind event))
         else if \<not> validateWorkRoutingIntent intent' then Inl (EventDataError (Kind event))
         else if \<not> distinct_trimmed evidence {} then Inl (EventDataError (Kind event))
         else Inr \<lparr>ResourceID = AggregateID event, ResourceVersion = AggregateRevision event,
           LastGlobalPosition = GlobalPosition event, CreatedAt = RecordedAt event,
           UpdatedAt = RecordedAt event, ProjectID = project, work_Title = title,
           Deletion = WorkRetained, Details = details, work_Evidence = evidence,
           RoutingIntent = intent', work_SourceHash = hash, work_Priority = priority,
           work_Status = WorkItemOpen\<rparr>))"

definition refuse_work :: "WorkItemProjection \<Rightarrow> Event \<Rightarrow> reduce_error + 'a" where
  "refuse_work current event = Inl (invalidTransition ''work item'' (ResourceID current)
     (work_status_string (work_Status current)) (Kind event))"

definition work_switch :: "WorkItemProjection \<Rightarrow> Event \<Rightarrow> reduce_error + WorkItemProjection" where
  "work_switch current event =
    (let kind = Kind event in
     if kind = ''work.deletion_requested'' then
       (if Deletion current \<noteq> WorkRetained then Inl (EventDataError kind)
        else Inr (current\<lparr>Deletion := WorkDeleting\<rparr>))
     else if kind = ''work.deleted'' then
       (if Deletion current \<noteq> WorkDeleting then Inl (EventDataError kind)
        else Inr (current\<lparr>Deletion := WorkDeleted\<rparr>))
     else if kind = ''work.started'' then
       (if Deletion current \<noteq> WorkRetained then Inl (EventDataError kind)
        else if work_Status current \<noteq> WorkItemOpen then refuse_work current event
        else Inr (current\<lparr>work_Status := WorkItemActive\<rparr>))
     else if kind = ''work.completed'' then
       (if work_Status current \<noteq> WorkItemOpen \<and> work_Status current \<noteq> WorkItemActive
        then refuse_work current event
        else Inr (current\<lparr>work_Status := WorkItemCompleted\<rparr>))
     else if kind = ''work.cancelled'' then
       (if work_terminal (work_Status current) then refuse_work current event
        else Inr (current\<lparr>work_Status := WorkItemCancelled\<rparr>))
     else refuse_work current event)"

definition ReduceWorkItem :: "WorkItemProjection option \<Rightarrow> Event \<Rightarrow> WorkItemProjection reduction" where
  "ReduceWorkItem = reduce_aggregate AggregateWork create_work work_switch"

section \<open>Stories\<close>

definition create_story :: "Event \<Rightarrow> reduce_error + StoryProjection" where
  "create_story event =
    (if Kind event \<noteq> ''story.created'' then Inl (FirstEventError (AggregateID event) (Kind event))
     else result_bind (decodeData event (\<lambda>ms. do {
         workItem \<leftarrow> get_string ''workItemId'' ms; title \<leftarrow> get_string ''title'' ms;
         hash \<leftarrow> get_string ''sourceHash'' ms; priority \<leftarrow> get_int ''priority'' ms;
         position \<leftarrow> get_int ''position'' ms; Some (workItem, title, hash, priority, position) }))
       (\<lambda>(workItem, title, hash, priority, position).
         if workItem = [] \<or> title = [] \<or> \<not> validSourceHash hash \<or> priority < 0 \<or> position < 0
         then Inl (EventDataError (Kind event))
         else Inr \<lparr>ResourceID = AggregateID event, ResourceVersion = AggregateRevision event,
           LastGlobalPosition = GlobalPosition event, CreatedAt = RecordedAt event,
           UpdatedAt = RecordedAt event, story_WorkItemID = workItem, story_Title = title,
           story_SourceHash = hash, story_Priority = priority, story_Position = position,
           story_Status = StoryPlanned\<rparr>))"

definition story_switch :: "StoryProjection \<Rightarrow> Event \<Rightarrow> reduce_error + StoryProjection" where
  "story_switch current event =
    (let kind = Kind event; status = story_Status current;
         move = (\<lambda>allowed s. if allowed then Inr (current\<lparr>story_Status := s\<rparr>)
           else Inl (invalidTransition ''story'' (ResourceID current) (story_status_string status) kind)) in
     if kind = ''story.ready'' then move (status = StoryPlanned) StoryReady
     else if kind = ''story.started'' then move (status = StoryReady) StoryRunning
     else if kind = ''story.completed'' then move (status = StoryRunning) StoryCompleted
     else if kind = ''story.cancelled'' then move (\<not> story_terminal status) StoryCancelled
     else if kind = ''story.retired'' then
       move (\<not> (status = StoryRunning \<or> story_terminal status)) StoryRetired
     else move False status)"

definition ReduceStory :: "StoryProjection option \<Rightarrow> Event \<Rightarrow> StoryProjection reduction" where
  "ReduceStory = reduce_aggregate AggregateStory create_story story_switch"

section \<open>Points\<close>

fun valid_dependencies :: "string \<Rightarrow> string list \<Rightarrow> string set \<Rightarrow> bool" where
  "valid_dependencies pointID [] seen = True"
| "valid_dependencies pointID (d # ds) seen =
     (if d = [] \<or> d = pointID \<or> d \<in> seen then False else valid_dependencies pointID ds (insert d seen))"

text \<open>\<open>decodePointContract\<close>: the projection it returns carries only the contract, so it is returned as
  the seven fields it fills.\<close>

type_synonym point_contract = "string \<times> uint64 \<times> string \<times> string \<times> int \<times> int \<times> string list"

definition decodePointContract :: "Event \<Rightarrow> string \<Rightarrow> uint64 \<Rightarrow> reduce_error + point_contract" where
  "decodePointContract event pointID wantRevision =
    result_bind (decodeData event (\<lambda>ms. do {
        story \<leftarrow> get_string ''storyId'' ms; revision \<leftarrow> get_uint64 ''revision'' ms;
        title \<leftarrow> get_string ''title'' ms; hash \<leftarrow> get_string ''sourceHash'' ms;
        priority \<leftarrow> get_int ''priority'' ms; position \<leftarrow> get_int ''position'' ms;
        dependencies \<leftarrow> get_strings ''dependencies'' ms;
        Some (story, revision, title, hash, priority, position, dependencies) }))
      (\<lambda>(story, revision, title, hash, priority, position, dependencies).
        if story = [] \<or> revision \<noteq> wantRevision \<or> title = [] \<or> \<not> validSourceHash hash \<or>
           priority < 0 \<or> position < 0
        then Inl (EventDataError (Kind event))
        else if \<not> valid_dependencies pointID (sort dependencies) {} then Inl (EventDataError (Kind event))
        else Inr (story, revision, title, hash, priority, position, sort dependencies))"

definition point_of_contract :: "point_contract \<Rightarrow> string \<Rightarrow> Event \<Rightarrow> timestamp \<Rightarrow> PointProjection" where
  "point_of_contract contract pointID event createdAt =
    (case contract of (story, revision, title, hash, priority, position, dependencies) \<Rightarrow>
      \<lparr>ResourceID = pointID, ResourceVersion = AggregateRevision event,
       LastGlobalPosition = GlobalPosition event, CreatedAt = createdAt, UpdatedAt = RecordedAt event,
       StoryID = story, point_Revision = revision, point_Title = title, point_SourceHash = hash,
       point_Priority = priority, point_Position = position, Dependencies = dependencies,
       point_Status = PointPlanned\<rparr>)"

definition create_point :: "Event \<Rightarrow> reduce_error + PointProjection" where
  "create_point event =
    (if Kind event \<noteq> ''point.created'' then Inl (FirstEventError (AggregateID event) (Kind event))
     else result_bind (decodePointContract event (AggregateID event) 1) (\<lambda>contract.
       Inr (point_of_contract contract (AggregateID event) event (RecordedAt event))))"

definition move_point :: "PointProjection \<Rightarrow> Event \<Rightarrow> PointStatus list \<Rightarrow> PointStatus \<Rightarrow>
    reduce_error + PointProjection" where
  "move_point current event allowed status =
    (if point_Status current \<in> set allowed then Inr (current\<lparr>point_Status := status\<rparr>)
     else Inl (invalidTransition ''point'' (ResourceID current)
       (point_status_string (point_Status current)) (Kind event)))"

definition revise_point :: "PointProjection \<Rightarrow> Event \<Rightarrow> reduce_error + PointProjection" where
  "revise_point current event =
    (if point_Status current \<notin> {PointFailed, PointRejected, PointSuperseded}
     then Inl (invalidTransition ''point'' (ResourceID current)
       (point_status_string (point_Status current)) (Kind event))
     else result_bind (decodePointContract event (AggregateID event) (point_Revision current + 1))
       (\<lambda>contract. Inr (point_of_contract contract (ResourceID current) event (CreatedAt current))))"

definition point_switch :: "PointProjection \<Rightarrow> Event \<Rightarrow> reduce_error + PointProjection" where
  "point_switch current event =
    (let kind = Kind event in
     if kind = ''point.ready'' then move_point current event [PointPlanned] PointReady
     else if kind = ''point.started'' then move_point current event [PointReady] PointRunning
     else if kind = ''point.candidate_produced'' then move_point current event [PointRunning] PointValidating
     else if kind = ''point.validation_failed'' then move_point current event [PointValidating] PointFailed
     else if kind = ''point.awaiting_approval'' then
       move_point current event [PointValidating] PointAwaitingApproval
     else if kind = ''point.changes_requested'' then
       move_point current event [PointAwaitingApproval] PointRunning
     else if kind = ''point.accepted'' then
       move_point current event [PointValidating, PointAwaitingApproval] PointAccepted
     else if kind = ''point.rejected'' then move_point current event [PointAwaitingApproval] PointRejected
     else if kind = ''point.committed'' then move_point current event [PointAccepted] PointCommitted
     else if kind = ''point.published'' then move_point current event [PointCommitted] PointPublished
     else if kind = ''point.superseded'' then
       move_point current event [PointCommitted, PointPublished] PointSuperseded
     else if kind = ''point.revised'' then revise_point current event
     else if kind = ''point.reconcile_required'' then
       (if point_terminal (point_Status current) then move_point current event [] PointReconcileRequired
        else Inr (current\<lparr>point_Status := PointReconcileRequired\<rparr>))
     else move_point current event [] PointPlanned)"

definition ReducePoint :: "PointProjection option \<Rightarrow> Event \<Rightarrow> PointProjection reduction" where
  "ReducePoint = reduce_aggregate AggregatePoint create_point point_switch"

section \<open>The contract towards the store\<close>

lemmas work_switch_defs = work_switch_def refuse_work_def

lemma work_switch_keeps:
  "work_switch c e = Inr p \<Longrightarrow> ResourceID p = ResourceID c \<and> CreatedAt p = CreatedAt c \<and>
     ProjectID p = ProjectID c \<and> work_Title p = work_Title c \<and> Details p = Details c \<and>
     work_Evidence p = work_Evidence c \<and> RoutingIntent p = RoutingIntent c \<and>
     work_SourceHash p = work_SourceHash c \<and> work_Priority p = work_Priority c"
  by (auto simp: work_switch_defs Let_def split: if_splits)

lemma create_project_stamped: "create_project e = Inr p \<Longrightarrow> stamped e p \<and> CreatedAt p = RecordedAt e"
  by (auto simp: create_project_def stamped_def split: if_splits)

lemma create_work_stamped: "create_work e = Inr p \<Longrightarrow> stamped e p \<and> CreatedAt p = RecordedAt e"
  by (auto simp: create_work_def stamped_def Let_def split: if_splits)

lemma create_story_stamped: "create_story e = Inr p \<Longrightarrow> stamped e p \<and> CreatedAt p = RecordedAt e"
  by (auto simp: create_story_def stamped_def split: if_splits)

lemma create_point_stamped: "create_point e = Inr p \<Longrightarrow> stamped e p \<and> CreatedAt p = RecordedAt e"
  by (auto simp: create_point_def point_of_contract_def stamped_def split: if_splits)

lemma point_switch_cases:
  assumes "point_switch c e = Inr p"
  obtains s where "p = c\<lparr>point_Status := s\<rparr>" and "s \<noteq> PointPlanned"
  | "Kind e = ''point.revised''" and "revise_point c e = Inr p"
proof -
  have "(\<exists>s. p = c\<lparr>point_Status := s\<rparr> \<and> s \<noteq> PointPlanned) \<or>
      Kind e = ''point.revised'' \<and> revise_point c e = Inr p"
    using assms
    by (auto simp: point_switch_def move_point_def Let_def simp del: PointProjection.update_convs
        split: if_splits)
  then show ?thesis using that by blast
qed

lemma point_switch_keeps:
  "point_switch c e = Inr p \<Longrightarrow> ResourceID p = ResourceID c \<and> CreatedAt p = CreatedAt c"
  by (elim point_switch_cases) (auto simp: revise_point_def point_of_contract_def split: if_splits)

interpretation project_reducer: projection_reducer ReduceProject AggregateProject
  unfolding ReduceProject_def using create_project_stamped
  by (intro reduce_aggregate_contract) (auto simp: project_switch_def split: if_splits)

interpretation work_reducer: projection_reducer ReduceWorkItem AggregateWork
  unfolding ReduceWorkItem_def using create_work_stamped work_switch_keeps
  by (intro reduce_aggregate_contract) blast+

interpretation story_reducer: projection_reducer ReduceStory AggregateStory
  unfolding ReduceStory_def using create_story_stamped
  by (intro reduce_aggregate_contract) (auto simp: story_switch_def Let_def split: if_splits)

interpretation point_reducer: projection_reducer ReducePoint AggregatePoint
  unfolding ReducePoint_def using create_point_stamped point_switch_keeps
  by (intro reduce_aggregate_contract) blast+

section \<open>Deletion of work items\<close>

fun deletion_rank :: "WorkDeletionState \<Rightarrow> nat" where
  "deletion_rank WorkRetained = 0"
| "deletion_rank WorkDeleting = 1"
| "deletion_rank WorkDeleted = 2"

lemma work_switch_deletion:
  assumes "work_switch c e = Inr p"
  shows "deletion_rank (Deletion c) \<le> deletion_rank (Deletion p)"
    and "Deletion c \<noteq> WorkRetained \<Longrightarrow> Kind e \<noteq> ''work.started'' \<and> Kind e \<noteq> ''work.deletion_requested''"
    and "work_terminal (work_Status c) \<Longrightarrow> work_Status p = work_Status c"
  using assms by (auto simp: work_switch_defs Let_def work_terminal_def split: if_splits)

lemma ReduceWorkItem_deletion:
  assumes "ReduceWorkItem (Some c) e = Reduced p"
  shows "deletion_rank (Deletion c) \<le> deletion_rank (Deletion p)"
    and "Deletion c \<noteq> WorkRetained \<Longrightarrow> Kind e \<noteq> ''work.started'' \<and> Kind e \<noteq> ''work.deletion_requested''"
    and "work_terminal (work_Status c) \<Longrightarrow> work_Status p = work_Status c"
proof -
  obtain p' where sw: "work_switch c e = Inr p'" and p: "p = advance e p'"
    using assms unfolding ReduceWorkItem_def by (auto elim: reduced_switch)
  show "deletion_rank (Deletion c) \<le> deletion_rank (Deletion p)"
    and "Deletion c \<noteq> WorkRetained \<Longrightarrow> Kind e \<noteq> ''work.started'' \<and> Kind e \<noteq> ''work.deletion_requested''"
    and "work_terminal (work_Status c) \<Longrightarrow> work_Status p = work_Status c"
    using work_switch_deletion [OF sw] p by (simp_all add: advance_def)
qed

lemma deletion_rank_retained: "deletion_rank d = 0 \<longleftrightarrow> d = WorkRetained"
  by (cases d) simp_all

lemma work_replay_deletion:
  assumes "replay ReduceWorkItem (Some c) es = Inr (Some p)"
    and "\<forall>e \<in> set es. AggregateType e = AggregateWork"
  shows "deletion_rank (Deletion c) \<le> deletion_rank (Deletion p) \<and>
    (Deletion c \<noteq> WorkRetained \<longrightarrow>
       (\<forall>e \<in> set es. Kind e \<noteq> ''work.started'' \<and> Kind e \<noteq> ''work.deletion_requested'')) \<and>
    (work_terminal (work_Status c) \<longrightarrow> work_Status p = work_Status c)"
  using assms
proof (induction es arbitrary: c)
  case (Cons e es)
  from Cons.prems obtain q where q: "ReduceWorkItem (Some c) e = Reduced q"
    and rest: "replay ReduceWorkItem (Some q) es = Inr (Some p)"
    using work_reducer.unsupported [of e "Some c"] work_reducer.ignored [of e "Some c"]
    by (auto split: reduction.splits)
  note step = ReduceWorkItem_deletion [OF q] and IH = Cons.IH [OF rest]
  have "Deletion c \<noteq> WorkRetained \<Longrightarrow> Deletion q \<noteq> WorkRetained"
    using step(1) deletion_rank_retained by fastforce
  with step IH Cons.prems(2) show ?case by auto
qed simp

section \<open>Publication of points\<close>

definition point_row_ok :: "PointProjection \<Rightarrow> bool" where
  "point_row_ok p \<longleftrightarrow> StoryID p \<noteq> [] \<and> point_Title p \<noteq> [] \<and> validSourceHash (point_SourceHash p) \<and>
     0 \<le> point_Priority p \<and> 0 \<le> point_Position p \<and> sorted (Dependencies p) \<and>
     distinct (Dependencies p) \<and> ResourceID p \<notin> set (Dependencies p) \<and> [] \<notin> set (Dependencies p)"

lemma valid_dependencies_set:
  "valid_dependencies i ds seen \<longleftrightarrow> distinct ds \<and> i \<notin> set ds \<and> [] \<notin> set ds \<and> set ds \<inter> seen = {}"
  by (induction ds arbitrary: seen) auto

lemma contract_row:
  assumes "decodePointContract e i w = Inr contract"
  shows "point_row_ok (point_of_contract contract i e t) \<and>
    point_Revision (point_of_contract contract i e t) = w"
  using assms
  by (auto simp: decodePointContract_def point_of_contract_def point_row_ok_def valid_dependencies_set
      split: if_splits)

lemma point_row_step:
  assumes "\<And>q. c = Some q \<Longrightarrow> point_row_ok q" and "ReducePoint c e = Reduced p"
  shows "point_row_ok p"
proof (cases c)
  case None
  with assms(2) have "create_point e = Inr p" unfolding ReducePoint_def by (auto dest: reduced_create)
  then show ?thesis using contract_row by (auto simp: create_point_def split: if_splits)
next
  case (Some q)
  have same: "AggregateID e = ResourceID q"
    using point_reducer.advanced [OF assms(2) [unfolded Some]] by (auto simp: stamped_def)
  from Some assms(2) obtain p' where sw: "point_switch q e = Inr p'" and p: "p = advance e p'"
    unfolding ReducePoint_def by (auto elim: reduced_switch)
  have "point_row_ok p'" using sw
  proof (cases rule: point_switch_cases)
    case (1 s)
    with assms(1) Some show ?thesis by (simp add: point_row_ok_def)
  next
    case 2
    with contract_row same show ?thesis by (auto simp: revise_point_def split: if_splits)
  qed
  with p show ?thesis by (simp add: point_row_ok_def advance_def)
qed

text \<open>The status before an event that leads to a given status, and the kind of that event.\<close>

lemma point_switch_source:
  assumes "point_switch c e = Inr p"
  shows "point_Status p = PointPublished \<Longrightarrow> Kind e = ''point.published'' \<and> point_Status c = PointCommitted"
    and "point_Status p = PointCommitted \<Longrightarrow> Kind e = ''point.committed'' \<and> point_Status c = PointAccepted"
    and "point_Status p = PointAccepted \<Longrightarrow> Kind e = ''point.accepted'' \<and>
      point_Status c \<in> {PointValidating, PointAwaitingApproval}"
    and "point_Status p \<in> {PointPublished, PointCommitted, PointAccepted} \<Longrightarrow>
      point_Revision p = point_Revision c"
  using assms
  by (auto simp: point_switch_def move_point_def revise_point_def point_of_contract_def Let_def
      split: if_splits)

lemma point_last_event:
  assumes "replay ReducePoint None es = Inr (Some p)" and "\<forall>e \<in> set es. AggregateType e = AggregatePoint"
    and "point_Status p \<noteq> PointPlanned"
  obtains fs e q p' where "es = fs @ [e]" and "replay ReducePoint None fs = Inr (Some q)"
    and "point_switch q e = Inr p'" and "p = advance e p'"
proof (cases es rule: rev_cases)
  case Nil
  with assms(1) show ?thesis by simp
next
  case (snoc fs e)
  with assms(1) obtain c where fs: "replay ReducePoint None fs = Inr c"
    and last: "replay ReducePoint c [e] = Inr (Some p)" by (auto simp: replay_append)
  with assms(2) snoc have step: "ReducePoint c e = Reduced p"
    using point_reducer.unsupported [of e c] point_reducer.ignored [of e c]
    by (auto split: reduction.splits)
  show ?thesis
  proof (cases c)
    case None
    with step have "create_point e = Inr p" unfolding ReducePoint_def by (auto dest: reduced_create)
    with assms(3) show ?thesis
      by (auto simp: create_point_def point_of_contract_def split: if_splits prod.splits)
  next
    case (Some q)
    with step obtain p' where "point_switch q e = Inr p'" "p = advance e p'"
      unfolding ReducePoint_def by (auto elim: reduced_switch)
    with that snoc fs Some show ?thesis by blast
  qed
qed

lemma advance_point [simp]: "point_Status (advance e p) = point_Status p"
  "point_Revision (advance e p) = point_Revision p"
  by (simp_all add: advance_def)

section \<open>Properties\<close>

text \<open>The deletion of a work item only moves forward, from retained to deleting to deleted, along
  every accepted stream; once it has been requested, no event starts the item or requests deletion
  again, and the outcome of a completed or cancelled item never changes.\<close>

theorem work_deletion_forward:
  assumes "replay ReduceWorkItem (Some c) es = Inr (Some p)"
    and "\<forall>e \<in> set es. AggregateType e = AggregateWork"
  shows "deletion_rank (Deletion c) \<le> deletion_rank (Deletion p) \<and>
    (Deletion c \<noteq> WorkRetained \<longrightarrow>
       (\<forall>e \<in> set es. Kind e \<noteq> ''work.started'' \<and> Kind e \<noteq> ''work.deletion_requested'')) \<and>
    (work_terminal (work_Status c) \<longrightarrow> work_Status p = work_Status c)"
  using assms by (rule work_replay_deletion)

definition work_event :: "uint64 \<Rightarrow> string \<Rightarrow> Event" where
  "work_event revision kind = \<lparr>SchemaVersion = 1, EventID = ''event_1'', AggregateType = AggregateWork,
     AggregateID = ''work_1'', Kind = kind, OccurredAt = 0, CorrelationID = ''work_1'', CausationID = None,
     CommandID = ''command_1'', event_actor = \<lparr>ActorType = ActorUser, ActorID = ''operator''\<rparr>,
     Data = ''{}'', Metadata = ''{}'', GlobalPosition = revision, AggregateRevision = revision,
     RecordedAt = 0\<rparr>"

definition example_work :: "WorkDeletionState \<Rightarrow> uint64 \<Rightarrow> WorkItemProjection" where
  "example_work deletion revision = \<lparr>ResourceID = ''work_1'', ResourceVersion = revision,
     LastGlobalPosition = revision, CreatedAt = 0, UpdatedAt = 0, ProjectID = ''project_1'',
     work_Title = ''t'', Deletion = deletion, Details = [], work_Evidence = [],
     RoutingIntent = \<lparr>intent_Mode = ''automatic'', intent_WorkflowID = [], intent_WorkflowVersion = [],
       intent_EntryNodeID = [], intent_TerminalNodeIDs = []\<rparr>,
     work_SourceHash = [], work_Priority = 0, work_Status = WorkItemCompleted\<rparr>"

theorem work_deletion_forward_witness:
  "replay ReduceWorkItem (Some (example_work WorkRetained 3))
     [work_event 4 ''work.deletion_requested'', work_event 5 ''work.deleted''] =
     Inr (Some (example_work WorkDeleted 5)) \<and>
   deletion_rank (Deletion (example_work WorkRetained 3)) \<le> deletion_rank (Deletion (example_work WorkDeleted 5))"
proof -
  have r: "replay ReduceWorkItem (Some (example_work WorkRetained 3))
     [work_event 4 ''work.deletion_requested'', work_event 5 ''work.deleted''] =
     Inr (Some (example_work WorkDeleted 5))"
    by (simp add: example_work_def work_event_def ReduceWorkItem_def reduce_aggregate_def
        validateCurrent_def work_switch_def advance_def)
  then show ?thesis using work_deletion_forward [OF r] by (simp add: work_event_def)
qed

text \<open>A point is published only along the accepted path: a stream that ends in status
  \<open>published\<close> ends with the events \<open>point.accepted\<close>, \<open>point.committed\<close> and \<open>point.published\<close>, in this
  order and all for the same revision of the point, and the point was validating or awaiting
  approval before the first of them.\<close>

theorem point_publication_path:
  assumes "replay ReducePoint None es = Inr (Some p)"
    and "\<forall>e \<in> set es. AggregateType e = AggregatePoint" and "point_Status p = PointPublished"
  shows "\<exists>fs a b c q. es = fs @ [a, b, c] \<and> Kind a = ''point.accepted'' \<and> Kind b = ''point.committed'' \<and>
    Kind c = ''point.published'' \<and> replay ReducePoint None fs = Inr (Some q) \<and>
    point_Status q \<in> {PointValidating, PointAwaitingApproval} \<and> point_Revision q = point_Revision p"
proof -
  obtain es1 c p1 p1' where 1: "es = es1 @ [c]" "replay ReducePoint None es1 = Inr (Some p1)"
    "point_switch p1 c = Inr p1'" "p = advance c p1'"
    using point_last_event [OF assms(1,2)] assms(3) by (metis PointStatus.distinct(13))
  note s1 = point_switch_source [OF 1(3)]
  have "point_Status p1 = PointCommitted" and own1: "\<forall>e \<in> set es1. AggregateType e = AggregatePoint"
    using s1(1) 1 assms(2,3) by simp_all
  then have "point_Status p1 \<noteq> PointPlanned" by simp
  then obtain es2 b p2 p2' where 2: "es1 = es2 @ [b]" "replay ReducePoint None es2 = Inr (Some p2)"
    "point_switch p2 b = Inr p2'" "p1 = advance b p2'"
    using point_last_event [OF 1(2) own1] by metis
  note s2 = point_switch_source [OF 2(3)]
  have "point_Status p2 = PointAccepted" and own2: "\<forall>e \<in> set es2. AggregateType e = AggregatePoint"
    using s2(2) 2 own1 \<open>point_Status p1 = PointCommitted\<close> by simp_all
  then have "point_Status p2 \<noteq> PointPlanned" by simp
  then obtain es3 a p3 p3' where 3: "es2 = es3 @ [a]" "replay ReducePoint None es3 = Inr (Some p3)"
    "point_switch p3 a = Inr p3'" "p2 = advance a p3'"
    using point_last_event [OF 2(2) own2] by metis
  note s3 = point_switch_source [OF 3(3)]
  have "es = es3 @ [a, b, c]" using 1 2 3 by simp
  moreover have "Kind a = ''point.accepted'' \<and> Kind b = ''point.committed'' \<and> Kind c = ''point.published'' \<and>
      point_Status p3 \<in> {PointValidating, PointAwaitingApproval} \<and> point_Revision p3 = point_Revision p"
    using s1 s2 s3 assms(3) 1 2 3 by simp
  ultimately show ?thesis using 3(2) by blast
qed

definition example_point_events :: "Event list" where
  \<open>example_point_events = map (\<lambda>(revision, kind, d).
     (work_event revision kind)\<lparr>AggregateType := AggregatePoint, AggregateID := ''point_1'', Data := d\<rparr>)
    [(1, ''point.created'', ''{"storyId":"s","revision":1,"title":"t","sourceHash":"0000000000000000000000000000000000000000000000000000000000000000"}''),
     (2, ''point.ready'', ''{}''), (3, ''point.started'', ''{}''), (4, ''point.candidate_produced'', ''{}''),
     (5, ''point.accepted'', ''{}''), (6, ''point.committed'', ''{}''), (7, ''point.published'', ''{}'')]\<close>

lemma example_point_replay:
  "case replay ReducePoint None example_point_events of
     Inr (Some p) \<Rightarrow> point_Status p = PointPublished | _ \<Rightarrow> False"
  by code_simp

theorem point_publication_path_witness:
  "\<exists>p. replay ReducePoint None example_point_events = Inr (Some p) \<and> point_Status p = PointPublished \<and>
    (\<exists>fs a b c. example_point_events = fs @ [a, b, c] \<and> Kind a = ''point.accepted'' \<and>
      Kind b = ''point.committed'' \<and> Kind c = ''point.published'')"
proof -
  obtain p where "replay ReducePoint None example_point_events = Inr (Some p)"
    and "point_Status p = PointPublished"
    using example_point_replay by (auto split: sum.splits option.splits)
  moreover have "\<forall>e \<in> set example_point_events. AggregateType e = AggregatePoint"
    by (simp add: example_point_events_def)
  ultimately show ?thesis using point_publication_path by blast
qed

end
