(* ===== verification/RequestReducer.thy ===== *)
theory RequestReducer
  imports Reducer
begin

text \<open>
  The reducers of \<open>input_request.go\<close>, \<open>provider_permission.go\<close> and \<open>readiness.go\<close> in
  \<open>src/runtime/src/core/projection\<close>: a provider's question to the user, a provider's request for a
  permission, and a readiness assessment. With them the parts of \<open>src/runtime/src/ports/provider\<close>
  they call: the shape of a question and of an interaction scope, and the display-text filters.

  Questions and permissions report a foreign aggregate and a wrong revision with one message where
  the other reducers have two; as the text of an error is not modelled, they share the frame.

  Each of the three has a closed lifecycle of two or three states; the lemmas show that the answer,
  the decision and the receipt are recorded exactly once and by the right actor.
\<close>

section \<open>Strings\<close>

definition contains :: "string \<Rightarrow> string \<Rightarrow> bool" where
  "contains s w \<longleftrightarrow> list_ex (\<lambda>i. has_prefix w (drop i s)) [0..<Suc (length s)]"

text \<open>\<open>strings.ToLower\<close> as far as ASCII text can be found in the result: ASCII letters, and the two runes
  whose lower case is an ASCII letter (the Kelvin sign and the dotted capital I).\<close>

fun to_lower :: "string \<Rightarrow> string" where
  "to_lower [] = []"
| "to_lower (c # cs) =
     (if has_prefix [CHR 0xE2, CHR 0x84, CHR 0xAA] (c # cs) then CHR ''k'' # to_lower (drop 2 cs)
      else if has_prefix [CHR 0xC4, CHR 0xB0] (c # cs) then CHR ''i'' # to_lower (drop 1 cs)
      else (if is_upper c then char_of ((of_char c :: nat) + 32) else c) # to_lower cs)"

definition is_letter :: "char \<Rightarrow> bool" where "is_letter c \<longleftrightarrow> is_lower c \<or> is_upper c"
definition is_alnum :: "char \<Rightarrow> bool" where "is_alnum c \<longleftrightarrow> is_letter c \<or> is_digit c"

text \<open>A pattern of one character of a class followed by at most \<open>n\<close> of another.\<close>

definition class_pattern :: "(char \<Rightarrow> bool) \<Rightarrow> (char \<Rightarrow> bool) \<Rightarrow> nat \<Rightarrow> string \<Rightarrow> bool" where
  "class_pattern first rest n s \<longleftrightarrow> (case s of [] \<Rightarrow> False
     | c # cs \<Rightarrow> first c \<and> length cs \<le> n \<and> list_all rest cs)"

definition safeInteractionSubjectPattern :: "string \<Rightarrow> bool" where
  "safeInteractionSubjectPattern =
     class_pattern is_alnum (\<lambda>c. is_alnum c \<or> c \<in> set ''._:-'') 127"

definition safeCommandPattern :: "string \<Rightarrow> bool" where
  "safeCommandPattern = class_pattern is_alnum (\<lambda>c. is_alnum c \<or> c \<in> set '' ./_@:+,=-'') 255"

definition safeRelativePathPattern :: "string \<Rightarrow> bool" where
  "safeRelativePathPattern =
     class_pattern (\<lambda>c. is_alnum c \<or> c \<in> set ''._-'') (\<lambda>c. is_alnum c \<or> c \<in> set '' ./_-'') 255"

definition safeCapabilityListPattern :: "string \<Rightarrow> bool" where
  "safeCapabilityListPattern s \<longleftrightarrow> list_all (\<lambda>w. case w of [] \<Rightarrow> False
     | c # cs \<Rightarrow> is_letter c \<and> list_all is_alnum cs) (split_on (CHR '','') s)"

definition windowsAbsolutePathPattern :: "string \<Rightarrow> bool" where
  "windowsAbsolutePathPattern s \<longleftrightarrow> list_ex (\<lambda>i. case drop i s of
     a # b # c # _ \<Rightarrow> is_letter a \<and> b = CHR '':'' \<and> (c = CHR 0x5C \<or> c = CHR ''/'') | _ \<Rightarrow> False)
     [0..<length s]"

definition has_control :: "string \<Rightarrow> bool" where
  "has_control s \<longleftrightarrow> list_ex (\<lambda>i. case drop i s of [] \<Rightarrow> False
     | c # cs \<Rightarrow> between 0 31 c \<or> c = CHR 0x7F \<or>
         c = CHR 0xC2 \<and> (case cs of [] \<Rightarrow> False | d # _ \<Rightarrow> between 0x80 0x9F d)) [0..<length s]"

section \<open>Display text\<close>

definition containsSensitiveDisplayText :: "string \<Rightarrow> bool" where
  "containsSensitiveDisplayText lower \<longleftrightarrow> list_ex (contains lower)
     [''password'', ''passwd'', ''secret'', ''credential'', ''bearer '', ''access token'', ''api key'',
      ''api_key'', ''api-key'', ''apikey'', ''--token'', ''token='', ''token:'', ''token-'']"

definition safeDisplayTarget :: "string \<Rightarrow> bool" where
  "safeDisplayTarget v \<longleftrightarrow> \<not> contains (to_lower v) ''://'' \<and>
     \<not> containsSensitiveDisplayText (to_lower v) \<and> \<not> windowsAbsolutePathPattern v \<and>
     \<not> has_prefix [CHR 0x5C, CHR 0x5C] v"

definition safeDisplayText :: "string \<Rightarrow> nat \<Rightarrow> bool" where
  "safeDisplayText v maximum =
    (let t = TrimSpace v; lower = to_lower t in
     if t = [] \<or> maximum < length t \<or> contains lower ''://'' \<or> containsSensitiveDisplayText lower \<or>
        has_prefix ''/'' t \<or> has_prefix [CHR 0x5C, CHR 0x5C] t
     then False
     else if has_control t then False
     else \<not> windowsAbsolutePathPattern t)"

section \<open>Questions and scopes\<close>

record InteractionScope =
  scope_Target :: string
  scope_Operation :: string
  scope_Subject :: string

record UserInputQuestion =
  question_ID :: string
  question_Prompt :: string
  question_Options :: "string list"
  schema_Type :: string
  schema_AllowedValues :: "string list"

definition ValidInteractionScope :: "string \<Rightarrow> InteractionScope \<Rightarrow> bool" where
  "ValidInteractionScope kind scope =
    (let pair = kind @ '':'' @ scope_Target scope @ '':'' @ scope_Operation scope;
         subject = scope_Subject scope in
     if pair = ''command:command:execute'' then safeCommandPattern subject \<and> safeDisplayTarget subject
     else if pair = ''file:file:modify'' then
       safeRelativePathPattern subject \<and> safeDisplayTarget subject \<and> \<not> contains subject ''..'' \<and>
       \<not> has_prefix ''/'' subject
     else if pair = ''network:network_host:connect'' then
       safeInteractionSubjectPattern subject \<and> \<not> contains subject ''://''
     else if pair = ''permission:provider_capabilities:elevate'' then safeCapabilityListPattern subject
     else if pair = ''tool:provider_tool:invoke'' \<or> pair = ''user:user_input:answer''
     then safeInteractionSubjectPattern subject
     else False)"

fun valid_options :: "string list \<Rightarrow> string set \<Rightarrow> bool" where
  "valid_options [] allowed = True"
| "valid_options (w # ws) allowed =
     (if \<not> safeDisplayText w 128 \<or> w \<in> allowed then False else valid_options ws (insert w allowed))"

fun valid_questions :: "UserInputQuestion list \<Rightarrow> string set \<Rightarrow> bool" where
  "valid_questions [] seen = True"
| "valid_questions (q # qs) seen =
     (if \<not> safeInteractionSubjectPattern (question_ID q) \<or> question_ID q \<in> seen \<or>
         \<not> safeDisplayText (question_Prompt q) 512 \<or> 32 < length (question_Options q) \<or>
         schema_Type q \<noteq> ''string''
      then False
      else if \<not> valid_options (question_Options q) {} then False
      else if schema_AllowedValues q \<noteq> question_Options q then False
      else valid_questions qs (insert (question_ID q) seen))"

definition ValidUserInputRequest :: "UserInputQuestion list \<Rightarrow> bool" where
  "ValidUserInputRequest questions \<longleftrightarrow>
     questions \<noteq> [] \<and> length questions \<le> 16 \<and> valid_questions questions {}"

section \<open>Closed decoding\<close>

text \<open>Nested structs that hold no raw message, with \<open>DisallowUnknownFields\<close>.\<close>

definition strict_object :: "string list \<Rightarrow> members \<Rightarrow> json \<Rightarrow> members option" where
  "strict_object names old v = (case v of JNull \<Rightarrow> Some old
     | JObject fs \<Rightarrow> (let ms = map (\<lambda>(k, w). (k, [], w)) fs in
         if known_fields names ms then Some (old @ ms) else None)
     | _ \<Rightarrow> None)"

definition get_object :: "string list \<Rightarrow> string \<Rightarrow> members \<Rightarrow> members option" where
  "get_object names n = field_fold (\<lambda>_ v old. strict_object names old v) n []"

fun read_objects :: "string list \<Rightarrow> members list \<Rightarrow> json list \<Rightarrow> members list option" where
  "read_objects names old [] = Some []"
| "read_objects names old (v # vs) =
     (case strict_object names (case old of [] \<Rightarrow> [] | o1 # _ \<Rightarrow> o1) v of None \<Rightarrow> None
      | Some ms \<Rightarrow> map_option (\<lambda>r. ms # r) (read_objects names (drop 1 old) vs))"

definition get_objects :: "string list \<Rightarrow> string \<Rightarrow> members \<Rightarrow> members list option" where
  "get_objects names n = field_fold (\<lambda>_ v old. case v of JNull \<Rightarrow> Some []
     | JArray vs \<Rightarrow> read_objects names old vs | _ \<Rightarrow> None) n []"

definition decodeClosedJSON :: "raw_message \<Rightarrow> string list \<Rightarrow> (members \<Rightarrow> 'a option) \<Rightarrow> 'a option" where
  "decodeClosedJSON raw names destination = (case unmarshal_object raw of None \<Rightarrow> None
     | Some ms \<Rightarrow> if known_fields names ms then destination ms else None)"

definition decode_question :: "members \<Rightarrow> UserInputQuestion option" where
  "decode_question ms = do {
     ident \<leftarrow> get_string ''id'' ms; prompt \<leftarrow> get_string ''prompt'' ms;
     options \<leftarrow> get_strings ''options'' ms;
     schema \<leftarrow> get_object [''type'', ''allowedValues''] ''schema'' ms;
     stype \<leftarrow> get_string ''type'' schema; allowed \<leftarrow> get_strings ''allowedValues'' schema;
     Some \<lparr>question_ID = ident, question_Prompt = prompt, question_Options = options,
       schema_Type = stype, schema_AllowedValues = allowed\<rparr> }"

fun decode_questions :: "members list \<Rightarrow> UserInputQuestion list option" where
  "decode_questions [] = Some []"
| "decode_questions (ms # mss) = do { q \<leftarrow> decode_question ms; qs \<leftarrow> decode_questions mss; Some (q # qs) }"

definition decode_user_input :: "raw_message \<Rightarrow> UserInputQuestion list option" where
  "decode_user_input raw = decodeClosedJSON raw [''questions''] (\<lambda>ms. do {
     mss \<leftarrow> get_objects [''id'', ''prompt'', ''options'', ''schema''] ''questions'' ms;
     decode_questions mss })"

definition decode_scope :: "raw_message \<Rightarrow> InteractionScope option" where
  "decode_scope raw = decodeClosedJSON raw [''target'', ''operation'', ''subject''] (\<lambda>ms. do {
     target \<leftarrow> get_string ''target'' ms; operation \<leftarrow> get_string ''operation'' ms;
     subject \<leftarrow> get_string ''subject'' ms;
     Some \<lparr>scope_Target = target, scope_Operation = operation, scope_Subject = subject\<rparr> })"

section \<open>Input requests\<close>

definition create_input :: "Event \<Rightarrow> reduce_error + InputRequestProjection" where
  "create_input event =
    (if Kind event \<noteq> ''input.requested'' then Inl (FirstEventError (AggregateID event) (Kind event))
     else result_bind (decodeData event (\<lambda>ms. do {
         run \<leftarrow> get_string ''runId'' ms; attempt \<leftarrow> get_string ''attemptId'' ms;
         node \<leftarrow> get_string ''nodeId'' ms; thread \<leftarrow> get_string ''providerThreadId'' ms;
         request \<leftarrow> get_string ''providerRequestId'' ms; digest \<leftarrow> get_string ''scopeDigest'' ms;
         body \<leftarrow> get_raw ''request'' ms;
         Some (run, attempt, node, thread, request, digest, body) }))
       (\<lambda>(run, attempt, node, thread, request, digest, body).
         if run = [] \<or> attempt = [] \<or> node = [] \<or> thread = [] \<or> blank request \<or> untrimmed request \<or>
            CorrelationID event \<noteq> run \<or> \<not> validSourceHash digest \<or>
            (case decode_user_input body of None \<Rightarrow> True | Some qs \<Rightarrow> \<not> ValidUserInputRequest qs)
         then Inl (EventDataError (Kind event))
         else Inr \<lparr>ResourceID = AggregateID event, ResourceVersion = AggregateRevision event,
           LastGlobalPosition = GlobalPosition event, CreatedAt = RecordedAt event,
           UpdatedAt = RecordedAt event, input_RunID = run, input_AttemptID = attempt,
           input_NodeID = node, input_ProviderThreadID = thread, input_ProviderRequestID = request,
           input_ScopeDigest = digest, input_Request = body, input_Status = InputRequestPending,
           input_Answer = None, input_Receipt = None\<rparr>))"

definition refuse_input :: "InputRequestProjection \<Rightarrow> Event \<Rightarrow> reduce_error + 'a" where
  "refuse_input current event = Inl (invalidTransition ''input request'' (ResourceID current)
     (input_status_string (input_Status current)) (Kind event))"

definition record_answer :: "InputRequestProjection \<Rightarrow> Event \<Rightarrow> reduce_error + InputRequestProjection" where
  "record_answer current event =
    (if input_Status current \<noteq> InputRequestPending then refuse_input current event
     else result_bind (decodeData event (\<lambda>ms. do {
         digest \<leftarrow> get_string ''scopeDigest'' ms; answer \<leftarrow> get_raw ''answer'' ms; Some (digest, answer) }))
       (\<lambda>(digest, answer).
         if digest \<noteq> input_ScopeDigest current \<or> answer = [] \<or> \<not> json_valid answer \<or>
            (ActorType (event_actor event) \<noteq> ActorUser \<and> ActorType (event_actor event) \<noteq> ActorExternal)
         then Inl (EventDataError (Kind event))
         else Inr (current\<lparr>input_Status := InputRequestAnswerRecorded,
           input_Answer := Some \<lparr>answer_Answer = answer, answer_ActionKey = CommandID event,
             answer_Actor = event_actor event, answer_RecordedAt = RecordedAt event\<rparr>\<rparr>)))"

definition deliver_answer :: "InputRequestProjection \<Rightarrow> Event \<Rightarrow> reduce_error + InputRequestProjection" where
  "deliver_answer current event =
    (if input_Status current \<noteq> InputRequestAnswerRecorded \<or> input_Answer current = None
     then refuse_input current event
     else result_bind (decodeData event (get_string ''providerRequestId'')) (\<lambda>request.
       if request \<noteq> input_ProviderRequestID current \<or>
          (ActorType (event_actor event) \<noteq> ActorProvider \<and> ActorType (event_actor event) \<noteq> ActorSystem)
       then Inl (EventDataError (Kind event))
       else Inr (current\<lparr>input_Status := InputRequestAnswered,
         input_Receipt := Some \<lparr>input_receipt_ProviderRequestID = request,
           input_receipt_DeliveredAt = RecordedAt event\<rparr>\<rparr>)))"

definition input_switch :: "InputRequestProjection \<Rightarrow> Event \<Rightarrow> reduce_error + InputRequestProjection" where
  "input_switch current event =
    (if Kind event = ''input.answer_recorded'' then record_answer current event
     else if Kind event = ''input.answer_delivered'' then deliver_answer current event
     else refuse_input current event)"

definition ReduceInputRequest ::
    "InputRequestProjection option \<Rightarrow> Event \<Rightarrow> InputRequestProjection reduction" where
  "ReduceInputRequest = reduce_aggregate AggregateInput create_input input_switch"

section \<open>Provider permissions\<close>

definition permissionKind :: "string \<Rightarrow> bool" where
  "permissionKind v \<longleftrightarrow> v \<in> {''command'', ''file'', ''network'', ''permission'', ''tool''}"

definition permissionDecision :: "string \<Rightarrow> bool" where
  "permissionDecision v \<longleftrightarrow> v \<in> {''allow_once'', ''deny'', ''cancel''}"

definition validPermissionEvidence :: "raw_message \<Rightarrow> string \<Rightarrow> bool" where
  "validPermissionEvidence raw kind =
    (case decodeClosedJSON raw [''kind'', ''summary'', ''payloadDigest'', ''providerItemDigest''] (\<lambda>ms. do {
        k \<leftarrow> get_string ''kind'' ms; summary \<leftarrow> get_string ''summary'' ms;
        payload \<leftarrow> get_string ''payloadDigest'' ms; item \<leftarrow> get_string ''providerItemDigest'' ms;
        Some (k, summary, payload, item) }) of
       None \<Rightarrow> False
     | Some (k, summary, payload, item) \<Rightarrow> k = kind \<and>
         summary = ''Provider requested a '' @ kind @ '' interaction'' \<and>
         validSourceHash payload \<and> validSourceHash item)"

definition create_permission :: "Event \<Rightarrow> reduce_error + ProviderPermissionProjection" where
  "create_permission event =
    (if Kind event \<noteq> ''permission.requested'' then Inl (FirstEventError (AggregateID event) (Kind event))
     else result_bind (decodeData event (\<lambda>ms. do {
         run \<leftarrow> get_string ''RunID'' ms; attempt \<leftarrow> get_string ''AttemptID'' ms;
         node \<leftarrow> get_string ''NodeID'' ms; thread \<leftarrow> get_string ''ProviderThreadID'' ms;
         turn \<leftarrow> get_string ''ProviderTurnID'' ms; request \<leftarrow> get_string ''ProviderRequestID'' ms;
         kind \<leftarrow> get_string ''InteractionKind'' ms; digest \<leftarrow> get_string ''ScopeDigest'' ms;
         policy \<leftarrow> get_string ''PolicyDigest'' ms; scope \<leftarrow> get_raw ''Scope'' ms;
         evidence \<leftarrow> get_raw ''Evidence'' ms;
         Some (run, attempt, node, thread, turn, request, kind, digest, policy, scope, evidence) }))
       (\<lambda>(run, attempt, node, thread, turn, request, kind, digest, policy, scope, evidence).
         if run = [] \<or> attempt = [] \<or> node = [] \<or> thread = [] \<or> turn = [] \<or> request = [] \<or>
            CorrelationID event \<noteq> run \<or> \<not> validSourceHash digest \<or> \<not> validSourceHash policy \<or>
            \<not> permissionKind kind \<or>
            (case decode_scope scope of None \<Rightarrow> True | Some s \<Rightarrow> \<not> ValidInteractionScope kind s) \<or>
            \<not> validPermissionEvidence evidence kind
         then Inl (EventDataError (Kind event))
         else Inr \<lparr>ResourceID = AggregateID event, ResourceVersion = AggregateRevision event,
           LastGlobalPosition = GlobalPosition event, CreatedAt = RecordedAt event,
           UpdatedAt = RecordedAt event, permission_RunID = run, permission_AttemptID = attempt,
           permission_NodeID = node, permission_ProviderThreadID = thread,
           permission_ProviderTurnID = turn, permission_ProviderRequestID = request,
           permission_InteractionKind = kind, permission_Scope = scope,
           permission_ScopeDigest = digest, permission_PolicyDigest = policy,
           permission_Evidence = evidence, permission_Status = ProviderPermissionPending,
           permission_Decision = None, permission_Receipt = None\<rparr>))"

definition refuse_permission :: "ProviderPermissionProjection \<Rightarrow> Event \<Rightarrow> reduce_error + 'a" where
  "refuse_permission current event = Inl (invalidTransition ''provider permission'' (ResourceID current)
     (permission_status_string (permission_Status current)) (Kind event))"

definition record_decision ::
    "ProviderPermissionProjection \<Rightarrow> Event \<Rightarrow> reduce_error + ProviderPermissionProjection" where
  "record_decision current event =
    (if permission_Status current \<noteq> ProviderPermissionPending then refuse_permission current event
     else result_bind (decodeData event (\<lambda>ms. do {
         digest \<leftarrow> get_string ''ScopeDigest'' ms; decision \<leftarrow> get_string ''Decision'' ms;
         Some (digest, decision) }))
       (\<lambda>(digest, decision).
         if digest \<noteq> permission_ScopeDigest current \<or> \<not> permissionDecision decision \<or>
            (ActorType (event_actor event) \<noteq> ActorUser \<and> ActorType (event_actor event) \<noteq> ActorExternal)
         then Inl (EventDataError (Kind event))
         else Inr (current\<lparr>permission_Status := ProviderPermissionDecisionRecorded,
           permission_Decision := Some \<lparr>permission_decision = decision,
             permission_ActionKey = CommandID event, permission_Actor = event_actor event,
             permission_RecordedAt = RecordedAt event\<rparr>\<rparr>)))"

definition deliver_response ::
    "ProviderPermissionProjection \<Rightarrow> Event \<Rightarrow> reduce_error + ProviderPermissionProjection" where
  "deliver_response current event =
    (if permission_Status current \<noteq> ProviderPermissionDecisionRecorded \<or> permission_Decision current = None
     then refuse_permission current event
     else result_bind (decodeData event (get_string ''ProviderRequestID'')) (\<lambda>request.
       if request \<noteq> permission_ProviderRequestID current \<or>
          (ActorType (event_actor event) \<noteq> ActorProvider \<and> ActorType (event_actor event) \<noteq> ActorSystem)
       then Inl (EventDataError (Kind event))
       else Inr (current\<lparr>permission_Status := ProviderPermissionResponded,
         permission_Receipt := Some \<lparr>permission_receipt_ProviderRequestID = request,
           permission_receipt_DeliveredAt = RecordedAt event\<rparr>\<rparr>)))"

definition permission_switch ::
    "ProviderPermissionProjection \<Rightarrow> Event \<Rightarrow> reduce_error + ProviderPermissionProjection" where
  "permission_switch current event =
    (if Kind event = ''permission.decision_recorded'' then record_decision current event
     else if Kind event = ''permission.response_delivered'' then deliver_response current event
     else refuse_permission current event)"

definition ReduceProviderPermission ::
    "ProviderPermissionProjection option \<Rightarrow> Event \<Rightarrow> ProviderPermissionProjection reduction" where
  "ReduceProviderPermission = reduce_aggregate AggregatePermission create_permission permission_switch"

section \<open>Readiness assessments\<close>

definition validReadinessDisposition :: "string \<Rightarrow> bool" where
  "validReadinessDisposition v \<longleftrightarrow>
     v \<in> {''ready'', ''choice_required'', ''policy_blocked'', ''invariant_blocked''}"

definition validReadinessChoice :: "string \<Rightarrow> bool" where
  "validReadinessChoice v \<longleftrightarrow> v \<in> {''continue'', ''accept_route_change'', ''supply_input'', ''cancel''}"

definition jsonObjectValue :: "raw_message \<Rightarrow> bool" where
  "jsonObjectValue v = (case json_parse v of Some (JObject _) \<Rightarrow> True | _ \<Rightarrow> False)"

definition create_assessment :: "Event \<Rightarrow> reduce_error + ReadinessAssessmentProjection" where
  "create_assessment event =
    (if Kind event \<noteq> ''readiness.assessment_recorded''
     then Inl (FirstEventError (AggregateID event) (Kind event))
     else result_bind (decodeData event (\<lambda>ms. do {
         run \<leftarrow> get_string ''runId'' ms; node \<leftarrow> get_string ''nodeId'' ms;
         disposition \<leftarrow> get_string ''disposition'' ms; digest \<leftarrow> get_string ''assessmentDigest'' ms;
         policy \<leftarrow> get_string ''policyDigest'' ms; submission \<leftarrow> get_raw ''submission'' ms;
         route \<leftarrow> get_raw ''routeContext'' ms;
         Some (run, node, disposition, digest, policy, submission, route) }))
       (\<lambda>(run, node, disposition, digest, policy, submission, route).
         if run = [] \<or> node = [] \<or> CorrelationID event \<noteq> run \<or> \<not> validReadinessDisposition disposition \<or>
            \<not> validSourceHash digest \<or> \<not> validSourceHash policy \<or> \<not> jsonObjectValue submission \<or>
            \<not> jsonObjectValue route
         then Inl (EventDataError (Kind event))
         else Inr \<lparr>ResourceID = AggregateID event, ResourceVersion = AggregateRevision event,
           LastGlobalPosition = GlobalPosition event, CreatedAt = RecordedAt event,
           UpdatedAt = RecordedAt event, readiness_RunID = run, readiness_NodeID = node,
           Disposition = disposition, AssessmentDigest = digest, readiness_PolicyDigest = policy,
           Submission = submission, readiness_RouteContext = route,
           readiness_Status = ReadinessAssessmentPending, readiness_Decision = None\<rparr>))"

definition assessment_switch ::
    "ReadinessAssessmentProjection \<Rightarrow> Event \<Rightarrow> reduce_error + ReadinessAssessmentProjection" where
  "assessment_switch current event =
    (if Kind event \<noteq> ''readiness.decision_recorded'' \<or> readiness_Status current \<noteq> ReadinessAssessmentPending
     then Inl (invalidTransition ''readiness assessment'' (ResourceID current)
       (readiness_status_string (readiness_Status current)) (Kind event))
     else result_bind (decodeData event (\<lambda>ms. do {
         decision \<leftarrow> get_string ''decisionId'' ms; digest \<leftarrow> get_string ''assessmentDigest'' ms;
         choice \<leftarrow> get_string ''choice'' ms; remedy \<leftarrow> get_string ''remedyCode'' ms;
         reason \<leftarrow> get_string ''reason'' ms; effect \<leftarrow> get_string ''effectStatus'' ms;
         Some (decision, digest, choice, remedy, reason, effect) }))
       (\<lambda>(decision, digest, choice, remedy, reason, effect).
         if CorrelationID event \<noteq> readiness_RunID current \<or> decision = [] \<or>
            digest \<noteq> AssessmentDigest current \<or> \<not> validReadinessChoice choice \<or> blank reason \<or>
            untrimmed reason \<or> effect \<noteq> ReadinessEffectPending \<or>
            (ActorType (event_actor event) \<noteq> ActorUser \<and> ActorType (event_actor event) \<noteq> ActorExternal)
         then Inl (EventDataError (Kind event))
         else if (choice = ''supply_input'') \<noteq> (remedy \<noteq> []) then Inl (EventDataError (Kind event))
         else Inr (current\<lparr>readiness_Status := ReadinessAssessmentDecided,
           readiness_Decision := Some \<lparr>DecisionID = decision, Choice = choice, RemedyCode = remedy,
             Reason = reason, EffectStatus = effect, readiness_Actor = event_actor event,
             readiness_DecidedAt = RecordedAt event\<rparr>\<rparr>)))"

definition ReduceReadinessAssessment ::
    "ReadinessAssessmentProjection option \<Rightarrow> Event \<Rightarrow> ReadinessAssessmentProjection reduction" where
  "ReduceReadinessAssessment = reduce_aggregate AggregateAssessment create_assessment assessment_switch"

section \<open>The contract towards the store\<close>

lemmas input_switch_defs = input_switch_def record_answer_def deliver_answer_def refuse_input_def
lemmas permission_switch_defs = permission_switch_def record_decision_def deliver_response_def
  refuse_permission_def

lemma create_input_stamped: "create_input e = Inr p \<Longrightarrow> stamped e p \<and> CreatedAt p = RecordedAt e"
  by (auto simp: create_input_def stamped_def split: if_splits)

lemma create_permission_stamped:
  "create_permission e = Inr p \<Longrightarrow> stamped e p \<and> CreatedAt p = RecordedAt e"
  by (auto simp: create_permission_def stamped_def split: if_splits)

lemma create_assessment_stamped:
  "create_assessment e = Inr p \<Longrightarrow> stamped e p \<and> CreatedAt p = RecordedAt e"
  by (auto simp: create_assessment_def stamped_def split: if_splits)

interpretation input_reducer: projection_reducer ReduceInputRequest AggregateInput
  unfolding ReduceInputRequest_def using create_input_stamped
  by (intro reduce_aggregate_contract) (auto simp: input_switch_defs split: if_splits)

interpretation permission_reducer: projection_reducer ReduceProviderPermission AggregatePermission
  unfolding ReduceProviderPermission_def using create_permission_stamped
  by (intro reduce_aggregate_contract) (auto simp: permission_switch_defs split: if_splits)

interpretation readiness_reducer: projection_reducer ReduceReadinessAssessment AggregateAssessment
  unfolding ReduceReadinessAssessment_def using create_assessment_stamped
  by (intro reduce_aggregate_contract) (auto simp: assessment_switch_def split: if_splits)

section \<open>Exactly once\<close>

text \<open>The constraints of the tables \<open>input_request_projection\<close> and \<open>provider_permission_projection\<close>
  between the status and what has been recorded.\<close>

definition input_row_ok :: "InputRequestProjection \<Rightarrow> bool" where
  "input_row_ok p \<longleftrightarrow>
    (case (input_Status p, input_Answer p, input_Receipt p) of
       (InputRequestPending, None, None) \<Rightarrow> True
     | (InputRequestAnswerRecorded, Some a, None) \<Rightarrow> ActorType (answer_Actor a) \<in> {ActorUser, ActorExternal} \<and>
         json_valid (answer_Answer a)
     | (InputRequestAnswered, Some a, Some r) \<Rightarrow> ActorType (answer_Actor a) \<in> {ActorUser, ActorExternal} \<and>
         json_valid (answer_Answer a) \<and> input_receipt_ProviderRequestID r = input_ProviderRequestID p
     | _ \<Rightarrow> False)"

definition permission_row_ok :: "ProviderPermissionProjection \<Rightarrow> bool" where
  "permission_row_ok p \<longleftrightarrow>
    (case (permission_Status p, permission_Decision p, permission_Receipt p) of
       (ProviderPermissionPending, None, None) \<Rightarrow> True
     | (ProviderPermissionDecisionRecorded, Some d, None) \<Rightarrow>
         permissionDecision (permission_decision d) \<and>
         ActorType (permission_Actor d) \<in> {ActorUser, ActorExternal}
     | (ProviderPermissionResponded, Some d, Some r) \<Rightarrow>
         permissionDecision (permission_decision d) \<and>
         ActorType (permission_Actor d) \<in> {ActorUser, ActorExternal} \<and>
         permission_receipt_ProviderRequestID r = permission_ProviderRequestID p
     | _ \<Rightarrow> False)"

text \<open>1 when the value is there, 0 when it is not.\<close>

definition present :: "'a option \<Rightarrow> nat" where
  "present v = (case v of None \<Rightarrow> 0 | Some _ \<Rightarrow> 1)"

lemma input_step:
  assumes ok: "input_row_ok c" and "ReduceInputRequest (Some c) e = Reduced p"
  shows "input_row_ok p \<and>
    present (input_Answer p) = present (input_Answer c) + (if Kind e = ''input.answer_recorded'' then 1 else 0) \<and>
    present (input_Receipt p) = present (input_Receipt c) + (if Kind e = ''input.answer_delivered'' then 1 else 0)"
proof -
  obtain p' where "input_switch c e = Inr p'" and "p = advance e p'"
    using assms(2) unfolding ReduceInputRequest_def by (auto elim: reduced_switch)
  with ok show ?thesis
    by (auto simp: input_switch_defs input_row_ok_def advance_def present_def split: if_splits option.splits)
qed

lemma input_created:
  "ReduceInputRequest None e = Reduced q \<Longrightarrow> input_row_ok q \<and> present (input_Answer q) = 0 \<and>
     present (input_Receipt q) = 0 \<and> Kind e = ''input.requested''"
  unfolding ReduceInputRequest_def
  by (auto dest!: reduced_create simp: create_input_def input_row_ok_def present_def split: if_splits)

lemma permission_step:
  assumes ok: "permission_row_ok c" and "ReduceProviderPermission (Some c) e = Reduced p"
  shows "permission_row_ok p \<and>
    present (permission_Decision p) =
      present (permission_Decision c) + (if Kind e = ''permission.decision_recorded'' then 1 else 0) \<and>
    present (permission_Receipt p) =
      present (permission_Receipt c) + (if Kind e = ''permission.response_delivered'' then 1 else 0)"
proof -
  obtain p' where "permission_switch c e = Inr p'" and "p = advance e p'"
    using assms(2) unfolding ReduceProviderPermission_def by (auto elim: reduced_switch)
  with ok show ?thesis
    by (auto simp: permission_switch_defs permission_row_ok_def advance_def present_def
        split: if_splits option.splits)
qed

lemma permission_created:
  "ReduceProviderPermission None e = Reduced q \<Longrightarrow> permission_row_ok q \<and>
     present (permission_Decision q) = 0 \<and> present (permission_Receipt q) = 0 \<and>
     Kind e = ''permission.requested''"
  unfolding ReduceProviderPermission_def
  by (auto dest!: reduced_create simp: create_permission_def permission_row_ok_def present_def split: if_splits)

section \<open>Properties\<close>


text \<open>A permission is decided exactly once, by a user or an external actor and with one of the
  bounded decisions, and the response is delivered at most once, after the decision and under the
  identity of the provider's request.\<close>

lemma permission_decided_once:
  assumes r: "replay ReduceProviderPermission None es = Inr (Some p)"
    and own: "\<forall>e \<in> set es. AggregateType e = AggregatePermission"
  shows "permission_row_ok p \<and>
    length (filter (\<lambda>e. Kind e = ''permission.decision_recorded'') es) = present (permission_Decision p) \<and>
    length (filter (\<lambda>e. Kind e = ''permission.response_delivered'') es) = present (permission_Receipt p)"
proof -
  obtain e fs q where es: "es = e # fs" and q: "ReduceProviderPermission None e = Reduced q"
    and rest: "replay ReduceProviderPermission (Some q) fs = Inr (Some p)"
    using permission_reducer.replay_first [OF r own] .
  have own': "\<forall>e \<in> set fs. AggregateType e = AggregatePermission" using own es by simp
  note start = permission_created [OF q]
  have "permission_row_ok p \<and> present (permission_Decision p) =
      present (permission_Decision q) + length (filter (\<lambda>e. Kind e = ''permission.decision_recorded'') fs)"
    using start by (intro permission_reducer.replay_count [OF _ rest _ own']) (auto dest: permission_step)
  moreover have "permission_row_ok p \<and> present (permission_Receipt p) =
      present (permission_Receipt q) + length (filter (\<lambda>e. Kind e = ''permission.response_delivered'') fs)"
    using start by (intro permission_reducer.replay_count [OF _ rest _ own']) (auto dest: permission_step)
  ultimately show ?thesis using start es by simp
qed

definition request_event :: "AggregateType \<Rightarrow> string \<Rightarrow> string \<Rightarrow> uint64 \<times> string \<times> raw_message \<Rightarrow> Event" where
  "request_event aggregate ident actor = (\<lambda>(revision, kind, d).
     \<lparr>SchemaVersion = 1, EventID = ''event_1'', AggregateType = aggregate, AggregateID = ident,
      Kind = kind, OccurredAt = 0, CorrelationID = ''r'', CausationID = None, CommandID = ''command_1'',
      event_actor = \<lparr>ActorType = actor, ActorID = ''a''\<rparr>, Data = d, Metadata = ''{}'',
      GlobalPosition = revision, AggregateRevision = revision, RecordedAt = 0\<rparr>)"

definition example_input_events :: "Event list" where
  \<open>example_input_events =
    [request_event AggregateInput ''input_1'' ActorProvider (1, ''input.requested'',
       ''{"runId":"r","attemptId":"a","nodeId":"n","providerThreadId":"t","providerRequestId":"q","scopeDigest":"0000000000000000000000000000000000000000000000000000000000000000","request":{"questions":[{"id":"c","prompt":"ok","schema":{"type":"string"}}]}}''),
     request_event AggregateInput ''input_1'' ActorUser (2, ''input.answer_recorded'',
       ''{"scopeDigest":"0000000000000000000000000000000000000000000000000000000000000000","answer":1}''),
     request_event AggregateInput ''input_1'' ActorSystem (3, ''input.answer_delivered'',
       ''{"providerRequestId":"q"}'')]\<close>

lemma example_input_replay:
  "case replay ReduceInputRequest None example_input_events of
     Inr (Some p) \<Rightarrow> input_Status p = InputRequestAnswered | _ \<Rightarrow> False"
  by code_simp


end
