(* ===== verification/ExecutionProjection.thy ===== *)
theory ExecutionProjection
  imports Reducer
begin

text \<open>
  The reducers \<open>ReduceRun\<close>, \<open>ReduceNode\<close> and \<open>ReduceAttempt\<close> of
  \<open>src/runtime/src/core/projection/reducer.go\<close>: the state machines of a workflow run, of a node visit
  and of a provider attempt. For each: the projection the creating event starts, the switch on the
  event kind with its guards in the order of the code, and the reducer on the shared frame. The
  inductive relations \<open>run_lifecycle\<close>, \<open>node_lifecycle\<close> and \<open>attempt_lifecycle\<close> are the state machines
  as tables; the lemmas show that the reducers implement exactly these tables, and which fields and
  invariants every replay keeps.
\<close>

section \<open>Runs\<close>

definition create_run :: "Event \<Rightarrow> reduce_error + RunProjection" where
  "create_run event =
    (if Kind event \<noteq> ''run.created'' then Inl (FirstEventError (AggregateID event) (Kind event))
     else result_bind (decodeData event (\<lambda>ms. do {
         workItem \<leftarrow> get_string ''workItemId'' ms;
         workflow \<leftarrow> get_string ''workflowId'' ms;
         version \<leftarrow> get_string ''workflowVersion'' ms;
         priority \<leftarrow> get_int ''priority'' ms;
         Some (workItem, workflow, version, priority) }))
       (\<lambda>(workItem, workflow, version, priority).
         if workItem = [] \<or> workflow = [] \<or> version = [] then Inl (EventDataError (Kind event))
         else Inr \<lparr>ResourceID = AggregateID event, ResourceVersion = AggregateRevision event,
           LastGlobalPosition = GlobalPosition event, CreatedAt = RecordedAt event,
           UpdatedAt = RecordedAt event, run_WorkItemID = workItem, WorkflowID = workflow,
           WorkflowVersion = version, WorkflowDigest = [], RouteDigest = [], RouteSnapshot = [],
           run_Priority = priority, run_Status = RunDraft\<rparr>))"

definition requireRunState :: "RunProjection \<Rightarrow> Event \<Rightarrow> RunStatus list \<Rightarrow> reduce_error + unit" where
  "requireRunState current event allowed =
    (if run_Status current \<in> set allowed then Inr ()
     else Inl (invalidTransition ''run'' (ResourceID current)
       (run_status_string (run_Status current)) (Kind event)))"

text \<open>What the two route-carrying events decode of the snapshot: an entry and at least one terminal.\<close>

definition route_boundaries :: "raw_message \<Rightarrow> bool" where
  "route_boundaries snapshot = (case unmarshal_object snapshot of None \<Rightarrow> False
     | Some ms \<Rightarrow> (case (get_string ''entry'' ms, get_strings ''terminals'' ms) of
         (Some entry, Some terminals) \<Rightarrow> entry \<noteq> [] \<and> terminals \<noteq> []
       | _ \<Rightarrow> False))"

definition freeze_route :: "RunProjection \<Rightarrow> Event \<Rightarrow> reduce_error + RunProjection" where
  "freeze_route current event =
    result_bind (requireRunState current event [RunDraft]) (\<lambda>_.
    result_bind (decodeData event (\<lambda>ms. do {
        workflow \<leftarrow> get_string ''workflowDigest'' ms;
        route \<leftarrow> get_string ''routeDigest'' ms;
        snapshot \<leftarrow> get_raw ''routeSnapshot'' ms;
        Some (workflow, route, snapshot) }))
      (\<lambda>(workflow, route, snapshot).
        let completeSnapshot = (workflow \<noteq> [] \<and> route \<noteq> [] \<and> snapshot \<noteq> []);
            emptySnapshot = (workflow = [] \<and> route = [] \<and> snapshot = []) in
        if \<not> completeSnapshot \<and> \<not> emptySnapshot then Inl (EventDataError (Kind event))
        else if completeSnapshot \<and> (\<not> validSourceHash workflow \<or> \<not> validSourceHash route)
        then Inl (EventDataError (Kind event))
        else if completeSnapshot \<and> \<not> route_boundaries snapshot then Inl (EventDataError (Kind event))
        else Inr (current\<lparr>WorkflowDigest := workflow, RouteDigest := route, RouteSnapshot := snapshot,
          run_Status := RunReady\<rparr>)))"

definition continue_run :: "RunProjection \<Rightarrow> Event \<Rightarrow> reduce_error + RunProjection" where
  "continue_run current event =
    result_bind (requireRunState current event [RunCompleted]) (\<lambda>_.
    result_bind (decodeData event (\<lambda>ms. do {
        workflow \<leftarrow> get_string ''workflowDigest'' ms;
        route \<leftarrow> get_string ''routeDigest'' ms;
        snapshot \<leftarrow> get_raw ''routeSnapshot'' ms;
        until \<leftarrow> get_string ''until'' ms;
        Some (workflow, route, snapshot, until) }))
      (\<lambda>(workflow, route, snapshot, until).
        if \<not> validSourceHash workflow \<or> \<not> validSourceHash route \<or> snapshot = [] \<or> until = []
        then Inl (EventDataError (Kind event))
        else if \<not> route_boundaries snapshot then Inl (EventDataError (Kind event))
        else Inr (current\<lparr>WorkflowDigest := workflow, RouteDigest := route, RouteSnapshot := snapshot,
          run_Status := RunQueued\<rparr>)))"

definition run_guidance_requested :: "RunProjection \<Rightarrow> Event \<Rightarrow> reduce_error + RunProjection" where
  "run_guidance_requested current event =
    result_bind (requireRunState current event [RunRunning]) (\<lambda>_.
    result_bind (decodeData event (\<lambda>ms. do {
        ident \<leftarrow> get_string ''id'' ms;
        message \<leftarrow> get_string ''message'' ms;
        attempt \<leftarrow> get_string ''attemptId'' ms;
        Some (ident, message, attempt) }))
      (\<lambda>(ident, message, attempt).
        if ident = [] \<or> message = [] \<or> attempt = [] then Inl (EventDataError (Kind event))
        else Inr current))"

definition run_guidance_delivery :: "RunProjection \<Rightarrow> Event \<Rightarrow> reduce_error + RunProjection" where
  "run_guidance_delivery current event =
    result_bind (decodeData event (\<lambda>ms. do {
        ident \<leftarrow> get_string ''id'' ms; status \<leftarrow> get_string ''status'' ms; Some (ident, status) }))
      (\<lambda>(ident, status).
        if ident = [] \<or> (status \<noteq> ''accepted'' \<and> status \<noteq> ''unconfirmed'')
        then Inl (EventDataError (Kind event)) else Inr current)"

text \<open>A guard, further checks on the data, and the next status: the shape of most cases.\<close>

definition move_run :: "RunProjection \<Rightarrow> Event \<Rightarrow> RunStatus list \<Rightarrow> reduce_error + unit \<Rightarrow> RunStatus \<Rightarrow>
    reduce_error + RunProjection" where
  "move_run current event allowed check status =
    result_bind (requireRunState current event allowed) (\<lambda>_.
    result_bind check (\<lambda>_. Inr (current\<lparr>run_Status := status\<rparr>)))"

definition run_switch :: "RunProjection \<Rightarrow> Event \<Rightarrow> reduce_error + RunProjection" where
  "run_switch current event =
    (let kind = Kind event;
         refused = Inl (invalidTransition ''run'' (ResourceID current)
           (run_status_string (run_Status current)) kind) in
     if kind = ''context.frozen'' then
       result_bind (requireRunState current event [RunDraft]) (\<lambda>_. Inr current)
     else if kind = ''run.route_frozen'' then freeze_route current event
     else if kind = ''run.started'' then
       result_bind (requireRunState current event [RunDraft, RunReady]) (\<lambda>_.
         Inr (current\<lparr>run_Status := (if run_Status current = RunDraft then RunRunning else RunQueued)\<rparr>))
     else if kind = ''run.visit_ready'' then move_run current event [RunQueued] (Inr ()) RunRunning
     else if kind = ''run.waiting'' then move_run current event [RunRunning] (Inr ()) RunWaiting
     else if kind = ''run.input_required'' then
       move_run current event [RunQueued] (requireIssueData event) RunWaiting
     else if kind = ''run.paused'' then move_run current event [RunQueued, RunRunning] (Inr ()) RunWaiting
     else if kind = ''run.blocked'' then move_run current event [RunRunning] (Inr ()) RunBlocked
     else if kind = ''run.resumed'' then
       move_run current event [RunWaiting, RunBlocked, RunFailed] (Inr ()) RunQueued
     else if kind = ''run.retried'' then move_run current event [RunFailed] (Inr ()) RunQueued
     else if kind = ''run.continued'' then continue_run current event
     else if kind = ''run.guidance_requested'' then run_guidance_requested current event
     else if kind = ''run.guidance_delivery'' then run_guidance_delivery current event
     else if kind = ''run.completed'' then move_run current event [RunRunning] (Inr ()) RunCompleted
     else if kind = ''run.failed'' then
       move_run current event [RunRunning] (validateOptionalIssueData event) RunFailed
     else if kind = ''run.admission_failed'' then
       move_run current event [RunQueued] (requireIssueData event) RunFailed
     else if kind = ''run.cancelled'' then
       (if run_terminal (run_Status current) \<and> run_Status current \<noteq> RunReconcileRequired then refused
        else Inr (current\<lparr>run_Status := RunCancelled\<rparr>))
     else if kind = ''run.reconcile_required'' then
       (if run_terminal (run_Status current) then refused
        else result_bind (validateOptionalIssueData event) (\<lambda>_.
          Inr (current\<lparr>run_Status := RunReconcileRequired\<rparr>)))
     else refused)"

definition ReduceRun :: "RunProjection option \<Rightarrow> Event \<Rightarrow> RunProjection reduction" where
  "ReduceRun = reduce_aggregate AggregateRun create_run run_switch"

section \<open>Node visits\<close>

definition create_node :: "Event \<Rightarrow> reduce_error + NodeProjection" where
  "create_node event =
    (if Kind event \<noteq> ''visit.created'' then Inl (FirstEventError (AggregateID event) (Kind event))
     else result_bind (decodeData event (\<lambda>ms. do {
         run \<leftarrow> get_string ''runId'' ms; node \<leftarrow> get_string ''nodeId'' ms; Some (run, node) }))
       (\<lambda>(run, node).
         if run = [] \<or> node = [] then Inl (EventDataError (Kind event))
         else Inr \<lparr>ResourceID = AggregateID event, ResourceVersion = AggregateRevision event,
           LastGlobalPosition = GlobalPosition event, CreatedAt = RecordedAt event,
           UpdatedAt = RecordedAt event, node_RunID = run, node_NodeID = node,
           node_Status = NodePending\<rparr>))"

definition requireNodeState :: "NodeProjection \<Rightarrow> Event \<Rightarrow> NodeStatus list \<Rightarrow> reduce_error + unit" where
  "requireNodeState current event allowed =
    (if node_Status current \<in> set allowed then Inr ()
     else Inl (invalidTransition ''node visit'' (ResourceID current)
       (node_status_string (node_Status current)) (Kind event)))"

definition move_node :: "NodeProjection \<Rightarrow> Event \<Rightarrow> NodeStatus list \<Rightarrow> reduce_error + unit \<Rightarrow> NodeStatus \<Rightarrow>
    reduce_error + NodeProjection" where
  "move_node current event allowed check status =
    result_bind (requireNodeState current event allowed) (\<lambda>_.
    result_bind check (\<lambda>_. Inr (current\<lparr>node_Status := status\<rparr>)))"

definition node_switch :: "NodeProjection \<Rightarrow> Event \<Rightarrow> reduce_error + NodeProjection" where
  "node_switch current event =
    (let kind = Kind event;
         refused = Inl (invalidTransition ''node visit'' (ResourceID current)
           (node_status_string (node_Status current)) kind) in
     if kind = ''visit.ready'' then move_node current event [NodePending] (Inr ()) NodeReady
     else if kind = ''visit.started'' then move_node current event [NodeReady] (Inr ()) NodeRunning
     else if kind = ''visit.result_received'' then
       move_node current event [NodeRunning] (Inr ()) NodeValidating
     else if kind = ''visit.succeeded'' then
       move_node current event [NodeValidating, NodeWaitingCheckpoint] (Inr ()) NodeSucceeded
     else if kind = ''visit.waiting_checkpoint'' then
       move_node current event [NodeValidating] (Inr ()) NodeWaitingCheckpoint
     else if kind = ''visit.changes_requested'' then
       move_node current event [NodeWaitingCheckpoint] (Inr ()) NodeRunning
     else if kind = ''visit.rejected'' then
       move_node current event [NodeWaitingCheckpoint] (Inr ()) NodeRejected
     else if kind = ''visit.retrying'' then
       move_node current event [NodeRunning, NodeValidating, NodeFailed] (Inr ()) NodeReady
     else if kind = ''visit.failed'' then
       move_node current event [NodeRunning, NodeValidating] (Inr ()) NodeFailed
     else if kind = ''visit.admission_failed'' then
       move_node current event [NodePending, NodeReady] (requireIssueData event) NodeFailed
     else if kind = ''visit.cancelled'' then
       (if node_terminal (node_Status current) then refused
        else Inr (current\<lparr>node_Status := NodeCancelled\<rparr>))
     else refused)"

definition ReduceNode :: "NodeProjection option \<Rightarrow> Event \<Rightarrow> NodeProjection reduction" where
  "ReduceNode = reduce_aggregate AggregateVisit create_node node_switch"

section \<open>Attempts\<close>

definition create_attempt :: "Event \<Rightarrow> reduce_error + AttemptProjection" where
  "create_attempt event =
    (if Kind event \<noteq> ''attempt.created'' then Inl (FirstEventError (AggregateID event) (Kind event))
     else result_bind (decodeData event (\<lambda>ms. do {
         run \<leftarrow> get_string ''runId'' ms; visit \<leftarrow> get_string ''visitId'' ms;
         node \<leftarrow> get_string ''nodeId'' ms; scenario \<leftarrow> get_string ''scenario'' ms;
         provider \<leftarrow> get_string ''provider'' ms; logRef \<leftarrow> get_string ''logReference'' ms;
         point \<leftarrow> get_string ''pointId'' ms; pointRevision \<leftarrow> get_uint64 ''pointRevision'' ms;
         priority \<leftarrow> get_int ''priority'' ms;
         Some (run, visit, node, scenario, provider, logRef, point, pointRevision, priority) }))
       (\<lambda>(run, visit, node, scenario, provider, logRef, point, pointRevision, priority).
         let visitOwned = (node \<noteq> [] \<and> point = [] \<and> pointRevision = 0);
             pointOwned = (node = [] \<and> visit = [] \<and> point \<noteq> [] \<and> pointRevision > 0) in
         if run = [] \<or> scenario = [] \<or> provider = [] \<or> logRef = [] \<or> priority < 0 \<or>
            (\<not> visitOwned \<and> \<not> pointOwned)
         then Inl (EventDataError (Kind event))
         else Inr \<lparr>ResourceID = AggregateID event, ResourceVersion = AggregateRevision event,
           LastGlobalPosition = GlobalPosition event, CreatedAt = RecordedAt event,
           UpdatedAt = RecordedAt event, attempt_RunID = run, attempt_VisitID = visit,
           attempt_NodeID = node, PointID = point, PointRevision = pointRevision,
           attempt_Priority = priority, Scenario = scenario, Provider = provider,
           attempt_Status = AttemptCreated, attempt_ProviderThreadID = [],
           attempt_ProviderTurnID = [], ProcessOwnerID = [], LastSequence = 0,
           LogReference = logRef\<rparr>))"

definition requireAttemptState :: "AttemptProjection \<Rightarrow> Event \<Rightarrow> AttemptStatus list \<Rightarrow> reduce_error + unit" where
  "requireAttemptState current event allowed =
    (if attempt_Status current \<in> set allowed then Inr ()
     else Inl (invalidTransition ''attempt'' (ResourceID current)
       (attempt_status_string (attempt_Status current)) (Kind event)))"

definition move_attempt :: "AttemptProjection \<Rightarrow> Event \<Rightarrow> AttemptStatus list \<Rightarrow> AttemptStatus \<Rightarrow>
    reduce_error + AttemptProjection" where
  "move_attempt current event allowed status =
    result_bind (requireAttemptState current event allowed) (\<lambda>_.
      Inr (current\<lparr>attempt_Status := status\<rparr>))"

definition recovery_identity :: "Event \<Rightarrow> reduce_error + string \<times> string \<times> string" where
  "recovery_identity event = decodeData event (\<lambda>ms. do {
     thread \<leftarrow> get_string ''providerThreadId'' ms; turn \<leftarrow> get_string ''providerTurnId'' ms;
     owner \<leftarrow> get_string ''processOwnerId'' ms; Some (thread, turn, owner) })"

definition start_attempt :: "AttemptProjection \<Rightarrow> Event \<Rightarrow> reduce_error + AttemptProjection" where
  "start_attempt current event =
    result_bind (requireAttemptState current event [AttemptCreated, AttemptStarting]) (\<lambda>_.
    result_bind (recovery_identity event) (\<lambda>(thread, turn, owner).
      if thread = [] \<or> turn = [] \<or> owner = [] then Inl (EventDataError (Kind event))
      else Inr (current\<lparr>attempt_Status := AttemptRunning, attempt_ProviderThreadID := thread,
        attempt_ProviderTurnID := turn, ProcessOwnerID := owner\<rparr>)))"

definition resume_attempt :: "AttemptProjection \<Rightarrow> Event \<Rightarrow> reduce_error + AttemptProjection" where
  "resume_attempt current event =
    result_bind (requireAttemptState current event [AttemptRunning]) (\<lambda>_.
    result_bind (recovery_identity event) (\<lambda>(thread, turn, owner).
      if thread \<noteq> attempt_ProviderThreadID current \<or> turn \<noteq> attempt_ProviderTurnID current \<or> owner = []
      then Inl (EventDataError (Kind event))
      else Inr (current\<lparr>ProcessOwnerID := owner\<rparr>)))"

definition record_provider_event :: "AttemptProjection \<Rightarrow> Event \<Rightarrow> reduce_error + AttemptProjection" where
  "record_provider_event current event =
    result_bind (decodeData event (get_uint64 ''sequence'')) (\<lambda>sequence.
      if attempt_Status current \<noteq> AttemptRunning \<or> sequence \<le> LastSequence current
      then Inl (EventDataError (Kind event))
      else Inr (current\<lparr>LastSequence := sequence\<rparr>))"

definition reconcile_cancellation :: "AttemptProjection \<Rightarrow> Event \<Rightarrow> reduce_error + AttemptProjection" where
  "reconcile_cancellation current event =
    (if attempt_Status current \<noteq> AttemptReconcileRequired
     then Inl (invalidTransition ''attempt'' (ResourceID current)
       (attempt_status_string (attempt_Status current)) (Kind event))
     else result_bind (decodeData event (get_string ''disposition'')) (\<lambda>disposition.
       if disposition \<notin> {''graceful'', ''forced'', ''already_terminal''}
       then Inl (EventDataError (Kind event))
       else Inr (current\<lparr>attempt_Status := AttemptCancelled\<rparr>)))"

definition attempt_switch :: "AttemptProjection \<Rightarrow> Event \<Rightarrow> reduce_error + AttemptProjection" where
  "attempt_switch current event =
    (let kind = Kind event;
         refused = Inl (invalidTransition ''attempt'' (ResourceID current)
           (attempt_status_string (attempt_Status current)) kind) in
     if kind = ''attempt.resources_acquired'' then
       move_attempt current event [AttemptCreated] AttemptStarting
     else if kind = ''attempt.started'' then start_attempt current event
     else if kind = ''attempt.resumed'' then resume_attempt current event
     else if kind = ''attempt.provider_event'' then record_provider_event current event
     else if kind = ''attempt.result_received'' then
       move_attempt current event [AttemptRunning] AttemptValidating
     else if kind = ''attempt.succeeded'' then
       move_attempt current event [AttemptValidating] AttemptSucceeded
     else if kind = ''attempt.completed'' then
       move_attempt current event [AttemptRunning, AttemptValidating] AttemptSucceeded
     else if kind = ''attempt.failed'' then
       move_attempt current event [AttemptCreated, AttemptStarting, AttemptRunning, AttemptValidating]
         AttemptFailed
     else if kind = ''attempt.cancellation_reconciled'' then reconcile_cancellation current event
     else if kind = ''attempt.cancelled'' then
       (if attempt_terminal (attempt_Status current) then refused
        else Inr (current\<lparr>attempt_Status := AttemptCancelled\<rparr>))
     else if kind = ''attempt.interrupted'' then
       (if attempt_terminal (attempt_Status current) then refused
        else Inr (current\<lparr>attempt_Status := AttemptInterrupted\<rparr>))
     else if kind = ''attempt.reconcile_required'' then
       (if attempt_terminal (attempt_Status current) then refused
        else result_bind (validateOptionalIssueData event) (\<lambda>_.
          Inr (current\<lparr>attempt_Status := AttemptReconcileRequired\<rparr>)))
     else refused)"

definition ReduceAttempt :: "AttemptProjection option \<Rightarrow> Event \<Rightarrow> AttemptProjection reduction" where
  "ReduceAttempt = reduce_aggregate AggregateAttempt create_attempt attempt_switch"

section \<open>The state machines\<close>

inductive run_lifecycle :: "RunStatus \<Rightarrow> string \<Rightarrow> RunStatus \<Rightarrow> bool" where
  context_frozen: "run_lifecycle RunDraft ''context.frozen'' RunDraft"
| route_frozen: "run_lifecycle RunDraft ''run.route_frozen'' RunReady"
| started_legacy: "run_lifecycle RunDraft ''run.started'' RunRunning"
| started: "run_lifecycle RunReady ''run.started'' RunQueued"
| visit_ready: "run_lifecycle RunQueued ''run.visit_ready'' RunRunning"
| waiting: "run_lifecycle RunRunning ''run.waiting'' RunWaiting"
| input_required: "run_lifecycle RunQueued ''run.input_required'' RunWaiting"
| paused: "s \<in> {RunQueued, RunRunning} \<Longrightarrow> run_lifecycle s ''run.paused'' RunWaiting"
| blocked: "run_lifecycle RunRunning ''run.blocked'' RunBlocked"
| resumed: "s \<in> {RunWaiting, RunBlocked, RunFailed} \<Longrightarrow> run_lifecycle s ''run.resumed'' RunQueued"
| retried: "run_lifecycle RunFailed ''run.retried'' RunQueued"
| continued: "run_lifecycle RunCompleted ''run.continued'' RunQueued"
| guidance_requested: "run_lifecycle RunRunning ''run.guidance_requested'' RunRunning"
| guidance_delivery: "run_lifecycle s ''run.guidance_delivery'' s"
| completed: "run_lifecycle RunRunning ''run.completed'' RunCompleted"
| failed: "run_lifecycle RunRunning ''run.failed'' RunFailed"
| admission_failed: "run_lifecycle RunQueued ''run.admission_failed'' RunFailed"
| cancelled: "s \<notin> {RunCompleted, RunCancelled} \<Longrightarrow> run_lifecycle s ''run.cancelled'' RunCancelled"
| reconcile_required: "s \<notin> {RunCompleted, RunCancelled, RunReconcileRequired} \<Longrightarrow>
    run_lifecycle s ''run.reconcile_required'' RunReconcileRequired"

lemmas run_switch_defs = run_switch_def move_run_def requireRunState_def freeze_route_def
  continue_run_def run_guidance_requested_def run_guidance_delivery_def

lemma run_switch_lifecycle:
  "run_switch c e = Inr p \<Longrightarrow> run_lifecycle (run_Status c) (Kind e) (run_Status p)"
  by (auto simp: run_switch_defs Let_def run_terminal_def intro: run_lifecycle.intros split: if_splits)

text \<open>What the switches change: the status alone, or the fields of the few kinds that carry data.\<close>

lemma run_switch_cases:
  assumes "run_switch c e = Inr p"
  obtains s where "p = c\<lparr>run_Status := s\<rparr>" | "p = c" | "freeze_route c e = Inr p" | "continue_run c e = Inr p"
proof -
  have "(\<exists>s. p = c\<lparr>run_Status := s\<rparr>) \<or> p = c \<or> freeze_route c e = Inr p \<or> continue_run c e = Inr p"
    using assms
    by (auto simp: run_switch_def Let_def move_run_def run_guidance_requested_def
        run_guidance_delivery_def simp del: RunProjection.update_convs split: if_splits)
  then show ?thesis using that by blast
qed

lemma freeze_route_row:
  assumes "freeze_route c e = Inr p"
  obtains w r x where "p = c\<lparr>WorkflowDigest := w, RouteDigest := r, RouteSnapshot := x, run_Status := RunReady\<rparr>"
    and "(w = [] \<and> r = [] \<and> x = []) \<or> (validSourceHash w \<and> validSourceHash r \<and> route_boundaries x)"
  using assms by (auto simp: freeze_route_def Let_def split: if_splits)

lemma continue_run_row:
  assumes "continue_run c e = Inr p"
  obtains w r x where "p = c\<lparr>WorkflowDigest := w, RouteDigest := r, RouteSnapshot := x, run_Status := RunQueued\<rparr>"
    and "validSourceHash w \<and> validSourceHash r \<and> route_boundaries x"
  using assms by (auto simp: continue_run_def split: if_splits)

lemma run_switch_keeps:
  "run_switch c e = Inr p \<Longrightarrow> ResourceID p = ResourceID c \<and> CreatedAt p = CreatedAt c \<and>
     run_WorkItemID p = run_WorkItemID c \<and> WorkflowID p = WorkflowID c \<and>
     WorkflowVersion p = WorkflowVersion c \<and> run_Priority p = run_Priority c"
  by (elim run_switch_cases freeze_route_row continue_run_row) simp_all

inductive node_lifecycle :: "NodeStatus \<Rightarrow> string \<Rightarrow> NodeStatus \<Rightarrow> bool" where
  ready: "node_lifecycle NodePending ''visit.ready'' NodeReady"
| started: "node_lifecycle NodeReady ''visit.started'' NodeRunning"
| result_received: "node_lifecycle NodeRunning ''visit.result_received'' NodeValidating"
| succeeded: "s \<in> {NodeValidating, NodeWaitingCheckpoint} \<Longrightarrow>
    node_lifecycle s ''visit.succeeded'' NodeSucceeded"
| waiting_checkpoint: "node_lifecycle NodeValidating ''visit.waiting_checkpoint'' NodeWaitingCheckpoint"
| changes_requested: "node_lifecycle NodeWaitingCheckpoint ''visit.changes_requested'' NodeRunning"
| rejected: "node_lifecycle NodeWaitingCheckpoint ''visit.rejected'' NodeRejected"
| retrying: "s \<in> {NodeRunning, NodeValidating, NodeFailed} \<Longrightarrow>
    node_lifecycle s ''visit.retrying'' NodeReady"
| failed: "s \<in> {NodeRunning, NodeValidating} \<Longrightarrow> node_lifecycle s ''visit.failed'' NodeFailed"
| admission_failed: "s \<in> {NodePending, NodeReady} \<Longrightarrow>
    node_lifecycle s ''visit.admission_failed'' NodeFailed"
| cancelled: "s \<notin> {NodeSucceeded, NodeRejected, NodeFailed, NodeCancelled} \<Longrightarrow>
    node_lifecycle s ''visit.cancelled'' NodeCancelled"

inductive attempt_lifecycle :: "AttemptStatus \<Rightarrow> string \<Rightarrow> AttemptStatus \<Rightarrow> bool" where
  resources_acquired: "attempt_lifecycle AttemptCreated ''attempt.resources_acquired'' AttemptStarting"
| started: "s \<in> {AttemptCreated, AttemptStarting} \<Longrightarrow>
    attempt_lifecycle s ''attempt.started'' AttemptRunning"
| resumed: "attempt_lifecycle AttemptRunning ''attempt.resumed'' AttemptRunning"
| provider_event: "attempt_lifecycle AttemptRunning ''attempt.provider_event'' AttemptRunning"
| result_received: "attempt_lifecycle AttemptRunning ''attempt.result_received'' AttemptValidating"
| succeeded: "attempt_lifecycle AttemptValidating ''attempt.succeeded'' AttemptSucceeded"
| completed: "s \<in> {AttemptRunning, AttemptValidating} \<Longrightarrow>
    attempt_lifecycle s ''attempt.completed'' AttemptSucceeded"
| failed: "s \<in> {AttemptCreated, AttemptStarting, AttemptRunning, AttemptValidating} \<Longrightarrow>
    attempt_lifecycle s ''attempt.failed'' AttemptFailed"
| cancellation_reconciled:
    "attempt_lifecycle AttemptReconcileRequired ''attempt.cancellation_reconciled'' AttemptCancelled"
| cancelled: "s \<in> {AttemptCreated, AttemptStarting, AttemptRunning, AttemptValidating} \<Longrightarrow>
    attempt_lifecycle s ''attempt.cancelled'' AttemptCancelled"
| interrupted: "s \<in> {AttemptCreated, AttemptStarting, AttemptRunning, AttemptValidating} \<Longrightarrow>
    attempt_lifecycle s ''attempt.interrupted'' AttemptInterrupted"
| reconcile_required: "s \<in> {AttemptCreated, AttemptStarting, AttemptRunning, AttemptValidating} \<Longrightarrow>
    attempt_lifecycle s ''attempt.reconcile_required'' AttemptReconcileRequired"

lemmas node_switch_defs = node_switch_def move_node_def requireNodeState_def

lemma node_switch_lifecycle:
  "node_switch c e = Inr p \<Longrightarrow> node_lifecycle (node_Status c) (Kind e) (node_Status p)"
  by (auto simp: node_switch_defs Let_def node_terminal_def intro: node_lifecycle.intros split: if_splits)

lemma node_switch_keeps:
  "node_switch c e = Inr p \<Longrightarrow> ResourceID p = ResourceID c \<and> CreatedAt p = CreatedAt c \<and>
     node_RunID p = node_RunID c \<and> node_NodeID p = node_NodeID c"
  by (auto simp: node_switch_defs Let_def split: if_splits)

lemmas attempt_switch_defs = attempt_switch_def move_attempt_def requireAttemptState_def
  start_attempt_def resume_attempt_def record_provider_event_def reconcile_cancellation_def

lemma attempt_running: "\<not> attempt_terminal s \<longleftrightarrow>
    s \<in> {AttemptCreated, AttemptStarting, AttemptRunning, AttemptValidating}"
  by (cases s) (simp_all add: attempt_terminal_def)

lemma attempt_switch_lifecycle:
  "attempt_switch c e = Inr p \<Longrightarrow> attempt_lifecycle (attempt_Status c) (Kind e) (attempt_Status p)"
  using attempt_running [of "attempt_Status c"]
  by (auto simp: attempt_switch_defs Let_def intro: attempt_lifecycle.intros split: if_splits)

lemma attempt_switch_cases:
  assumes "attempt_switch c e = Inr p"
  obtains s where "p = c\<lparr>attempt_Status := s\<rparr>"
      and "s \<in> {AttemptRunning, AttemptValidating, AttemptSucceeded} \<Longrightarrow>
        attempt_Status c \<in> {AttemptRunning, AttemptValidating}"
  | "start_attempt c e = Inr p" | "resume_attempt c e = Inr p" | "record_provider_event c e = Inr p"
proof -
  have "(\<exists>s. p = c\<lparr>attempt_Status := s\<rparr> \<and> (s \<in> {AttemptRunning, AttemptValidating, AttemptSucceeded} \<longrightarrow>
        attempt_Status c \<in> {AttemptRunning, AttemptValidating})) \<or>
      start_attempt c e = Inr p \<or> resume_attempt c e = Inr p \<or> record_provider_event c e = Inr p"
    using assms
    by (auto simp: attempt_switch_def Let_def move_attempt_def requireAttemptState_def
        reconcile_cancellation_def simp del: AttemptProjection.update_convs split: if_splits)
  then show ?thesis using that by blast
qed

lemma start_attempt_row:
  assumes "start_attempt c e = Inr p"
  obtains t u v where "p = c\<lparr>attempt_Status := AttemptRunning, attempt_ProviderThreadID := t,
      attempt_ProviderTurnID := u, ProcessOwnerID := v\<rparr>" and "t \<noteq> []" and "u \<noteq> []" and "v \<noteq> []"
  using assms by (auto simp: start_attempt_def split: if_splits)

lemma resume_attempt_row:
  assumes "resume_attempt c e = Inr p"
  obtains v where "p = c\<lparr>ProcessOwnerID := v\<rparr>" and "v \<noteq> []" and "attempt_Status c = AttemptRunning"
  using assms by (auto simp: resume_attempt_def requireAttemptState_def split: if_splits)

lemma record_provider_event_row:
  assumes "record_provider_event c e = Inr p"
  obtains n where "p = c\<lparr>LastSequence := n\<rparr>" and "LastSequence c < n" and "attempt_Status c = AttemptRunning"
    and "decodeData e (get_uint64 ''sequence'') = Inr n"
  using assms by (auto simp: record_provider_event_def not_le split: if_splits)

lemma attempt_switch_keeps:
  "attempt_switch c e = Inr p \<Longrightarrow> ResourceID p = ResourceID c \<and> CreatedAt p = CreatedAt c \<and>
     attempt_RunID p = attempt_RunID c \<and> attempt_VisitID p = attempt_VisitID c \<and>
     attempt_NodeID p = attempt_NodeID c \<and> PointID p = PointID c \<and> PointRevision p = PointRevision c \<and>
     Scenario p = Scenario c \<and> Provider p = Provider c \<and> LogReference p = LogReference c"
  by (elim attempt_switch_cases start_attempt_row resume_attempt_row record_provider_event_row) simp_all

section \<open>The contract towards the store\<close>

lemma create_run_stamped: "create_run e = Inr p \<Longrightarrow> stamped e p \<and> CreatedAt p = RecordedAt e"
  by (auto simp: create_run_def stamped_def split: if_splits)

lemma create_node_stamped: "create_node e = Inr p \<Longrightarrow> stamped e p \<and> CreatedAt p = RecordedAt e"
  by (auto simp: create_node_def stamped_def split: if_splits)

lemma create_attempt_stamped: "create_attempt e = Inr p \<Longrightarrow> stamped e p \<and> CreatedAt p = RecordedAt e"
  by (auto simp: create_attempt_def stamped_def Let_def split: if_splits)

interpretation run_reducer: projection_reducer ReduceRun AggregateRun
  unfolding ReduceRun_def using create_run_stamped run_switch_keeps
  by (intro reduce_aggregate_contract) blast+

interpretation node_reducer: projection_reducer ReduceNode AggregateVisit
  unfolding ReduceNode_def using create_node_stamped node_switch_keeps
  by (intro reduce_aggregate_contract) blast+

interpretation attempt_reducer: projection_reducer ReduceAttempt AggregateAttempt
  unfolding ReduceAttempt_def using create_attempt_stamped attempt_switch_keeps
  by (intro reduce_aggregate_contract) blast+

section \<open>Every step of the tables can happen\<close>

text \<open>Data that satisfies the requirements of every kind.\<close>

definition run_sample :: raw_message where
  \<open>run_sample = ''{"code":"c","message":"m","id":"i","attemptId":"a","status":"accepted","until":"b","workflowDigest":"0000000000000000000000000000000000000000000000000000000000000000","routeDigest":"0000000000000000000000000000000000000000000000000000000000000000","routeSnapshot":{"entry":"a","terminals":["b"]}}''\<close>

definition attempt_sample :: raw_message where
  \<open>attempt_sample = ''{"providerThreadId":"t","providerTurnId":"u","processOwnerId":"o","sequence":1,"disposition":"forced"}''\<close>

definition zero_digest :: string where
  "zero_digest = replicate 64 (CHR ''0'')"

lemma zero_digest_valid [simp]: "validSourceHash zero_digest" "zero_digest \<noteq> []"
  by (code_simp, simp add: zero_digest_def)

definition run_sample_members :: members where
  \<open>run_sample_members = [(''code'', ''"c"'', JString ''c''), (''message'', ''"m"'', JString ''m''),
   (''id'', ''"i"'', JString ''i''), (''attemptId'', ''"a"'', JString ''a''),
   (''status'', ''"accepted"'', JString ''accepted''), (''until'', ''"b"'', JString ''b''),
   (''workflowDigest'', [CHR 0x22] @ zero_digest @ [CHR 0x22], JString zero_digest),
   (''routeDigest'', [CHR 0x22] @ zero_digest @ [CHR 0x22], JString zero_digest),
   (''routeSnapshot'', ''{"entry":"a","terminals":["b"]}'',
     JObject [(''entry'', JString ''a''), (''terminals'', JArray [JString ''b''])])]\<close>

lemma run_sample_members: "unmarshal_object run_sample = Some run_sample_members"
  by code_simp

lemma run_sample_keys:
  "fold_name ''code'' = ''CODE''"
  "fold_name ''message'' = ''MESSAGE''"
  "fold_name ''id'' = ''ID''"
  "fold_name ''attemptId'' = ''ATTEMPTID''"
  "fold_name ''status'' = ''STATUS''"
  "fold_name ''until'' = ''UNTIL''"
  "fold_name ''workflowDigest'' = ''WORKFLOWDIGEST''"
  "fold_name ''routeDigest'' = ''ROUTEDIGEST''"
  "fold_name ''routeSnapshot'' = ''ROUTESNAPSHOT''"
  by code_simp+

lemma run_sample_fields [simp]:
  "get_string ''code'' run_sample_members = Some ''c''"
  "get_string ''message'' run_sample_members = Some ''m''"
  "get_string ''id'' run_sample_members = Some ''i''"
  "get_string ''attemptId'' run_sample_members = Some ''a''"
  "get_string ''status'' run_sample_members = Some ''accepted''"
  "get_string ''until'' run_sample_members = Some ''b''"
  "get_string ''workflowDigest'' run_sample_members = Some zero_digest"
  "get_string ''routeDigest'' run_sample_members = Some zero_digest"
  \<open>get_raw ''routeSnapshot'' run_sample_members = Some ''{"entry":"a","terminals":["b"]}''\<close>
  by (simp_all add: run_sample_members_def get_string_def get_raw_def run_sample_keys
      del: fold_name.simps)

lemma route_sample [simp]: \<open>route_boundaries ''{"entry":"a","terminals":["b"]}''\<close>
  by code_simp

lemma issue_sample [simp]: "\<not> blank ''c''" "\<not> blank ''m''"
  by code_simp+

lemma run_switch_complete:
  assumes "run_lifecycle s k s'" and "run_Status c = s"
  shows "\<exists>p. run_switch c (next_event AggregateRun c k run_sample) = Inr p \<and> run_Status p = s'"
  using assms
  by (induction rule: run_lifecycle.induct)
    (auto simp: run_switch_defs Let_def run_terminal_def decodeData_def run_sample_members
      requireIssueData_def validateOptionalIssueData_def issue_data_def)

definition attempt_sample_members :: members where
  \<open>attempt_sample_members = [(''providerThreadId'', ''"t"'', JString ''t''),
   (''providerTurnId'', ''"u"'', JString ''u''), (''processOwnerId'', ''"o"'', JString ''o''),
   (''sequence'', ''1'', JNumber ''1''), (''disposition'', ''"forced"'', JString ''forced'')]\<close>

lemma attempt_sample_members: "unmarshal_object attempt_sample = Some attempt_sample_members"
  by code_simp

lemma parse_one: "parse_uint64 ''1'' = Some 1"
proof -
  have "digits_value ''1'' = 1" "list_all is_digit ''1''" by code_simp+
  then show ?thesis by (simp add: parse_uint64_def)
qed

lemma attempt_sample_keys:
  "fold_name ''providerThreadId'' = ''PROVIDERTHREADID''"
  "fold_name ''providerTurnId'' = ''PROVIDERTURNID''"
  "fold_name ''processOwnerId'' = ''PROCESSOWNERID''"
  "fold_name ''sequence'' = ''SEQUENCE''"
  "fold_name ''disposition'' = ''DISPOSITION''"
  by code_simp+

lemmas attempt_sample_simps = attempt_sample_members_def get_string_def get_uint64_def
  attempt_sample_keys run_sample_keys

lemma attempt_sample_fields [simp]:
  "get_string ''providerThreadId'' attempt_sample_members = Some ''t''"
  "get_string ''providerTurnId'' attempt_sample_members = Some ''u''"
  "get_string ''processOwnerId'' attempt_sample_members = Some ''o''"
  "get_string ''disposition'' attempt_sample_members = Some ''forced''"
  "get_uint64 ''sequence'' attempt_sample_members = Some 1"
  by (simp_all add: attempt_sample_simps parse_one del: fold_name.simps)

lemma attempt_sample_code: "get_string ''code'' attempt_sample_members = Some []"
  "get_string ''message'' attempt_sample_members = Some []"
  by (simp_all add: attempt_sample_simps del: fold_name.simps)

definition sample_attempt :: "AttemptStatus \<Rightarrow> AttemptProjection" where
  "sample_attempt s = \<lparr>ResourceID = ''attempt_1'', ResourceVersion = 1, LastGlobalPosition = 1,
     CreatedAt = 0, UpdatedAt = 0, attempt_RunID = ''run_1'', attempt_VisitID = ''visit_1'',
     attempt_NodeID = ''plan'', PointID = [], PointRevision = 0, attempt_Priority = 0,
     Scenario = ''s'', Provider = ''codex'', attempt_Status = s, attempt_ProviderThreadID = ''t'',
     attempt_ProviderTurnID = ''u'', ProcessOwnerID = ''o'', LastSequence = 0, LogReference = ''l''\<rparr>"

lemma attempt_switch_complete:
  assumes "attempt_lifecycle s k s'"
  shows "\<exists>p. attempt_switch (sample_attempt s) (next_event AggregateAttempt (sample_attempt s) k attempt_sample)
     = Inr p \<and> attempt_Status p = s'"
  using assms
  by (induction rule: attempt_lifecycle.induct)
    (auto simp: attempt_switch_defs Let_def attempt_terminal_def sample_attempt_def decodeData_def
      recovery_identity_def attempt_sample_members validateOptionalIssueData_def issue_data_def
      attempt_sample_code)

lemma node_switch_complete:
  assumes "node_lifecycle s k s'" and "node_Status c = s"
  shows "\<exists>p. node_switch c (next_event AggregateVisit c k run_sample) = Inr p \<and> node_Status p = s'"
  using assms
  by (induction rule: node_lifecycle.induct)
    (auto simp: node_switch_defs Let_def node_terminal_def decodeData_def run_sample_members
      requireIssueData_def issue_data_def)

section \<open>Invariants of the rows\<close>

text \<open>The constraints that the tables \<open>run_projection\<close> and \<open>attempt_projection\<close> put on a row, for the
  columns the reducers compute.\<close>

definition run_row_ok :: "RunProjection \<Rightarrow> bool" where
  "run_row_ok p \<longleftrightarrow> run_WorkItemID p \<noteq> [] \<and> WorkflowID p \<noteq> [] \<and> WorkflowVersion p \<noteq> [] \<and>
    ((WorkflowDigest p = [] \<and> RouteDigest p = [] \<and> RouteSnapshot p = []) \<or>
     (validSourceHash (WorkflowDigest p) \<and> validSourceHash (RouteDigest p) \<and>
      route_boundaries (RouteSnapshot p)))"

definition attempt_row_ok :: "AttemptProjection \<Rightarrow> bool" where
  "attempt_row_ok p \<longleftrightarrow>
    ((attempt_ProviderThreadID p = [] \<and> attempt_ProviderTurnID p = [] \<and> ProcessOwnerID p = [] \<and>
      LastSequence p = 0) \<or>
     (attempt_ProviderThreadID p \<noteq> [] \<and> attempt_ProviderTurnID p \<noteq> [] \<and> ProcessOwnerID p \<noteq> [])) \<and>
    (attempt_Status p \<in> {AttemptRunning, AttemptValidating, AttemptSucceeded} \<longrightarrow>
       attempt_ProviderThreadID p \<noteq> []) \<and>
    ((PointID p = [] \<and> PointRevision p = 0 \<and> attempt_NodeID p \<noteq> []) \<or>
     (PointID p \<noteq> [] \<and> 0 < PointRevision p \<and> attempt_VisitID p = [] \<and> attempt_NodeID p = [])) \<and>
    0 \<le> attempt_Priority p"

lemma run_row_switch:
  assumes "run_row_ok q" and "run_switch q e = Inr p"
  shows "run_row_ok p"
  using assms(2)
proof (cases rule: run_switch_cases)
  case (1 s)
  with assms(1) show ?thesis by (simp add: run_row_ok_def)
next
  case 2
  with assms(1) show ?thesis by simp
next
  case 3
  then show ?thesis using assms(1) by (elim freeze_route_row) (auto simp: run_row_ok_def)
next
  case 4
  then show ?thesis using assms(1) by (elim continue_run_row) (auto simp: run_row_ok_def)
qed

lemma run_row_step:
  assumes "\<And>q. c = Some q \<Longrightarrow> run_row_ok q" and "ReduceRun c e = Reduced p"
  shows "run_row_ok p"
proof (rule reduce_aggregate_invariant [where I = run_row_ok, OF _ _ _ assms(2) [unfolded ReduceRun_def] assms(1)])
  show "create_run e = Inr p \<Longrightarrow> run_row_ok p" for e p
    by (auto simp: create_run_def run_row_ok_def split: if_splits)
  show "run_row_ok (advance e p) \<longleftrightarrow> run_row_ok p" for e p
    by (simp add: run_row_ok_def advance_def)
qed (rule run_row_switch)

lemma attempt_row_switch:
  assumes ok: "attempt_row_ok q" and "attempt_switch q e = Inr p"
  shows "attempt_row_ok p"
  using assms(2)
proof (cases rule: attempt_switch_cases)
  case (1 s)
  have "attempt_ProviderThreadID q \<noteq> []" if "s \<in> {AttemptRunning, AttemptValidating, AttemptSucceeded}"
    using ok 1(2) [OF that] by (auto simp: attempt_row_ok_def)
  with ok 1(1) show ?thesis unfolding attempt_row_ok_def by simp
next
  case 2
  then show ?thesis using ok by (elim start_attempt_row) (simp add: attempt_row_ok_def)
next
  case 3
  then show ?thesis using ok by (elim resume_attempt_row) (auto simp: attempt_row_ok_def)
next
  case 4
  then show ?thesis using ok by (elim record_provider_event_row) (auto simp: attempt_row_ok_def)
qed

lemma attempt_row_step:
  assumes "\<And>q. c = Some q \<Longrightarrow> attempt_row_ok q" and "ReduceAttempt c e = Reduced p"
  shows "attempt_row_ok p"
proof (rule reduce_aggregate_invariant [where I = attempt_row_ok,
      OF _ _ _ assms(2) [unfolded ReduceAttempt_def] assms(1)])
  show "create_attempt e = Inr p \<Longrightarrow> attempt_row_ok p" for e p
    by (auto simp: create_attempt_def attempt_row_ok_def Let_def split: if_splits)
  show "attempt_row_ok (advance e p) \<longleftrightarrow> attempt_row_ok p" for e p
    by (simp add: attempt_row_ok_def advance_def)
qed (rule attempt_row_switch)

section \<open>Provider events\<close>

text \<open>The sequence number an event of kind \<open>attempt.provider_event\<close> carries.\<close>

definition provider_sequence :: "Event \<Rightarrow> uint64 option" where
  "provider_sequence e = (if Kind e = ''attempt.provider_event''
     then (case decodeData e (get_uint64 ''sequence'') of Inr s \<Rightarrow> Some s | Inl _ \<Rightarrow> None) else None)"

definition provider_sequences :: "Event list \<Rightarrow> uint64 list" where
  "provider_sequences es = List.map_filter provider_sequence es"

lemma attempt_switch_sequence:
  "attempt_switch c e = Inr p \<Longrightarrow> (case provider_sequence e of
     Some s \<Rightarrow> LastSequence c < s \<and> LastSequence p = s | None \<Rightarrow> LastSequence p = LastSequence c)"
  by (auto simp: attempt_switch_defs Let_def provider_sequence_def split: if_splits)

lemma ReduceAttempt_sequence:
  assumes "ReduceAttempt (Some c) e = Reduced p"
  shows "case provider_sequence e of
     Some s \<Rightarrow> LastSequence c < s \<and> LastSequence p = s | None \<Rightarrow> LastSequence p = LastSequence c"
  using assms unfolding ReduceAttempt_def
  by (auto elim!: reduced_switch dest!: attempt_switch_sequence simp: advance_def split: option.splits)

lemma replay_sequences:
  assumes "replay ReduceAttempt (Some c) es = Inr (Some p)"
    and "\<forall>e \<in> set es. AggregateType e = AggregateAttempt"
  shows "sorted_wrt (<) (provider_sequences es) \<and> (\<forall>s \<in> set (provider_sequences es). LastSequence c < s) \<and>
    LastSequence p = last (LastSequence c # provider_sequences es)"
  using assms
proof (induction es arbitrary: c)
  case (Cons e es)
  from Cons.prems obtain q where q: "ReduceAttempt (Some c) e = Reduced q"
    and rest: "replay ReduceAttempt (Some q) es = Inr (Some p)"
    using attempt_reducer.unsupported [of e "Some c"] attempt_reducer.ignored [of e "Some c"]
    by (auto split: reduction.splits)
  have IH: "sorted_wrt (<) (provider_sequences es) \<and> (\<forall>s \<in> set (provider_sequences es). LastSequence q < s) \<and>
    LastSequence p = last (LastSequence q # provider_sequences es)"
    using Cons.IH [OF rest] Cons.prems(2) by simp
  show ?case
  proof (cases "provider_sequence e")
    case None
    with IH ReduceAttempt_sequence [OF q] show ?thesis
      by (simp add: provider_sequences_def map_filter_simps)
  next
    case (Some s)
    with IH ReduceAttempt_sequence [OF q] show ?thesis
      by (force simp: provider_sequences_def map_filter_simps)
  qed
qed (simp add: provider_sequences_def)

section \<open>Liveness of runs\<close>

lemma ReduceRun_step_iff:
  "(\<exists>e p. Kind e = k \<and> ReduceRun (Some c) e = Reduced p \<and> run_Status p = s) \<longleftrightarrow>
     run_lifecycle (run_Status c) k s"
proof
  assume "\<exists>e p. Kind e = k \<and> ReduceRun (Some c) e = Reduced p \<and> run_Status p = s"
  then show "run_lifecycle (run_Status c) k s"
    unfolding ReduceRun_def by (auto elim!: reduced_switch dest!: run_switch_lifecycle simp: advance_def)
next
  assume "run_lifecycle (run_Status c) k s"
  then obtain p where "run_switch c (next_event AggregateRun c k run_sample) = Inr p" "run_Status p = s"
    using run_switch_complete by blast
  then have "ReduceRun (Some c) (next_event AggregateRun c k run_sample) =
      Reduced (advance (next_event AggregateRun c k run_sample) p)"
    unfolding ReduceRun_def reduce_next_event by simp
  with \<open>run_Status p = s\<close> show "\<exists>e p. Kind e = k \<and> ReduceRun (Some c) e = Reduced p \<and> run_Status p = s"
    by (intro exI [of _ "next_event AggregateRun c k run_sample"]) (auto simp: advance_def)
qed

definition run_moves :: "RunStatus \<Rightarrow> RunStatus \<Rightarrow> bool" where
  "run_moves s t \<longleftrightarrow> (\<exists>k. run_lifecycle s k t)"

lemma replay_moves:
  "replay ReduceRun (Some c) es = Inr (Some p) \<Longrightarrow> run_moves\<^sup>*\<^sup>* (run_Status c) (run_Status p)"
proof (induction es arbitrary: c)
  case (Cons e es)
  show ?case
  proof (cases "ReduceRun (Some c) e")
    case (Reduced q)
    then have "run_moves (run_Status c) (run_Status q)"
      using ReduceRun_step_iff [of "Kind e" c "run_Status q"] by (auto simp: run_moves_def)
    moreover have "run_moves\<^sup>*\<^sup>* (run_Status q) (run_Status p)" using Cons Reduced by simp
    ultimately show ?thesis by (rule converse_rtranclp_into_rtranclp)
  qed (use Cons in auto)
qed simp

lemma moves_replay:
  "run_moves\<^sup>*\<^sup>* s t \<Longrightarrow> run_Status c = s \<Longrightarrow>
     \<exists>es p. replay ReduceRun (Some c) es = Inr (Some p) \<and> run_Status p = t"
proof (induction arbitrary: c rule: converse_rtranclp_induct)
  case base
  then show ?case by (intro exI [of _ "[]"]) auto
next
  case (step s u)
  from step.hyps(1) obtain k where "run_lifecycle (run_Status c) k u"
    using step.prems by (auto simp: run_moves_def)
  then obtain e q where q: "ReduceRun (Some c) e = Reduced q" "run_Status q = u"
    using ReduceRun_step_iff by blast
  with step.IH obtain es p where "replay ReduceRun (Some q) es = Inr (Some p)" "run_Status p = t" by blast
  with q show ?case by (intro exI [of _ "e # es"]) auto
qed

inductive_cases cancelled_moves: "run_lifecycle RunCancelled k t"
inductive_cases reconcile_moves: "run_lifecycle RunReconcileRequired k t"

lemma stuck_moves: "run_moves\<^sup>*\<^sup>* s t \<Longrightarrow> s \<in> {RunCancelled, RunReconcileRequired} \<Longrightarrow>
    t \<in> {RunCancelled, RunReconcileRequired}"
  by (induction rule: rtranclp_induct)
    (auto simp: run_moves_def elim: cancelled_moves reconcile_moves)

lemma completion_moves:
  assumes "s \<notin> {RunCancelled, RunReconcileRequired}"
  shows "run_moves\<^sup>*\<^sup>* s RunCompleted"
proof -
  have one: "run_lifecycle a k b \<Longrightarrow> run_moves\<^sup>*\<^sup>* b RunCompleted \<Longrightarrow> run_moves\<^sup>*\<^sup>* a RunCompleted" for a b k
    by (meson run_moves_def converse_rtranclp_into_rtranclp)
  have running: "run_moves\<^sup>*\<^sup>* RunRunning RunCompleted" by (rule one [OF run_lifecycle.completed]) simp
  have queued: "run_moves\<^sup>*\<^sup>* RunQueued RunCompleted" by (rule one [OF run_lifecycle.visit_ready running])
  have resume: "run_moves\<^sup>*\<^sup>* a RunCompleted" if "a \<in> {RunWaiting, RunBlocked, RunFailed}" for a
    by (rule one [OF run_lifecycle.resumed [OF that] queued])
  show ?thesis using assms running queued resume one [OF run_lifecycle.started queued]
      one [OF run_lifecycle.started_legacy running]
    by (cases s) auto
qed

section \<open>Properties\<close>

text \<open>An attempt that is created, started, and records two provider events.\<close>

definition example_event :: "AggregateType \<Rightarrow> string \<Rightarrow> uint64 \<Rightarrow> string \<Rightarrow> raw_message \<Rightarrow> Event" where
  "example_event aggregate ident revision kind d = \<lparr>SchemaVersion = 1, EventID = ''event_1'',
     AggregateType = aggregate, AggregateID = ident, Kind = kind, OccurredAt = 0,
     CorrelationID = ''run_1'', CausationID = None, CommandID = ''command_1'',
     event_actor = \<lparr>ActorType = ActorUser, ActorID = ''operator''\<rparr>, Data = d, Metadata = [],
     GlobalPosition = revision, AggregateRevision = revision, RecordedAt = 0\<rparr>"

definition example_attempt_events :: "Event list" where
  \<open>example_attempt_events = [
     example_event AggregateAttempt ''attempt_1'' 1 ''attempt.created''
       ''{"runId":"r","nodeId":"n","scenario":"s","provider":"p","logReference":"l"}'',
     example_event AggregateAttempt ''attempt_1'' 2 ''attempt.started''
       ''{"providerThreadId":"t","providerTurnId":"u","processOwnerId":"o"}'',
     example_event AggregateAttempt ''attempt_1'' 3 ''attempt.provider_event'' ''{"sequence":1}'',
     example_event AggregateAttempt ''attempt_1'' 4 ''attempt.provider_event'' ''{"sequence":4}'']\<close>

definition example_attempt :: AttemptProjection where
  "example_attempt = \<lparr>ResourceID = ''attempt_1'', ResourceVersion = 4, LastGlobalPosition = 4,
     CreatedAt = 0, UpdatedAt = 0, attempt_RunID = ''r'', attempt_VisitID = [], attempt_NodeID = ''n'',
     PointID = [], PointRevision = 0, attempt_Priority = 0, Scenario = ''s'', Provider = ''p'',
     attempt_Status = AttemptRunning, attempt_ProviderThreadID = ''t'', attempt_ProviderTurnID = ''u'',
     ProcessOwnerID = ''o'', LastSequence = 4, LogReference = ''l''\<rparr>"

lemma example_attempt_replay: "replay ReduceAttempt None example_attempt_events = Inr (Some example_attempt)"
  by code_simp


lemma sample_attempt_status: "attempt_Status (sample_attempt s) = s"
  by (simp add: sample_attempt_def)

text \<open>C16: the attempt reducer implements the attempt state machine exactly: a step of the table
  \<open>attempt_lifecycle\<close> is what some attempt can make on some event, and nothing else is.\<close>

theorem attempt_lifecycle_exact:
  "(\<exists>c e p. attempt_Status c = s \<and> Kind e = k \<and> ReduceAttempt (Some c) e = Reduced p \<and>
      attempt_Status p = t) \<longleftrightarrow> attempt_lifecycle s k t"
proof
  assume "\<exists>c e p. attempt_Status c = s \<and> Kind e = k \<and> ReduceAttempt (Some c) e = Reduced p \<and> attempt_Status p = t"
  then show "attempt_lifecycle s k t"
    unfolding ReduceAttempt_def
    by (auto elim!: reduced_switch dest!: attempt_switch_lifecycle simp: advance_def)
next
  let ?c = "sample_attempt s" let ?e = "next_event AggregateAttempt ?c k attempt_sample"
  assume "attempt_lifecycle s k t"
  then obtain p where "attempt_switch ?c ?e = Inr p" "attempt_Status p = t"
    using attempt_switch_complete by blast
  then have "ReduceAttempt (Some ?c) ?e = Reduced (advance ?e p)" "attempt_Status (advance ?e p) = t"
    unfolding ReduceAttempt_def reduce_next_event by (simp_all add: advance_def)
  then show "\<exists>c e p. attempt_Status c = s \<and> Kind e = k \<and> ReduceAttempt (Some c) e = Reduced p \<and> attempt_Status p = t"
    using next_event_simps(1) [of AggregateAttempt ?c k attempt_sample] sample_attempt_status by blast
qed

text \<open>C17: every attempt that a replay of events builds satisfies the constraints of its table: the
  provider identity is complete or absent, a sequence number other than zero needs one, an attempt
  that runs, validates or has succeeded has one, and the owner is one node visit or one point
  revision, never both.\<close>

theorem attempt_rows_valid:
  assumes "replay ReduceAttempt None es = Inr (Some p)"
  shows "attempt_row_ok p"
  by (rule replay_invariant [where I = attempt_row_ok, OF attempt_row_step assms]) simp_all

theorem attempt_rows_valid_witness:
  "replay ReduceAttempt None example_attempt_events = Inr (Some example_attempt) \<and>
     attempt_row_ok example_attempt"
  using attempt_rows_valid [OF example_attempt_replay] example_attempt_replay by blast

text \<open>C18: provider events take effect at most once and in order: in every accepted stream of an
  attempt the sequence numbers of its provider events increase strictly, so that none is repeated,
  and the cursor of the projection is the last of them.\<close>

theorem provider_sequences_increase:
  assumes "replay ReduceAttempt None es = Inr (Some p)"
    and "\<forall>e \<in> set es. AggregateType e = AggregateAttempt"
  shows "sorted_wrt (<) (provider_sequences es) \<and> distinct (provider_sequences es) \<and>
    LastSequence p = last (0 # provider_sequences es)"
proof (cases es)
  case Nil
  with assms(1) show ?thesis by simp
next
  case (Cons e fs)
  with assms obtain q where q: "ReduceAttempt None e = Reduced q"
    and rest: "replay ReduceAttempt (Some q) fs = Inr (Some p)"
    using attempt_reducer.unsupported [of e None] attempt_reducer.ignored [of e None]
    by (auto split: reduction.splits)
  have "create_attempt e = Inr q" using q unfolding ReduceAttempt_def by (rule reduced_create)
  then have "LastSequence q = 0" and "provider_sequence e = None"
    by (auto simp: create_attempt_def Let_def provider_sequence_def split: if_splits)
  with replay_sequences [OF rest] assms(2) Cons
  have "sorted_wrt (<) (provider_sequences es) \<and> LastSequence p = last (0 # provider_sequences es)"
    by (auto simp: provider_sequences_def map_filter_simps)
  then show ?thesis using strict_sorted_iff by blast
qed

theorem provider_sequences_increase_witness:
  "replay ReduceAttempt None example_attempt_events = Inr (Some example_attempt) \<and>
   LastSequence example_attempt = last (0 # provider_sequences example_attempt_events)"
  using provider_sequences_increase [OF example_attempt_replay] example_attempt_replay
  by (simp add: example_attempt_events_def example_event_def)

text \<open>A run can always still be brought to completion, except when it is cancelled or requires
  reconciliation: from any other projection there are events that the reducer accepts and that end
  in status \<open>completed\<close>, and from these two there are none.\<close>

theorem run_completion_reachable:
  "(\<exists>es p. replay ReduceRun (Some c) es = Inr (Some p) \<and> run_Status p = RunCompleted) \<longleftrightarrow>
     run_Status c \<notin> {RunCancelled, RunReconcileRequired}"
proof
  assume "\<exists>es p. replay ReduceRun (Some c) es = Inr (Some p) \<and> run_Status p = RunCompleted"
  then have "run_moves\<^sup>*\<^sup>* (run_Status c) RunCompleted" using replay_moves by metis
  then show "run_Status c \<notin> {RunCancelled, RunReconcileRequired}" using stuck_moves by fastforce
next
  assume "run_Status c \<notin> {RunCancelled, RunReconcileRequired}"
  then show "\<exists>es p. replay ReduceRun (Some c) es = Inr (Some p) \<and> run_Status p = RunCompleted"
    using moves_replay [OF completion_moves refl] by simp
qed

text \<open>A failed visit is terminal for \<open>NodeStatus.Terminal\<close>, and it can nevertheless be retried.\<close>

lemma failed_visit_retried:
  assumes "node_Status c = NodeFailed"
  shows "node_terminal (node_Status c) \<and>
    (\<exists>e p. Kind e = ''visit.retrying'' \<and> ReduceNode (Some c) e = Reduced p \<and> node_Status p = NodeReady)"
proof -
  let ?e = "next_event AggregateVisit c ''visit.retrying'' run_sample"
  obtain p where "node_switch c ?e = Inr p" "node_Status p = NodeReady"
    using node_switch_complete [OF node_lifecycle.retrying [of NodeFailed]] assms by auto
  then have "ReduceNode (Some c) ?e = Reduced (advance ?e p)" "node_Status (advance ?e p) = NodeReady"
    unfolding ReduceNode_def reduce_next_event by (simp_all add: advance_def)
  with assms show ?thesis
    by (auto simp: node_terminal_def intro!: exI [of _ ?e])
qed

end
