(* ===== verification/EventStore.thy ===== *)
theory EventStore
  imports ApprovalReducer WorkReducer RequestReducer ExecutionProjection
begin

text \<open>
  The event store of \<open>src/runtime/src/adapters/statestore/sqlite/events.go\<close>, with the projection
  tables of \<open>work.go\<close> and the source admission test of \<open>source_runs.go\<close>: an append-only log of
  events, the revision of every aggregate, and one table per kind of projection, all changed in
  one transaction.

  A \<open>store\<close> is the committed content of the database. A transaction is a function from a store to
  an error or the next store, so that rolling back is returning the error. The tables are
  association lists from the primary key to the row; a row is the projection that scanning it
  returns, so columns that only change representation on the way to SQL and back (times as
  RFC 3339 text, JSON columns, nullable columns that encode an absent struct) have no counterpart,
  and the conversions that lose information (an empty route snapshot, the revision of an absent
  point, the order of dependencies) are written out. The uniqueness constraints and triggers of the
  \<open>events\<close> table are written out too. Everything else SQLite decides when it executes a statement
  (the remaining constraints of the schema, the driver's range of integers, input and output
  failures) is the parameter \<open>sqlite\<close>, a predicate on the tables and the statement.
\<close>

section \<open>Tables\<close>

record tables =
  project_projection :: "ProjectProjection gomap"
  work_item_projection :: "WorkItemProjection gomap"
  story_projection :: "StoryProjection gomap"
  point_projection :: "PointProjection gomap"
  run_projection :: "RunProjection gomap"
  node_projection :: "NodeProjection gomap"
  attempt_projection :: "AttemptProjection gomap"
  approval_projection :: "ApprovalProjection gomap"
  readiness_assessment_projection :: "ReadinessAssessmentProjection gomap"
  input_request_projection :: "InputRequestProjection gomap"
  provider_permission_projection :: "ProviderPermissionProjection gomap"

definition empty_tables :: tables where
  "empty_tables = \<lparr>project_projection = [], work_item_projection = [], story_projection = [],
     point_projection = [], run_projection = [], node_projection = [], attempt_projection = [],
     approval_projection = [], readiness_assessment_projection = [], input_request_projection = [],
     provider_permission_projection = []\<rparr>"

record 's store =
  events :: "Event list"
  aggregates :: "(AggregateType \<times> uint64) gomap"
  last_position :: uint64
  store_tables :: tables
  checkpoint :: "(uint64 \<times> timestamp) option"
  run_source_snapshots :: "'s gomap"
  context_manifests :: "string set" \<comment> \<open>the attempts that frozen context manifests refer to\<close>

definition empty_store :: "'s store" where
  "empty_store = \<lparr>events = [], aggregates = [], last_position = 0, store_tables = empty_tables,
     checkpoint = None, run_source_snapshots = [], context_manifests = {}\<rparr>"

datatype statement =
    InsertAggregate string AggregateType
  | InsertEvent Event
  | UpdateAggregate string uint64
  | WriteProject ProjectProjection
  | WriteWorkItem WorkItemProjection
  | WriteStory StoryProjection
  | WritePoint PointProjection
  | WriteDependency string string uint64
  | WriteRun RunProjection
  | WriteNode NodeProjection
  | WriteAttempt AttemptProjection
  | WriteApproval ApprovalProjection
  | WriteReadiness ReadinessAssessmentProjection
  | WriteInput InputRequestProjection
  | WritePermission ProviderPermissionProjection
  | WriteSource string
  | WritePosition uint64
  | WriteCheckpoint uint64

type_synonym engine = "tables \<Rightarrow> statement \<Rightarrow> bool"

datatype 'f store_error =
    EmptyAppend
  | PendingInvalid string
  | AggregateIDInvalid string \<comment> \<open>event whose stored aggregate has no type prefix\<close>
  | IdempotencyConflictError string string \<comment> \<open>aggregate, command\<close>
  | RevisionConflictError string uint64 uint64 \<comment> \<open>aggregate, expected, actual\<close>
  | AggregateTypeConflict string AggregateType AggregateType \<comment> \<open>aggregate, stored, wanted\<close>
  | StatementFailed statement
  | ClearFailed
  | NoRows string
  | NotFoundError string string \<comment> \<open>kind, identity\<close>
  | EventDataInvalid
  | WorkBeingDeleted
  | UnfinishedRuns
  | UnreconciledAttempts
  | ProjectionError reduce_error
  | DependencyStory string string string \<comment> \<open>point, dependency, its story\<close>
  | LimitInvalid int
  | SourceFailure 'f
  | SourceConflict

section \<open>Validation of pending events\<close>

definition id_character :: "char \<Rightarrow> bool" where
  "id_character c \<longleftrightarrow> is_digit c \<or> (is_upper c \<and> c \<notin> set ''ILOU'')"

definition idPayloadPattern :: "string \<Rightarrow> bool" where
  "idPayloadPattern s \<longleftrightarrow> length s = 26 \<and> list_all id_character s"

definition eventIDPattern :: "string \<Rightarrow> bool" where
  "eventIDPattern s \<longleftrightarrow> has_prefix ''event_'' s \<and> idPayloadPattern (drop 6 s)"

definition kindPattern :: "string \<Rightarrow> bool" where
  "kindPattern s \<longleftrightarrow> (let words = split_on (CHR ''.'') s in length words \<ge> 2 \<and>
     list_all (\<lambda>w. case w of [] \<Rightarrow> False
       | c # cs \<Rightarrow> is_lower c \<and> list_all (\<lambda>d. is_lower d \<or> is_digit d \<or> d = CHR ''_'') cs) words)"

definition aggregateTypes :: "AggregateType list" where
  "aggregateTypes = [AggregateProject, AggregateWork, AggregateStory, AggregatePoint, AggregateRun,
     AggregateVisit, AggregateAttempt, AggregateArtifact, AggregateApproval, AggregateOperation,
     AggregateAssessment, AggregateInput, AggregatePermission]"

definition aggregate_prefix :: "AggregateType \<Rightarrow> string" where
  "aggregate_prefix aggregate = aggregate @ ''_''"

definition jsonObject :: "raw_message \<Rightarrow> bool" where
  "jsonObject v = (case json_parse v of Some (JObject _) \<Rightarrow> True | _ \<Rightarrow> False)"

definition aggregate_identity :: "AggregateType \<Rightarrow> string \<Rightarrow> bool" where
  "aggregate_identity aggregate i \<longleftrightarrow> aggregate \<in> set aggregateTypes \<and>
     has_prefix (aggregate_prefix aggregate) i \<and>
     idPayloadPattern (drop (length (aggregate_prefix aggregate)) i)"

definition validatePendingEvent :: "PendingEvent \<Rightarrow> 'f store_error + unit" where
  "validatePendingEvent event =
    (if SchemaVersion event \<noteq> 1 then Inl (PendingInvalid ''schema version'')
     else if \<not> eventIDPattern (EventID event) then Inl (PendingInvalid ''event ID'')
     else if \<not> aggregate_identity (AggregateType event) (AggregateID event)
     then Inl (PendingInvalid ''aggregate ID'')
     else if \<not> kindPattern (Kind event) then Inl (PendingInvalid ''kind'')
     else if IsZero (OccurredAt event) then Inl (PendingInvalid ''occurred time'')
     else if CorrelationID event = [] \<or> CommandID event = [] \<or> ActorID (event_actor event) = []
     then Inl (PendingInvalid ''identities'')
     else if length (CorrelationID event) > 128 \<or> length (CommandID event) > 128 \<or>
       length (ActorID (event_actor event)) > 128 \<or>
       (case CausationID event of None \<Rightarrow> False | Some c \<Rightarrow> length c > 128)
     then Inl (PendingInvalid ''identity length'')
     else if ActorType (event_actor event) \<notin> {ActorUser, ActorSystem, ActorProvider, ActorExternal}
     then Inl (PendingInvalid ''actor type'')
     else if \<not> jsonObject (Data event) then Inl (PendingInvalid ''data'')
     else if \<not> jsonObject (Metadata event) then Inl (PendingInvalid ''metadata'')
     else Inr ())"

fun validate_all :: "PendingEvent list \<Rightarrow> 'f store_error + unit" where
  "validate_all [] = Inr ()"
| "validate_all (item # items) = result_bind (validatePendingEvent item) (\<lambda>_. validate_all items)"

section \<open>Reading the log\<close>

text \<open>The type of a stored event is the part of its aggregate identity before the first underscore.\<close>

definition scan_event :: "Event \<Rightarrow> 'f store_error + Event" where
  "scan_event event = (let prefix = takeWhile (\<lambda>c. c \<noteq> CHR ''_'') (AggregateID event) in
     if prefix = [] \<or> prefix = AggregateID event then Inl (AggregateIDInvalid (EventID event))
     else Inr (event\<lparr>AggregateType := prefix\<rparr>))"

fun scanEvents :: "Event list \<Rightarrow> 'f store_error + Event list" where
  "scanEvents [] = Inr []"
| "scanEvents (e # es) = result_bind (scan_event e) (\<lambda>f.
     result_bind (scanEvents es) (\<lambda>fs. Inr (f # fs)))"

definition readEventByCommand :: "'s store \<Rightarrow> string \<Rightarrow> string \<Rightarrow> 'f store_error + Event option" where
  "readEventByCommand st aggregate command =
     result_bind (scanEvents (filter (\<lambda>e. AggregateID e = aggregate \<and> CommandID e = command) (events st)))
       (\<lambda>es. Inr (case es of [] \<Rightarrow> None | e # _ \<Rightarrow> Some e))"

definition EventByCommand :: "'s store \<Rightarrow> string \<Rightarrow> string \<Rightarrow> 'f store_error + Event" where
  "EventByCommand st aggregate command =
     result_bind (readEventByCommand st aggregate command) (\<lambda>found. case found of
       None \<Rightarrow> Inl (NotFoundError ''aggregate command'' (aggregate @ ''/'' @ command)) | Some e \<Rightarrow> Inr e)"

definition EventsForAggregate :: "'s store \<Rightarrow> string \<Rightarrow> 'f store_error + Event list" where
  "EventsForAggregate st aggregate =
     result_bind (scanEvents (sort_key AggregateRevision (filter (\<lambda>e. AggregateID e = aggregate) (events st))))
       (\<lambda>es. if es = [] then Inl (NotFoundError ''aggregate events'' aggregate) else Inr es)"

definition page :: "(Event \<Rightarrow> bool) \<Rightarrow> 's store \<Rightarrow> uint64 \<Rightarrow> int \<Rightarrow> 'f store_error + Event list" where
  "page selected st position limit =
    (if limit < 1 \<or> limit > 1000 then Inl (LimitInvalid limit)
     else scanEvents (take (nat limit) (sort_key GlobalPosition
       (filter (\<lambda>e. selected e \<and> GlobalPosition e > position) (events st)))))"

definition EventsAfter :: "'s store \<Rightarrow> uint64 \<Rightarrow> int \<Rightarrow> 'f store_error + Event list" where
  "EventsAfter = page (\<lambda>_. True)"

definition RunEventsAfter :: "'s store \<Rightarrow> string \<Rightarrow> uint64 \<Rightarrow> int \<Rightarrow> 'f store_error + Event list" where
  "RunEventsAfter st run = page (\<lambda>e. CorrelationID e = run \<or> AggregateID e = run) st"

definition EventBounds_query :: "'s store \<Rightarrow> EventBounds" where
  "EventBounds_query st = (case map GlobalPosition (events st) of
     [] \<Rightarrow> \<lparr>Oldest = 0, Latest = 0\<rparr>
   | p # ps \<Rightarrow> \<lparr>Oldest = foldl min p ps, Latest = foldl max p ps\<rparr>)"

definition sameTransitionCommand :: "Event \<Rightarrow> PendingEvent \<Rightarrow> bool" where
  "sameTransitionCommand committed pending \<longleftrightarrow>
     SchemaVersion committed = SchemaVersion pending \<and>
     AggregateType committed = AggregateType pending \<and>
     AggregateID committed = AggregateID pending \<and>
     AggregateRevision committed = ExpectedRevision pending + 1 \<and>
     Kind committed = Kind pending \<and> CorrelationID committed = CorrelationID pending \<and>
     CausationID committed = CausationID pending \<and> CommandID committed = CommandID pending \<and>
     event_actor committed = event_actor pending \<and> Data committed = Data pending \<and>
     Metadata committed = Metadata pending"

definition readAggregateRevision ::
  "'s store \<Rightarrow> string \<Rightarrow> AggregateType \<Rightarrow> 'f store_error + uint64 \<times> bool" where
  "readAggregateRevision st i wantType = (case map_of (aggregates st) i of
     None \<Rightarrow> Inr (0, False)
   | Some (gotType, revision) \<Rightarrow> if gotType \<noteq> wantType then Inl (AggregateTypeConflict i gotType wantType)
       else Inr (revision, True))"

definition insertEvent :: "engine \<Rightarrow> 's store \<Rightarrow> Event \<Rightarrow> 'f store_error + 's store" where
  "insertEvent sqlite st event =
    (if GlobalPosition event = 0 \<or> AggregateRevision event = 0 \<or>
        list_ex (\<lambda>e. GlobalPosition e = GlobalPosition event \<or> EventID e = EventID event \<or>
          (AggregateID e = AggregateID event \<and>
            (AggregateRevision e = AggregateRevision event \<or> CommandID e = CommandID event))) (events st) \<or>
        \<not> sqlite (store_tables st) (InsertEvent event)
     then Inl (StatementFailed (InsertEvent event))
     else Inr (st\<lparr>events := events st @ [event]\<rparr>))"

section \<open>Writing projections\<close>

text \<open>An upsert inserts the row of a new key, and for an old key overwrites the columns its
  \<open>DO UPDATE SET\<close> names; every statement names the stamps.\<close>

definition upsert :: "('a projection_scheme \<Rightarrow> 'a projection_scheme \<Rightarrow> 'a projection_scheme) \<Rightarrow>
    'a projection_scheme gomap \<Rightarrow> 'a projection_scheme \<Rightarrow> 'a projection_scheme gomap" where
  "upsert set_columns rows p = map_put (ResourceID p)
     (case map_of rows (ResourceID p) of None \<Rightarrow> p | Some old \<Rightarrow> set_columns old p) rows"

definition set_stamps :: "'a projection_scheme \<Rightarrow> 'b projection_scheme \<Rightarrow> 'a projection_scheme" where
  "set_stamps old excluded = old\<lparr>ResourceVersion := ResourceVersion excluded,
     LastGlobalPosition := LastGlobalPosition excluded, UpdatedAt := UpdatedAt excluded\<rparr>"

definition execute :: "engine \<Rightarrow> tables \<Rightarrow> statement \<Rightarrow> tables \<Rightarrow> 'f store_error + tables" where
  "execute sqlite t statement next =
     (if sqlite t statement then Inr next else Inl (StatementFailed statement))"

definition writeProjectProjection :: "engine \<Rightarrow> tables \<Rightarrow> ProjectProjection \<Rightarrow> 'f store_error + tables" where
  "writeProjectProjection sqlite t v = execute sqlite t (WriteProject v)
     (t\<lparr>project_projection := upsert (\<lambda>old new. (set_stamps old new)
       \<lparr>project_Status := project_Status new\<rparr>) (project_projection t) v\<rparr>)"

definition writeWorkItemProjection :: "engine \<Rightarrow> tables \<Rightarrow> WorkItemProjection \<Rightarrow> 'f store_error + tables" where
  "writeWorkItemProjection sqlite t v = execute sqlite t (WriteWorkItem v)
     (t\<lparr>work_item_projection := upsert (\<lambda>old new. (set_stamps old new)
       \<lparr>work_Status := work_Status new, Deletion := Deletion new\<rparr>) (work_item_projection t) v\<rparr>)"

definition writeStoryProjection :: "engine \<Rightarrow> tables \<Rightarrow> StoryProjection \<Rightarrow> 'f store_error + tables" where
  "writeStoryProjection sqlite t v = execute sqlite t (WriteStory v)
     (t\<lparr>story_projection := upsert (\<lambda>old new. (set_stamps old new)
       \<lparr>story_Status := story_Status new\<rparr>) (story_projection t) v\<rparr>)"

text \<open>The dependencies of a point live in a table of their own: a write replaces them one by one,
  each for an existing point of the same story, and a read returns them sorted. Its primary key
  refuses a repeated dependency and a check one of a point on itself.\<close>

definition set_point_columns :: "PointProjection \<Rightarrow> PointProjection \<Rightarrow> PointProjection" where
  "set_point_columns old new = (set_stamps old new)\<lparr>point_Revision := point_Revision new,
     point_Title := point_Title new, point_SourceHash := point_SourceHash new,
     point_Priority := point_Priority new, point_Position := point_Position new,
     point_Status := point_Status new, Dependencies := []\<rparr>"

fun write_dependencies :: "engine \<Rightarrow> tables \<Rightarrow> PointProjection \<Rightarrow> string list \<Rightarrow> string list \<Rightarrow>
    'f store_error + string list" where
  "write_dependencies sqlite t v [] written = Inr (sorted_set written)"
| "write_dependencies sqlite t v (d # ds) written =
    (case map_of (point_projection t) d of None \<Rightarrow> Inl (NoRows d)
     | Some dependency \<Rightarrow>
        if StoryID dependency \<noteq> StoryID v then Inl (DependencyStory (ResourceID v) d (StoryID dependency))
        else if d \<in> set written \<or> d = ResourceID v \<or>
          \<not> sqlite t (WriteDependency (ResourceID v) d (point_Revision v))
        then Inl (StatementFailed (WriteDependency (ResourceID v) d (point_Revision v)))
        else write_dependencies sqlite t v ds (written @ [d]))"

definition writePointProjection :: "engine \<Rightarrow> tables \<Rightarrow> PointProjection \<Rightarrow> 'f store_error + tables" where
  "writePointProjection sqlite t v =
     result_bind (execute sqlite t (WritePoint v)
       (t\<lparr>point_projection := upsert set_point_columns (point_projection t) (v\<lparr>Dependencies := []\<rparr>)\<rparr>)) (\<lambda>t'.
     result_bind (write_dependencies sqlite t' v (Dependencies v) []) (\<lambda>dependencies.
     Inr (t'\<lparr>point_projection := (case map_of (point_projection t') (ResourceID v) of
       None \<Rightarrow> point_projection t'
     | Some row \<Rightarrow> map_put (ResourceID v) (row\<lparr>Dependencies := dependencies\<rparr>) (point_projection t'))\<rparr>)))"

definition stored_run :: "RunProjection \<Rightarrow> RunProjection" where
  "stored_run v = (if RouteSnapshot v = [] then v\<lparr>RouteSnapshot := ''{}''\<rparr> else v)"

definition set_run_columns :: "RunProjection \<Rightarrow> RunProjection \<Rightarrow> RunProjection" where
  "set_run_columns old new = (set_stamps old new)\<lparr>WorkflowDigest := WorkflowDigest new,
     RouteDigest := RouteDigest new, RouteSnapshot := RouteSnapshot new, run_Status := run_Status new\<rparr>"

definition writeRunProjection :: "engine \<Rightarrow> tables \<Rightarrow> RunProjection \<Rightarrow> 'f store_error + tables" where
  "writeRunProjection sqlite t v = execute sqlite t (WriteRun v)
     (t\<lparr>run_projection := upsert set_run_columns (run_projection t) (stored_run v)\<rparr>)"

definition writeNodeProjection :: "engine \<Rightarrow> tables \<Rightarrow> NodeProjection \<Rightarrow> 'f store_error + tables" where
  "writeNodeProjection sqlite t v = execute sqlite t (WriteNode v)
     (t\<lparr>node_projection := upsert (\<lambda>old new. (set_stamps old new)
       \<lparr>node_Status := node_Status new\<rparr>) (node_projection t) v\<rparr>)"

definition stored_attempt :: "AttemptProjection \<Rightarrow> AttemptProjection" where
  "stored_attempt v = (if PointID v = [] then v\<lparr>PointRevision := 0\<rparr> else v)"

definition set_attempt_columns :: "AttemptProjection \<Rightarrow> AttemptProjection \<Rightarrow> AttemptProjection" where
  "set_attempt_columns old new = (set_stamps old new)\<lparr>attempt_Status := attempt_Status new,
     attempt_ProviderThreadID := attempt_ProviderThreadID new,
     attempt_ProviderTurnID := attempt_ProviderTurnID new, ProcessOwnerID := ProcessOwnerID new,
     LastSequence := LastSequence new\<rparr>"

definition writeAttemptProjection :: "engine \<Rightarrow> tables \<Rightarrow> AttemptProjection \<Rightarrow> 'f store_error + tables" where
  "writeAttemptProjection sqlite t v = execute sqlite t (WriteAttempt v)
     (t\<lparr>attempt_projection := upsert set_attempt_columns (attempt_projection t) (stored_attempt v)\<rparr>)"

definition writeApprovalProjection :: "engine \<Rightarrow> tables \<Rightarrow> ApprovalProjection \<Rightarrow> 'f store_error + tables" where
  "writeApprovalProjection sqlite t v = execute sqlite t (WriteApproval v)
     (t\<lparr>approval_projection := upsert (\<lambda>old new. (set_stamps old new)
       \<lparr>approval_Status := approval_Status new, approval_Decision := approval_Decision new\<rparr>)
       (approval_projection t) v\<rparr>)"

definition writeReadinessAssessmentProjection ::
  "engine \<Rightarrow> tables \<Rightarrow> ReadinessAssessmentProjection \<Rightarrow> 'f store_error + tables" where
  "writeReadinessAssessmentProjection sqlite t v = execute sqlite t (WriteReadiness v)
     (t\<lparr>readiness_assessment_projection := upsert (\<lambda>old new. (set_stamps old new)
       \<lparr>readiness_Status := readiness_Status new, readiness_Decision := readiness_Decision new\<rparr>)
       (readiness_assessment_projection t) v\<rparr>)"

definition writeInputRequestProjection ::
  "engine \<Rightarrow> tables \<Rightarrow> InputRequestProjection \<Rightarrow> 'f store_error + tables" where
  "writeInputRequestProjection sqlite t v = execute sqlite t (WriteInput v)
     (t\<lparr>input_request_projection := upsert (\<lambda>old new. (set_stamps old new)
       \<lparr>input_Status := input_Status new, input_Answer := input_Answer new, input_Receipt := input_Receipt new\<rparr>)
       (input_request_projection t) v\<rparr>)"

definition writeProviderPermissionProjection ::
  "engine \<Rightarrow> tables \<Rightarrow> ProviderPermissionProjection \<Rightarrow> 'f store_error + tables" where
  "writeProviderPermissionProjection sqlite t v = execute sqlite t (WritePermission v)
     (t\<lparr>provider_permission_projection := upsert (\<lambda>old new. (set_stamps old new)
       \<lparr>permission_Status := permission_Status new, permission_Decision := permission_Decision new,
        permission_Receipt := permission_Receipt new\<rparr>) (provider_permission_projection t) v\<rparr>)"

section \<open>Applying an event to the projections\<close>

definition requireRetainedWork :: "tables \<Rightarrow> string \<Rightarrow> 'f store_error + unit" where
  "requireRetainedWork t i = (case map_of (work_item_projection t) i of
     None \<Rightarrow> Inr ()
   | Some work \<Rightarrow> if Deletion work \<noteq> WorkRetained then Inl WorkBeingDeleted else Inr ())"

definition read_row :: "'p gomap \<Rightarrow> string \<Rightarrow> 'f store_error + 'p" where
  "read_row rows i = (case map_of rows i of None \<Rightarrow> Inl (NoRows i) | Some p \<Rightarrow> Inr p)"

definition require_retained_run :: "tables \<Rightarrow> string \<Rightarrow> 'f store_error + unit" where
  "require_retained_run t run = (case map_of (run_projection t) run of
     None \<Rightarrow> Inr () | Some p \<Rightarrow> requireRetainedWork t (run_WorkItemID p))"

text \<open>The run whose work an answer, a decision or a verdict would set in motion again.\<close>

definition interaction_run :: "tables \<Rightarrow> Event \<Rightarrow> 'f store_error + string" where
  "interaction_run t event =
    (if Kind event = ''input.answer_recorded''
     then result_bind (read_row (input_request_projection t) (AggregateID event)) (\<lambda>v. Inr (input_RunID v))
     else if Kind event = ''permission.decision_recorded''
     then result_bind (read_row (provider_permission_projection t) (AggregateID event)) (\<lambda>v. Inr (permission_RunID v))
     else if Kind event = ''approval.decided''
     then result_bind (read_row (approval_projection t) (AggregateID event)) (\<lambda>v. Inr (approval_RunID v))
     else Inr [])"

definition attempt_run :: "tables \<Rightarrow> Event \<Rightarrow> 'f store_error + string" where
  "attempt_run t event =
    (if Kind event = ''attempt.created''
     then (case Option.bind (unmarshal_object (Data event)) (get_string ''runId'') of
         None \<Rightarrow> Inl EventDataInvalid | Some run \<Rightarrow> Inr run)
     else result_bind (read_row (attempt_projection t) (AggregateID event)) (\<lambda>v. Inr (attempt_RunID v)))"

definition unfinished_runs :: "tables \<Rightarrow> string \<Rightarrow> (string \<times> RunProjection) list" where
  "unfinished_runs t work = filter (\<lambda>(_, r). run_WorkItemID r = work \<and>
     run_Status r \<notin> {RunCompleted, RunCancelled}) (run_projection t)"

definition live_attempts :: "tables \<Rightarrow> string \<Rightarrow> (string \<times> AttemptProjection) list" where
  "live_attempts t work = filter (\<lambda>(_, a). (case map_of (run_projection t) (attempt_RunID a) of
       None \<Rightarrow> False | Some r \<Rightarrow> run_WorkItemID r = work) \<and>
     attempt_Status a \<in> {AttemptCreated, AttemptStarting, AttemptRunning, AttemptValidating,
       AttemptReconcileRequired}) (attempt_projection t)"

definition guard_event :: "tables \<Rightarrow> Event \<Rightarrow> 'f store_error + unit" where
  "guard_event t event =
    result_bind (interaction_run t event) (\<lambda>run.
    result_bind (if run = [] then Inr () else require_retained_run t run) (\<lambda>_.
    result_bind (if Kind event \<in> {''attempt.created'', ''attempt.resources_acquired'',
        ''attempt.started'', ''attempt.resumed''}
      then result_bind (attempt_run t event) (require_retained_run t) else Inr ()) (\<lambda>_.
    if Kind event = ''work.deleted'' then
      (if unfinished_runs t (AggregateID event) \<noteq> [] then Inl UnfinishedRuns
       else if live_attempts t (AggregateID event) \<noteq> [] then Inl UnreconciledAttempts else Inr ())
    else Inr ())))"

text \<open>What every case of the switch does: read the row, reduce, and write what the reducer returns.\<close>

definition project_with :: "('p option \<Rightarrow> Event \<Rightarrow> 'p reduction) \<Rightarrow> 'p gomap \<Rightarrow>
    ('p \<Rightarrow> 'f store_error + tables) \<Rightarrow> tables \<Rightarrow> Event \<Rightarrow> 'f store_error + tables" where
  "project_with reduce rows write t event = (case reduce (map_of rows (AggregateID event)) event of
     Ignored \<Rightarrow> Inr t | Failed _ err \<Rightarrow> Inl (ProjectionError err) | Reduced next \<Rightarrow> write next)"

definition run_kinds_of_retained_work :: "string list" where
  "run_kinds_of_retained_work = [''run.created'', ''run.route_frozen'', ''run.started'', ''run.resumed'',
     ''run.retried'', ''run.continued'', ''run.visit_ready'']"

definition apply_switch :: "engine \<Rightarrow> tables \<Rightarrow> Event \<Rightarrow> 'f store_error + tables" where
  "apply_switch sqlite t event =
    (let aggregate = AggregateType event in
     if aggregate = AggregateProject
     then project_with ReduceProject (project_projection t) (writeProjectProjection sqlite t) t event
     else if aggregate = AggregateWork
     then project_with ReduceWorkItem (work_item_projection t) (writeWorkItemProjection sqlite t) t event
     else if aggregate = AggregateStory
     then project_with ReduceStory (story_projection t) (writeStoryProjection sqlite t) t event
     else if aggregate = AggregatePoint
     then project_with ReducePoint (point_projection t) (writePointProjection sqlite t) t event
     else if aggregate = AggregateRun
     then project_with ReduceRun (run_projection t) (\<lambda>next.
       result_bind (if Kind event \<in> set run_kinds_of_retained_work
         then requireRetainedWork t (run_WorkItemID next) else Inr ()) (\<lambda>_.
       writeRunProjection sqlite t next)) t event
     else if aggregate = AggregateVisit
     then project_with ReduceNode (node_projection t) (writeNodeProjection sqlite t) t event
     else if aggregate = AggregateAttempt
     then project_with ReduceAttempt (attempt_projection t) (writeAttemptProjection sqlite t) t event
     else if aggregate = AggregateApproval
     then project_with ReduceApproval (approval_projection t) (writeApprovalProjection sqlite t) t event
     else if aggregate = AggregateAssessment
     then project_with ReduceReadinessAssessment (readiness_assessment_projection t)
       (writeReadinessAssessmentProjection sqlite t) t event
     else if aggregate = AggregateInput
     then project_with ReduceInputRequest (input_request_projection t) (writeInputRequestProjection sqlite t) t event
     else if aggregate = AggregatePermission
     then project_with ReduceProviderPermission (provider_permission_projection t)
       (writeProviderPermissionProjection sqlite t) t event
     else Inr t)"

definition applyProjection :: "engine \<Rightarrow> tables \<Rightarrow> Event \<Rightarrow> 'f store_error + tables" where
  "applyProjection sqlite t event =
    result_bind (guard_event t event) (\<lambda>_.
    if SchemaVersion event \<noteq> 1
    then Inl (ProjectionError (UnsupportedSchemaVersionError (EventID event) (SchemaVersion event)))
    else apply_switch sqlite t event)"

section \<open>Admission of source-backed runs\<close>

text \<open>What the tracker and backlog tables, which this theory does not model, say about a work item:
  whether the tables exist in this schema version, its lineage (its revision and whether it is a
  legacy native item), the number of admissions of a lineage revision, the number of unsettled
  outbox operations outside a run, the snapshot of an approved observation with its admission,
  lineage revision and pin digest, and that snapshot completed with the run and the time.\<close>

record ('f, 's) source_tables =
  source_work_bindings :: bool
  workLineage :: "string \<Rightarrow> 'f + (uint64 \<times> bool) option"
  source_ticket_admissions :: "string \<Rightarrow> uint64 \<Rightarrow> nat"
  unsettled_operations :: "string \<Rightarrow> string \<Rightarrow> nat"
  approvedRunSource :: "string \<Rightarrow> string \<Rightarrow> 'f + (string \<times> uint64 \<times> string \<times> 's)"
  captured :: "string \<Rightarrow> 's \<Rightarrow> 's"

definition sourceWorkSettled :: "('f, 's) source_tables \<Rightarrow> tables \<Rightarrow> string \<Rightarrow> string \<Rightarrow> 'f store_error + unit" where
  "sourceWorkSettled src t work excludingRun =
    (if filter (\<lambda>(i, _). i \<noteq> excludingRun) (unfinished_runs t work) \<noteq> [] then Inl SourceConflict
     else if filter (\<lambda>(_, a). attempt_RunID a \<noteq> excludingRun \<and>
         (case map_of (run_projection t) (attempt_RunID a) of None \<Rightarrow> False | Some r \<Rightarrow> run_WorkItemID r = work) \<and>
         attempt_Status a \<notin> {AttemptSucceeded, AttemptFailed, AttemptCancelled}) (attempt_projection t) \<noteq> []
     then Inl SourceConflict
     else if unsettled_operations src work excludingRun \<noteq> 0 then Inl SourceConflict else Inr ())"

definition source_work :: "tables \<Rightarrow> PendingEvent \<Rightarrow> 'f store_error + string" where
  "source_work t event =
    (if Kind event = ''run.created''
     then (case Option.bind (unmarshal_object (Data event)) (get_string ''workItemId'') of
         None \<Rightarrow> Inl EventDataInvalid | Some work \<Rightarrow> Inr work)
     else result_bind (read_row (run_projection t) (AggregateID event)) (\<lambda>r. Inr (run_WorkItemID r)))"

definition source_metadata :: "PendingEvent \<Rightarrow> (string \<times> string \<times> uint64 \<times> string) option" where
  "source_metadata event = Option.bind (unmarshal_object (Metadata event)) (\<lambda>ms. do {
     observation \<leftarrow> get_string ''sourceObservationId'' ms; admission \<leftarrow> get_string ''sourceAdmissionId'' ms;
     revision \<leftarrow> get_uint64 ''sourceLineageRevision'' ms; pin \<leftarrow> get_string ''sourcePinDigest'' ms;
     Some (observation, admission, revision, pin) })"

fun source_result :: "'f + 'a \<Rightarrow> 'f store_error + 'a" where
  "source_result (Inl f) = Inl (SourceFailure f)"
| "source_result (Inr v) = Inr v"

definition prepareTicketExecutionEvent ::
  "('f, 's) source_tables \<Rightarrow> tables \<Rightarrow> PendingEvent \<Rightarrow> 'f store_error + 's option" where
  "prepareTicketExecutionEvent src t event =
    (if Kind event \<notin> {''run.created'', ''run.started'', ''run.retried'', ''run.resumed'', ''run.continued''} \<or>
        \<not> source_work_bindings src
     then Inr None
     else result_bind (source_work t event) (\<lambda>work.
       result_bind (source_result (workLineage src work)) (\<lambda>lineage. case lineage of
         None \<Rightarrow> Inr None
       | Some (revision, legacy) \<Rightarrow>
           if legacy \<and> source_ticket_admissions src work revision = 0 then Inr None
           else result_bind (sourceWorkSettled src t work (AggregateID event)) (\<lambda>_.
             if Kind event \<noteq> ''run.created'' then Inr None
             else (case source_metadata event of
                None \<Rightarrow> Inl SourceConflict
              | Some (observation, admission, lineageRevision, pin) \<Rightarrow>
                  if observation = [] then Inl SourceConflict
                  else result_bind (source_result (approvedRunSource src work observation))
                    (\<lambda>(approvedAdmission, approvedRevision, pinDigest, snapshot).
                    if (admission \<noteq> [] \<and> admission \<noteq> approvedAdmission) \<or>
                       (lineageRevision \<noteq> 0 \<and> lineageRevision \<noteq> approvedRevision) \<or> pin \<noteq> pinDigest
                    then Inl SourceConflict
                    else Inr (Some (captured src (AggregateID event) snapshot))))))))"

section \<open>Appending\<close>

definition commit_event :: "PendingEvent \<Rightarrow> uint64 \<Rightarrow> timestamp \<Rightarrow> Event" where
  "commit_event item position recordedAt = \<lparr>SchemaVersion = SchemaVersion item, EventID = EventID item,
     AggregateType = AggregateType item, AggregateID = AggregateID item, Kind = Kind item,
     OccurredAt = OccurredAt item, CorrelationID = CorrelationID item, CausationID = CausationID item,
     CommandID = CommandID item, event_actor = event_actor item, Data = Data item,
     Metadata = Metadata item, GlobalPosition = position, AggregateRevision = ExpectedRevision item + 1,
     RecordedAt = recordedAt\<rparr>"

definition create_aggregate :: "engine \<Rightarrow> 's store \<Rightarrow> PendingEvent \<Rightarrow> 'f store_error + 's store" where
  "create_aggregate sqlite st item =
    (if sqlite (store_tables st) (InsertAggregate (AggregateID item) (AggregateType item))
     then Inr (st\<lparr>aggregates := map_put (AggregateID item) (AggregateType item, 0) (aggregates st)\<rparr>)
     else Inl (StatementFailed (InsertAggregate (AggregateID item) (AggregateType item))))"

definition update_aggregate :: "engine \<Rightarrow> 's store \<Rightarrow> Event \<Rightarrow> 'f store_error + 's store" where
  "update_aggregate sqlite st event =
    (if sqlite (store_tables st) (UpdateAggregate (AggregateID event) (AggregateRevision event))
     then Inr (st\<lparr>aggregates := map (\<lambda>(i, aggregate, revision). if i = AggregateID event
         then (i, aggregate, AggregateRevision event) else (i, aggregate, revision)) (aggregates st)\<rparr>)
     else Inl (StatementFailed (UpdateAggregate (AggregateID event) (AggregateRevision event))))"

definition persistRunSourceSnapshot :: "engine \<Rightarrow> 's store \<Rightarrow> string \<Rightarrow> 's option \<Rightarrow> 'f store_error + 's store" where
  "persistRunSourceSnapshot sqlite st run snapshot = (case snapshot of
     None \<Rightarrow> Inr st
   | Some v \<Rightarrow> if has_key (run_source_snapshots st) run \<or> \<not> sqlite (store_tables st) (WriteSource run)
       then Inl (StatementFailed (WriteSource run))
       else Inr (st\<lparr>run_source_snapshots := map_put run v (run_source_snapshots st)\<rparr>))"

text \<open>One pass of the loop of \<open>appendInTransaction\<close>. The position counter of the loop is the field
  \<open>last_position\<close>, which the code writes back after the loop.\<close>

definition append_new :: "engine \<Rightarrow> ('f, 's) source_tables \<Rightarrow> timestamp \<Rightarrow> 's store \<Rightarrow> PendingEvent \<Rightarrow>
    'f store_error + Event \<times> 's store" where
  "append_new sqlite src recordedAt st item =
    result_bind (prepareTicketExecutionEvent src (store_tables st) item) (\<lambda>sourceSnapshot.
    result_bind (readAggregateRevision st (AggregateID item) (AggregateType item)) (\<lambda>(currentRevision, exists).
    if currentRevision \<noteq> ExpectedRevision item
    then Inl (RevisionConflictError (AggregateID item) (ExpectedRevision item) currentRevision)
    else result_bind (if exists then Inr st else create_aggregate sqlite st item) (\<lambda>st.
      let event = commit_event item (last_position st + 1) recordedAt in
      result_bind (insertEvent sqlite st event) (\<lambda>st.
      result_bind (update_aggregate sqlite st event) (\<lambda>st.
      result_bind (applyProjection sqlite (store_tables st) event) (\<lambda>t.
      result_bind (persistRunSourceSnapshot sqlite (st\<lparr>store_tables := t\<rparr>) (AggregateID item) sourceSnapshot) (\<lambda>st.
      Inr (event, st\<lparr>last_position := last_position st + 1\<rparr>))))))))"

definition append_item :: "engine \<Rightarrow> ('f, 's) source_tables \<Rightarrow> timestamp \<Rightarrow> 's store \<Rightarrow> PendingEvent \<Rightarrow>
    'f store_error + Event \<times> 's store" where
  "append_item sqlite src recordedAt st item =
    result_bind (readEventByCommand st (AggregateID item) (CommandID item)) (\<lambda>found. case found of
      Some existing \<Rightarrow> if \<not> sameTransitionCommand existing item
        then Inl (IdempotencyConflictError (AggregateID item) (CommandID item))
        else Inr (existing, st)
    | None \<Rightarrow> append_new sqlite src recordedAt st item)"

fun append_items :: "engine \<Rightarrow> ('f, 's) source_tables \<Rightarrow> timestamp \<Rightarrow> 's store \<Rightarrow> PendingEvent list \<Rightarrow>
    'f store_error + Event list \<times> 's store" where
  "append_items sqlite src recordedAt st [] = Inr ([], st)"
| "append_items sqlite src recordedAt st (item # items) =
    result_bind (append_item sqlite src recordedAt st item) (\<lambda>(event, st).
    result_bind (append_items sqlite src recordedAt st items) (\<lambda>(committed, st).
    Inr (event # committed, st)))"

definition writeProjectionCheckpoint :: "engine \<Rightarrow> 's store \<Rightarrow> uint64 \<Rightarrow> timestamp \<Rightarrow> 'f store_error + 's store" where
  "writeProjectionCheckpoint sqlite st position updatedAt =
    (if sqlite (store_tables st) (WriteCheckpoint position)
     then Inr (st\<lparr>checkpoint := Some (position, updatedAt)\<rparr>)
     else Inl (StatementFailed (WriteCheckpoint position)))"

definition appendInTransaction :: "engine \<Rightarrow> ('f, 's) source_tables \<Rightarrow> timestamp \<Rightarrow> 's store \<Rightarrow>
    PendingEvent list \<Rightarrow> 'f store_error + Event list \<times> 's store" where
  "appendInTransaction sqlite src recordedAt st pending =
    result_bind (validate_all pending) (\<lambda>_.
    result_bind (append_items sqlite src recordedAt st pending) (\<lambda>(committed, st).
    if \<not> sqlite (store_tables st) (WritePosition (last_position st))
    then Inl (StatementFailed (WritePosition (last_position st)))
    else result_bind (writeProjectionCheckpoint sqlite st (last_position st) recordedAt) (\<lambda>st.
    Inr (committed, st))))"

definition Append :: "engine \<Rightarrow> ('f, 's) source_tables \<Rightarrow> timestamp \<Rightarrow> 's store \<Rightarrow>
    PendingEvent list \<Rightarrow> 'f store_error + Event list \<times> 's store" where
  "Append sqlite src recordedAt st pending =
    (if pending = [] then Inl EmptyAppend
     else result_bind (validate_all pending) (\<lambda>_. appendInTransaction sqlite src recordedAt st pending))"

section \<open>Rebuilding the projections\<close>

fun apply_all :: "engine \<Rightarrow> tables \<Rightarrow> Event list \<Rightarrow> 'f store_error + tables" where
  "apply_all sqlite t [] = Inr t"
| "apply_all sqlite t (e # es) = result_bind (applyProjection sqlite t e) (\<lambda>t. apply_all sqlite t es)"

text \<open>Clearing the tables runs under enforced foreign keys: \<open>context_manifests.attempt_id\<close> refers to
  \<open>attempt_projection\<close>, without an action on deletion and without deferral.\<close>

definition clear_projections :: "'s store \<Rightarrow> 'f store_error + 's store" where
  "clear_projections st =
    (if \<exists>i \<in> set (map fst (attempt_projection (store_tables st))). i \<in> context_manifests st then Inl ClearFailed
     else Inr (st\<lparr>store_tables := empty_tables, checkpoint := None\<rparr>))"

definition RebuildProjections :: "engine \<Rightarrow> timestamp \<Rightarrow> 's store \<Rightarrow> 'f store_error + 's store" where
  "RebuildProjections sqlite updatedAt st =
    result_bind (scanEvents (sort_key GlobalPosition (events st))) (\<lambda>es.
    result_bind (clear_projections st) (\<lambda>st.
    result_bind (apply_all sqlite (store_tables st) es) (\<lambda>t.
    writeProjectionCheckpoint sqlite (st\<lparr>store_tables := t\<rparr>)
      (if es = [] then 0 else GlobalPosition (last es)) updatedAt)))"

end
