(* ===== verification/Recovery.thy ===== *)
theory Recovery
  imports JsonPrint Coordination EventStore
begin

text \<open>
  Startup recovery: \<open>core/recovery/recovery.go\<close> and \<open>sqlite/recovery.go\<close>. Before the scheduler starts,
  every lease and every operation that an earlier process left unfinished is classified by the observer
  of its authority, and the decision is recorded and applied in one transaction. A subject without an
  observer, and one whose observer fails, is fenced for an operator.

  Observers are a parameter: what they answer for a subject. So are the answer of SQLite's integrity
  check, the engine of the event store, and the test \<open>storable\<close> that SQLite's \<open>json_valid\<close> makes of a text
  column. Since a decision is committed before the next subject is looked at, a run that fails leaves the
  earlier decisions in place: \<open>Run\<close> returns the database in every case.
\<close>

section \<open>Data\<close>

datatype SubjectKind = SubjectLease | SubjectOperation | SubjectUnknown string

record Subject =
  subject_Kind :: SubjectKind
  subject_ID :: string
  Authority :: string
  subject_State :: string
  Payload :: raw_message

record Decision =
  decision_Outcome :: Outcome
  Evidence :: raw_message

type_synonym Result = "Subject \<times> Decision"

record Report =
  Results :: "Result list"

definition ReconcileRequired :: "Report \<Rightarrow> nat" where
  "ReconcileRequired report =
     length (filter (\<lambda>(_, decision). decision_Outcome decision = OutcomeReconcileRequired) (Results report))"

definition SchedulingAllowed :: "Report \<Rightarrow> bool" where
  "SchedulingAllowed report \<longleftrightarrow> ReconcileRequired report = 0"

datatype recovery_error =
    StartupInvalid
  | IntegrityFailed
  | RebuildFailed
  | SubjectInvalid SubjectKind
  | PayloadInvalid
  | DecisionInvalid
  | OutcomeInvalid SubjectKind Outcome
  | DuplicateSubject SubjectKind string
  | ObservationCancelled
  | RecoveryConflict string SubjectKind string
  | TransitionFailed SubjectKind string
  | RecordFailed
  | EncodeFailed string

section \<open>Normal forms\<close>

definition normalizeJSONObject :: "raw_message \<Rightarrow> raw_message option" where
  "normalizeJSONObject raw = (case json_parse raw of
     Some (JObject ms) \<Rightarrow> Some (print_json (canonical (JObject ms))) | _ \<Rightarrow> None)"

definition normalizeSubject :: "Subject \<Rightarrow> recovery_error + Subject" where
  "normalizeSubject subject =
    (if subject_Kind subject \<noteq> SubjectLease \<and> subject_Kind subject \<noteq> SubjectOperation
     then Inl (SubjectInvalid (subject_Kind subject))
     else if blank (subject_ID subject) \<or> blank (Authority subject) \<or> blank (subject_State subject)
     then Inl (SubjectInvalid (subject_Kind subject))
     else if subject_Kind subject = SubjectLease \<and> subject_State subject \<notin> {''held'', ''releasing''} \<or>
        subject_Kind subject = SubjectOperation \<and> subject_State subject \<notin> {''prepared'', ''leased''}
     then Inl (SubjectInvalid (subject_Kind subject))
     else (case normalizeJSONObject (Payload subject) of
        None \<Rightarrow> Inl PayloadInvalid
      | Some payload \<Rightarrow> Inr (subject\<lparr>Payload := payload\<rparr>)))"

definition known_outcome :: "Outcome \<Rightarrow> bool" where
  "known_outcome outcome \<longleftrightarrow>
     outcome \<in> {OutcomeAdopt, OutcomeResume, OutcomeRetry, OutcomeInterrupt, OutcomeReconcileRequired}"

definition normalizeDecision :: "Decision \<Rightarrow> recovery_error + Decision" where
  "normalizeDecision decision =
    (if \<not> known_outcome (decision_Outcome decision) then Inl DecisionInvalid
     else (case normalizeJSONObject (Evidence decision) of
        None \<Rightarrow> Inl DecisionInvalid
      | Some evidence \<Rightarrow> Inr (decision\<lparr>Evidence := evidence\<rparr>)))"

fun outcome_allowed :: "SubjectKind \<Rightarrow> Outcome \<Rightarrow> bool" where
  "outcome_allowed SubjectLease outcome \<longleftrightarrow>
     outcome \<in> {OutcomeResume, OutcomeRetry, OutcomeInterrupt, OutcomeReconcileRequired}"
| "outcome_allowed SubjectOperation outcome \<longleftrightarrow>
     outcome \<in> {OutcomeAdopt, OutcomeResume, OutcomeRetry, OutcomeReconcileRequired}"
| "outcome_allowed (SubjectUnknown _) outcome \<longleftrightarrow> False"

definition validateDecisionForSubject :: "Subject \<Rightarrow> Decision \<Rightarrow> recovery_error + unit" where
  "validateDecisionForSubject subject decision =
     require (outcome_allowed (subject_Kind subject) (decision_Outcome decision))
       (OutcomeInvalid (subject_Kind subject) (decision_Outcome decision))"

definition reason_evidence :: "string \<Rightarrow> string \<Rightarrow> raw_message" where
  "reason_evidence reason authority =
     print_json (JObject [(''authority'', JString authority), (''reason'', JString reason)])"

definition missingObserverDecision :: "string \<Rightarrow> Decision" where
  "missingObserverDecision authority = \<lparr>decision_Outcome = OutcomeReconcileRequired,
     Evidence = reason_evidence ''authority_observer_unavailable'' authority\<rparr>"

definition observationFailureDecision :: "string \<Rightarrow> Decision" where
  "observationFailureDecision authority = \<lparr>decision_Outcome = OutcomeReconcileRequired,
     Evidence = reason_evidence ''authority_observation_failed'' authority\<rparr>"

section \<open>The database\<close>

record Operation =
  operation_kind :: string
  operation_aggregate :: string
  operation_request :: raw_message
  operation_state :: string
  available_at :: string
  lease_owner :: "string option"
  lease_expires_at :: "string option"
  attempt_count :: uint64
  observation_json :: "raw_message option"
  operation_updated :: string

record decision_row =
  row_authority :: string
  row_state :: string
  row_payload :: raw_message
  row_outcome :: Outcome
  row_evidence :: raw_message
  row_recorded :: string

type_synonym decision_key = "string \<times> SubjectKind \<times> string"

record 's database =
  event_store :: "'s store"
  coordination_tables :: coordination
  outbox :: "Operation gomap"
  recovery_decisions :: "(decision_key \<times> decision_row) list"

text \<open>A stored time: RFC 3339 with the fraction of \<open>formatTime\<close>. The date is computed from the number of
  days since 1 March of the year 0, in cycles of 400 years.\<close>

definition civil_date :: "int \<Rightarrow> int \<times> int \<times> int" where
  "civil_date days =
    (let z = days + 719468; era = z div 146097; doe = z mod 146097;
         yoe = (doe - doe div 1460 + doe div 36524 - doe div 146096) div 365;
         doy = doe - (365 * yoe + yoe div 4 - yoe div 100);
         mp = (5 * doy + 2) div 153; m = (if mp < 10 then mp + 3 else mp - 9) in
     (yoe + era * 400 + (if m \<le> 2 then 1 else 0), m, doy - (153 * mp + 2) div 5 + 1))"

definition pad :: "nat \<Rightarrow> int \<Rightarrow> string" where
  "pad width n = (let digits = decimal (nat n) in replicate (width - length digits) (CHR ''0'') @ digits)"

definition time_text :: "timestamp \<Rightarrow> string" where
  "time_text t =
    (let (seconds, fraction) = formatTime t; (y, m, d) = civil_date (seconds div 86400); s = seconds mod 86400 in
     pad 4 y @ ''-'' @ pad 2 m @ ''-'' @ pad 2 d @ ''T'' @ pad 2 (s div 3600) @ '':'' @ pad 2 (s div 60 mod 60) @
     '':'' @ pad 2 (s mod 60) @ fraction)"

definition marshal_time :: "timestamp \<Rightarrow> string option" where
  "marshal_time t = (let (y, m, d) = civil_date (fst (formatTime t) div 86400) in
     if 0 \<le> y \<and> y \<le> 9999 then Some (marshal_string (time_text t)) else None)"

section \<open>Pending subjects\<close>

text \<open>\<open>json.Marshal\<close> compacts a raw message and escapes the bytes that are special in HTML.\<close>

fun escape_html :: "string \<Rightarrow> string" where
  "escape_html [] = []"
| "escape_html (c # cs) =
    (if c = CHR ''<'' \<or> c = CHR ''>'' \<or> c = CHR 0x26
     then [CHR 0x5C] @ ''u00'' @ [hex_digit (of_char c div 16), hex_digit (of_char c mod 16)] @ escape_html cs
     else if has_prefix (utf8 0x2028) (c # cs) then [CHR 0x5C] @ ''u2028'' @ escape_html (drop 2 cs)
     else if has_prefix (utf8 0x2029) (c # cs) then [CHR 0x5C] @ ''u2029'' @ escape_html (drop 2 cs)
     else c # escape_html cs)"

definition marshal_raw :: "raw_message \<Rightarrow> string option" where
  "marshal_raw raw = (if json_valid raw then Some (escape_html (json_compact False raw)) else None)"

text \<open>A struct, as the names and encoded values of the fields that are not omitted.\<close>

definition marshal_struct :: "(string \<times> string) list \<Rightarrow> string" where
  "marshal_struct members =
     [CHR 0x7B] @ comma_separated (map (\<lambda>(k, v). marshal_string k @ '':'' @ v) members) @ [CHR 0x7D]"

fun scope_kind_string :: "LeaseScopeKind \<Rightarrow> string" where
  "scope_kind_string LeaseScopeAttempt = ''attempt''"
| "scope_kind_string LeaseScopeRepository = ''repository''"
| "scope_kind_string LeaseScopeWorktree = ''worktree''"
| "scope_kind_string (LeaseScopeUnknown s) = s"

definition lease_payload :: "Lease \<Rightarrow> raw_message option" where
  "lease_payload l = do {
     heartbeat \<leftarrow> marshal_time (HeartbeatAt l);
     expires \<leftarrow> marshal_time (ExpiresAt l);
     identity \<leftarrow> (if ProcessIdentity l = [] then Some []
       else map_option (\<lambda>raw. [(''processIdentity'', raw)]) (marshal_raw (ProcessIdentity l)));
     Some (marshal_struct ([(''scopeKind'', marshal_string (scope_kind_string (lease_ScopeKind l))),
       (''scopeId'', marshal_string (lease_ScopeID l)),
       (''holderAttemptId'', marshal_string (HolderAttemptID l)),
       (''fencingToken'', decimal (unat (FencingToken l))),
       (''hostBootId'', marshal_string (HostBootID l)), (''heartbeatAt'', heartbeat), (''expiresAt'', expires)] @ identity)) }"

definition lease_authority :: "Lease \<Rightarrow> string" where
  "lease_authority l = (if ProcessIdentity l \<noteq> [] then ''process''
     else ''lease:'' @ scope_kind_string (lease_ScopeKind l))"

definition lease_subject :: "Lease \<Rightarrow> recovery_error + Subject" where
  "lease_subject l = (case lease_payload l of
     None \<Rightarrow> Inl (EncodeFailed (LeaseID l))
   | Some payload \<Rightarrow> Inr \<lparr>subject_Kind = SubjectLease, subject_ID = LeaseID l, Authority = lease_authority l,
       subject_State = lease_state_string (lease_State l), Payload = payload\<rparr>)"

definition operation_payload :: "Operation \<Rightarrow> raw_message option" where
  "operation_payload v = do {
     request \<leftarrow> marshal_raw (operation_request v);
     Some (marshal_struct ([(''kind'', marshal_string (operation_kind v)),
       (''aggregateId'', marshal_string (operation_aggregate v)), (''request'', request),
       (''availableAt'', marshal_string (available_at v))] @
       (case lease_owner v of None \<Rightarrow> [] | Some owner \<Rightarrow> [(''leaseOwner'', marshal_string owner)]) @
       (case lease_expires_at v of None \<Rightarrow> [] | Some t \<Rightarrow> [(''leaseExpiresAt'', marshal_string t)]) @
       [(''attemptCount'', decimal (unat (attempt_count v)))])) }"

definition operation_subject :: "string \<Rightarrow> Operation \<Rightarrow> recovery_error + Subject" where
  "operation_subject i v = (case operation_payload v of
     None \<Rightarrow> Inl (EncodeFailed i)
   | Some payload \<Rightarrow> Inr \<lparr>subject_Kind = SubjectOperation, subject_ID = i,
       Authority = ''operation:'' @ operation_kind v, subject_State = operation_state v, Payload = payload\<rparr>)"

fun collect :: "('a \<Rightarrow> 'e + 'b) \<Rightarrow> 'a list \<Rightarrow> 'e + 'b list" where
  "collect f [] = Inr []"
| "collect f (x # xs) = result_bind (f x) (\<lambda>y. result_bind (collect f xs) (\<lambda>ys. Inr (y # ys)))"

definition pending_lease :: "Lease \<Rightarrow> bool" where
  "pending_lease l \<longleftrightarrow> lease_State l = LeaseHeld \<or> lease_State l = LeaseReleasing"

definition pending_operation :: "Operation \<Rightarrow> bool" where
  "pending_operation v \<longleftrightarrow> operation_state v = ''prepared'' \<or> operation_state v = ''leased''"

definition pendingLeaseRecovery :: "'s database \<Rightarrow> recovery_error + Subject list" where
  "pendingLeaseRecovery db = collect (\<lambda>(i, l). lease_subject l)
     (sort_key fst (filter (\<lambda>(i, l). pending_lease l) (leases (coordination_tables db))))"

definition pendingOperationRecovery :: "'s database \<Rightarrow> recovery_error + Subject list" where
  "pendingOperationRecovery db = collect (\<lambda>(i, v). operation_subject i v)
     (sort_key fst (filter (\<lambda>(i, v). pending_operation v) (outbox db)))"

definition PendingRecovery :: "'s database \<Rightarrow> recovery_error + Subject list" where
  "PendingRecovery db = result_bind (pendingLeaseRecovery db) (\<lambda>ls.
     result_bind (pendingOperationRecovery db) (\<lambda>os. Inr (ls @ os)))"

section \<open>Applying a decision\<close>

definition recover_operation :: "string \<Rightarrow> Outcome \<Rightarrow> raw_message \<Rightarrow> timestamp \<Rightarrow> Operation \<Rightarrow> Operation option" where
  "recover_operation startup outcome evidence now v = (case outcome of
     OutcomeAdopt \<Rightarrow> Some (v\<lparr>operation_state := ''committed'', lease_owner := None, lease_expires_at := None,
       observation_json := Some evidence, operation_updated := time_text now\<rparr>)
   | OutcomeResume \<Rightarrow> Some (v\<lparr>operation_state := ''leased'', lease_owner := Some startup,
       lease_expires_at := Some (time_text (now + recovery_duration)), observation_json := None,
       operation_updated := time_text now\<rparr>)
   | OutcomeRetry \<Rightarrow> Some (v\<lparr>operation_state := ''prepared'', available_at := time_text now, lease_owner := None,
       lease_expires_at := None, observation_json := None, operation_updated := time_text now\<rparr>)
   | OutcomeReconcileRequired \<Rightarrow> Some (v\<lparr>operation_state := ''reconcile_required'', lease_owner := None,
       lease_expires_at := None, observation_json := Some evidence, operation_updated := time_text now\<rparr>)
   | _ \<Rightarrow> None)"

definition applyOperationRecovery :: "Operation gomap \<Rightarrow> string \<Rightarrow> Subject \<Rightarrow> Decision \<Rightarrow> timestamp \<Rightarrow>
    recovery_error + Operation gomap" where
  "applyOperationRecovery ops startup subject decision now =
    (let failed = Inl (TransitionFailed SubjectOperation (subject_ID subject)) in
     if subject_State subject \<notin> {''prepared'', ''leased''} then failed
     else (case map_of ops (subject_ID subject) of
        None \<Rightarrow> failed
      | Some v \<Rightarrow> if operation_state v \<noteq> subject_State subject then failed
          else (case recover_operation startup (decision_Outcome decision) (Evidence decision) now v of
            None \<Rightarrow> failed
          | Some v' \<Rightarrow> Inr (map_put (subject_ID subject) v' ops))))"

definition apply_subject :: "'s database \<Rightarrow> string \<Rightarrow> Subject \<Rightarrow> Decision \<Rightarrow> timestamp \<Rightarrow>
    recovery_error + 's database" where
  "apply_subject db startup subject decision now = (case subject_Kind subject of
     SubjectLease \<Rightarrow>
       (case applyLeaseRecovery (coordination_tables db) startup (subject_ID subject) (subject_State subject)
           (decision_Outcome decision) (Evidence decision) now of
          Inl _ \<Rightarrow> Inl (TransitionFailed SubjectLease (subject_ID subject))
        | Inr s \<Rightarrow> Inr (db\<lparr>coordination_tables := s\<rparr>))
   | SubjectOperation \<Rightarrow>
       result_bind (applyOperationRecovery (outbox db) startup subject decision now) (\<lambda>ops.
       Inr (db\<lparr>outbox := ops\<rparr>))
   | SubjectUnknown k \<Rightarrow> Inl (TransitionFailed (SubjectUnknown k) (subject_ID subject)))"

definition decision_key :: "string \<Rightarrow> Subject \<Rightarrow> decision_key" where
  "decision_key startup subject = (startup, subject_Kind subject, subject_ID subject)"

definition new_row :: "Subject \<Rightarrow> Decision \<Rightarrow> timestamp \<Rightarrow> decision_row" where
  "new_row subject decision now = \<lparr>row_authority = Authority subject, row_state = subject_State subject,
     row_payload = Payload subject, row_outcome = decision_Outcome decision, row_evidence = Evidence decision,
     row_recorded = time_text now\<rparr>"

definition same_row :: "decision_row \<Rightarrow> Subject \<Rightarrow> Decision \<Rightarrow> bool" where
  "same_row row subject decision \<longleftrightarrow> row_authority row = Authority subject \<and> row_state row = subject_State subject \<and>
     row_payload row = Payload subject \<and> row_outcome row = decision_Outcome decision \<and>
     row_evidence row = Evidence decision"

definition readRecoveryDecision :: "'s database \<Rightarrow> string \<Rightarrow> Subject \<Rightarrow> Decision \<Rightarrow> bool option" where
  "readRecoveryDecision db startup subject decision =
     map_option (\<lambda>row. same_row row subject decision) (map_of (recovery_decisions db) (decision_key startup subject))"

definition ApplyRecovery :: "(string \<Rightarrow> bool) \<Rightarrow> 's database \<Rightarrow> string \<Rightarrow> Subject \<Rightarrow> Decision \<Rightarrow> timestamp \<Rightarrow>
    recovery_error + 's database" where
  "ApplyRecovery storable db startup subject decision now =
    (if startup = [] \<or> 128 < length startup then Inl StartupInvalid
     else result_bind (normalizeSubject subject) (\<lambda>subject.
       result_bind (normalizeDecision decision) (\<lambda>decision.
       result_bind (validateDecisionForSubject subject decision) (\<lambda>_.
       case readRecoveryDecision db startup subject decision of
         Some exact \<Rightarrow> if exact then Inr db
           else Inl (RecoveryConflict startup (subject_Kind subject) (subject_ID subject))
       | None \<Rightarrow> result_bind (apply_subject db startup subject decision now) (\<lambda>db.
           if storable (Payload subject) \<and> storable (Evidence decision)
           then Inr (db\<lparr>recovery_decisions :=
             map_put (decision_key startup subject) (new_row subject decision now) (recovery_decisions db)\<rparr>)
           else Inl RecordFailed)))))"

section \<open>The recovery pass\<close>

datatype observation = Observed Decision | ObservationFailed | ObserverCancelled

type_synonym observers = "string \<Rightarrow> (Subject \<Rightarrow> observation) option"

definition New :: "(string \<times> 'o option) list \<Rightarrow> bool" where
  "New observers \<longleftrightarrow> list_all (\<lambda>(authority, observer). \<not> blank authority \<and> observer \<noteq> None) observers"

definition observe :: "observers \<Rightarrow> Subject \<Rightarrow> recovery_error + Decision" where
  "observe observers subject = (case observers (Authority subject) of
     None \<Rightarrow> Inr (missingObserverDecision (Authority subject))
   | Some observer \<Rightarrow> (case observer subject of
       Observed decision \<Rightarrow> Inr decision
     | ObservationFailed \<Rightarrow> Inr (observationFailureDecision (Authority subject))
     | ObserverCancelled \<Rightarrow> Inl ObservationCancelled))"

definition decide :: "observers \<Rightarrow> Subject \<Rightarrow> recovery_error + Decision" where
  "decide observers subject =
     result_bind (observe observers subject) (\<lambda>decision.
     result_bind (normalizeDecision decision) (\<lambda>decision.
     result_bind (validateDecisionForSubject subject decision) (\<lambda>_. Inr decision)))"

fun subjectOrder :: "SubjectKind \<Rightarrow> nat" where
  "subjectOrder SubjectLease = 0"
| "subjectOrder SubjectOperation = 1"
| "subjectOrder (SubjectUnknown _) = 2"

definition sort_subjects :: "Subject list \<Rightarrow> Subject list" where
  "sort_subjects = sort_key (\<lambda>subject. (subjectOrder (subject_Kind subject), subject_ID subject))"

text \<open>The loop of \<open>Run\<close>, over the store's \<open>ApplyRecovery\<close>. The clock is read in each transaction: \<open>now i\<close> is its value for the subject at position \<open>i\<close>.\<close>

fun recover_loop :: "('db \<Rightarrow> Subject \<Rightarrow> Decision \<Rightarrow> timestamp \<Rightarrow> recovery_error + 'db) \<Rightarrow> observers \<Rightarrow>
    (nat \<Rightarrow> timestamp) \<Rightarrow> nat \<Rightarrow> Subject list \<Rightarrow> (SubjectKind \<times> string) list \<Rightarrow> Result list \<Rightarrow> 'db \<Rightarrow>
    (recovery_error + Report) \<times> 'db" where
  "recover_loop apply_recovery observers now i [] seen results db = (Inr \<lparr>Results = results\<rparr>, db)"
| "recover_loop apply_recovery observers now i (pending # subjects) seen results db =
    (case normalizeSubject pending of
       Inl e \<Rightarrow> (Inl e, db)
     | Inr subject \<Rightarrow>
        if (subject_Kind subject, subject_ID subject) \<in> set seen
        then (Inl (DuplicateSubject (subject_Kind subject) (subject_ID subject)), db)
        else (case decide observers subject of
           Inl e \<Rightarrow> (Inl e, db)
         | Inr decision \<Rightarrow> (case apply_recovery db subject decision (now i) of
             Inl e \<Rightarrow> (Inl e, db)
           | Inr db' \<Rightarrow> recover_loop apply_recovery observers now (Suc i) subjects
               ((subject_Kind subject, subject_ID subject) # seen) (results @ [(subject, decision)]) db')))"

definition CheckIntegrity :: "string list \<Rightarrow> bool" where
  "CheckIntegrity results \<longleftrightarrow> results \<noteq> [] \<and> list_all (\<lambda>r. r = ''ok'') results"

definition Run :: "engine \<Rightarrow> (string \<Rightarrow> bool) \<Rightarrow> observers \<Rightarrow> string list \<Rightarrow> (nat \<Rightarrow> timestamp) \<Rightarrow> 's database \<Rightarrow> string \<Rightarrow>
    (recovery_error + Report) \<times> 's database" where
  "Run sqlite storable observers quick_check now db startup =
    (if blank startup \<or> 128 < length startup then (Inl StartupInvalid, db)
     else if \<not> CheckIntegrity quick_check then (Inl IntegrityFailed, db)
     else (case (RebuildProjections sqlite (now 0) (event_store db) :: unit store_error + _) of
        Inl _ \<Rightarrow> (Inl RebuildFailed, db)
      | Inr st \<Rightarrow> let db = db\<lparr>event_store := st\<rparr> in
          (case PendingRecovery db of
             Inl e \<Rightarrow> (Inl e, db)
           | Inr subjects \<Rightarrow> recover_loop (\<lambda>db. ApplyRecovery storable db startup) observers now 1
               (sort_subjects subjects) [] [] db)))"

section \<open>Normal forms are fixed points\<close>

lemma canonical_object: "\<exists>ms'. canonical (JObject ms) = JObject ms'"
  by simp

lemma normalizeJSONObject_Some:
  "normalizeJSONObject raw = Some n \<longleftrightarrow>
     (\<exists>ms. json_parse raw = Some (JObject ms) \<and> n = print_json (canonical (JObject ms)))"
  by (auto simp: normalizeJSONObject_def split: option.splits json.splits)

lemma normalizeJSONObject_parse:
  assumes "normalizeJSONObject raw = Some n"
  obtains ms where "json_parse raw = Some (JObject ms)" and "json_parse n = Some (canonical (JObject ms))"
  using assms by (auto simp: normalizeJSONObject_Some simp del: canonical.simps dest: json_parse_canonical)

lemma normalizeJSONObject_fixed: "normalizeJSONObject raw = Some n \<Longrightarrow> normalizeJSONObject n = Some n"
proof -
  assume n: "normalizeJSONObject raw = Some n"
  obtain ms where ms: "json_parse raw = Some (JObject ms)" "n = print_json (canonical (JObject ms))"
    using n normalizeJSONObject_Some by blast
  obtain ms' where ms': "canonical (JObject ms) = JObject ms'" using canonical_object by blast
  have "json_parse n = Some (JObject ms')" using json_parse_canonical [OF ms(1)] ms(2) ms' by simp
  moreover have "canonical (JObject ms') = JObject ms'" using canonical_idem [of "JObject ms"] unfolding ms' .
  ultimately show ?thesis using ms(2) ms' by (metis normalizeJSONObject_Some)
qed

lemma normalizeSubject_Inr:
  assumes "normalizeSubject subject = Inr s"
  shows "subject_Kind s = subject_Kind subject" "subject_ID s = subject_ID subject"
    "Authority s = Authority subject" "subject_State s = subject_State subject"
    "subject_Kind s = SubjectLease \<or> subject_Kind s = SubjectOperation"
  using assms by (auto simp: normalizeSubject_def split: if_splits option.splits)

lemma normalizeSubject_fixed: "normalizeSubject subject = Inr s \<Longrightarrow> normalizeSubject s = Inr s"
proof -
  assume s: "normalizeSubject subject = Inr s"
  obtain payload where p: "normalizeJSONObject (Payload subject) = Some payload" "s = subject\<lparr>Payload := payload\<rparr>"
    using s by (auto simp: normalizeSubject_def split: if_splits option.splits)
  show ?thesis using s normalizeJSONObject_fixed [OF p(1)] unfolding p(2)
    by (simp add: normalizeSubject_def del: insert_iff de_Morgan_conj de_Morgan_disj split: if_split_asm)
qed

lemma normalizeDecision_Inr:
  "normalizeDecision decision = Inr d \<Longrightarrow> decision_Outcome d = decision_Outcome decision"
  by (auto simp: normalizeDecision_def split: if_splits option.splits)

lemma normalizeDecision_fixed: "normalizeDecision decision = Inr d \<Longrightarrow> normalizeDecision d = Inr d"
proof -
  assume d: "normalizeDecision decision = Inr d"
  obtain evidence where e: "normalizeJSONObject (Evidence decision) = Some evidence" "d = decision\<lparr>Evidence := evidence\<rparr>"
    using d by (auto simp: normalizeDecision_def split: if_splits option.splits)
  show ?thesis using d normalizeJSONObject_fixed [OF e(1)] unfolding e(2)
    by (simp add: normalizeDecision_def split: if_splits)
qed

definition normal_result :: "Result \<Rightarrow> bool" where
  "normal_result r \<longleftrightarrow> (case r of (s, d) \<Rightarrow> normalizeSubject s = Inr s \<and> normalizeDecision d = Inr d \<and>
     validateDecisionForSubject s d = Inr ())"

lemma decide_Inr:
  assumes "decide observers s = Inr d" and "normalizeSubject s = Inr s"
  shows "normal_result (s, d)"
  using assms by (auto simp: decide_def normal_result_def dest: normalizeDecision_fixed)

lemma unobserved_fenced:
  assumes "decide observers s = Inr d"
    and "observers (Authority s) = None \<or> (\<exists>observer. observers (Authority s) = Some observer \<and> observer s = ObservationFailed)"
  shows "decision_Outcome d = OutcomeReconcileRequired"
proof -
  obtain d0 where d0: "observe observers s = Inr d0" "normalizeDecision d0 = Inr d" using assms(1) by (auto simp: decide_def)
  have "decision_Outcome d0 = OutcomeReconcileRequired"
    using assms(2) d0(1) by (auto simp: observe_def missingObserverDecision_def observationFailureDecision_def)
  then show ?thesis using normalizeDecision_Inr [OF d0(2)] by simp
qed

section \<open>A decision is recorded once\<close>

lemma same_row_new [simp]: "same_row (new_row s d now) s d"
  by (simp add: same_row_def new_row_def)

lemma ApplyRecovery_normal:
  assumes "normal_result (s, d)" and "startup \<noteq> []" and "length startup \<le> 128"
  shows "ApplyRecovery storable db startup s d now =
    (case map_of (recovery_decisions db) (decision_key startup s) of
       Some row \<Rightarrow> if same_row row s d then Inr db else Inl (RecoveryConflict startup (subject_Kind s) (subject_ID s))
     | None \<Rightarrow> result_bind (apply_subject db startup s d now) (\<lambda>db.
         if storable (Payload s) \<and> storable (Evidence d)
         then Inr (db\<lparr>recovery_decisions := map_put (decision_key startup s) (new_row s d now) (recovery_decisions db)\<rparr>)
         else Inl RecordFailed))"
  using assms by (simp add: ApplyRecovery_def normal_result_def readRecoveryDecision_def split: option.splits)

lemma apply_subject_decisions:
  "apply_subject db startup s d now = Inr db' \<Longrightarrow> recovery_decisions db' = recovery_decisions db"
  by (auto simp: apply_subject_def split: SubjectKind.splits sum.splits)

text \<open>What a successful \<open>ApplyRecovery\<close> did: the arguments have normal forms, and either that decision was
  recorded before, or the subject has been changed and the decision added.\<close>

lemma ApplyRecovery_Inr:
  assumes "ApplyRecovery storable db startup subject decision now = Inr db'"
  obtains (before) s d row where "normalizeSubject subject = Inr s" "normalizeDecision decision = Inr d"
      "normal_result (s, d)" "map_of (recovery_decisions db) (decision_key startup s) = Some row" "same_row row s d" "db' = db"
  | (now) s d db1 where "normalizeSubject subject = Inr s" "normalizeDecision decision = Inr d" "normal_result (s, d)"
      "map_of (recovery_decisions db) (decision_key startup s) = None" "apply_subject db startup s d now = Inr db1"
      "db' = db1\<lparr>recovery_decisions := map_put (decision_key startup s) (new_row s d now) (recovery_decisions db)\<rparr>"
proof -
  obtain s d where sd: "normalizeSubject subject = Inr s" "normalizeDecision decision = Inr d"
      "validateDecisionForSubject s d = Inr ()" and start: "startup \<noteq> []" "length startup \<le> 128"
    using assms by (auto simp: ApplyRecovery_def split: if_splits)
  have normal: "normal_result (s, d)"
    using sd normalizeSubject_fixed normalizeDecision_fixed by (simp add: normal_result_def)
  have same: "ApplyRecovery storable db startup s d now = Inr db'"
    using assms sd normal start by (simp add: ApplyRecovery_def normal_result_def)
  show thesis
    using same before [OF sd(1,2) normal] now [OF sd(1,2) normal]
    by (auto simp: ApplyRecovery_normal [OF normal start] apply_subject_decisions split: option.splits if_splits)
qed

definition recorded :: "string \<Rightarrow> 's database \<Rightarrow> Result \<Rightarrow> bool" where
  "recorded startup db r \<longleftrightarrow> (case r of (s, d) \<Rightarrow>
     \<exists>row. map_of (recovery_decisions db) (decision_key startup s) = Some row \<and> same_row row s d)"

lemma ApplyRecovery_append_only:
  assumes "ApplyRecovery storable db startup subject decision now = Inr db'"
    and "map_of (recovery_decisions db) k = Some row"
  shows "map_of (recovery_decisions db') k = Some row"
  using assms(1) by (rule ApplyRecovery_Inr) (use assms(2) in auto)

lemma ApplyRecovery_recorded:
  assumes "ApplyRecovery storable db startup subject decision now = Inr db'"
    and "normalizeSubject subject = Inr s" and "normalizeDecision decision = Inr d"
  shows "recorded startup db' (s, d)"
  using assms(1) by (rule ApplyRecovery_Inr) (use assms(2,3) in \<open>auto simp: recorded_def\<close>)

section \<open>The loop over a store\<close>

definition result_key :: "Result \<Rightarrow> SubjectKind \<times> string" where
  "result_key r = (subject_Kind (fst r), subject_ID (fst r))"

text \<open>The decisions \<open>results\<close>, applied one after another.\<close>

fun applied :: "('db \<Rightarrow> Subject \<Rightarrow> Decision \<Rightarrow> timestamp \<Rightarrow> recovery_error + 'db) \<Rightarrow> (nat \<Rightarrow> timestamp) \<Rightarrow> nat \<Rightarrow>
    Result list \<Rightarrow> 'db \<Rightarrow> 'db \<Rightarrow> bool" where
  "applied apply_recovery now i [] db db' \<longleftrightarrow> db' = db"
| "applied apply_recovery now i (r # results) db db' \<longleftrightarrow>
    (\<exists>db1. apply_recovery db (fst r) (snd r) (now i) = Inr db1 \<and> applied apply_recovery now (Suc i) results db1 db')"

definition classified :: "observers \<Rightarrow> Subject \<Rightarrow> Result \<Rightarrow> bool" where
  "classified observers pending r \<longleftrightarrow> normalizeSubject pending = Inr (fst r) \<and> decide observers (fst r) = Inr (snd r)"

lemma classified_normal: "classified observers pending r \<Longrightarrow> normal_result r"
  using decide_Inr normalizeSubject_fixed by (cases r) (auto simp: classified_def)

lemma recover_loop_Inr:
  "recover_loop apply_recovery observers now i subjects seen results db = (Inr report, db') \<Longrightarrow>
   \<exists>new. Results report = results @ new \<and> list_all2 (classified observers) subjects new \<and>
     distinct (map result_key new) \<and> set (map result_key new) \<inter> set seen = {} \<and>
     applied apply_recovery now i new db db'"
proof (induction subjects arbitrary: i seen results db)
  case Nil
  then show ?case by auto
next
  case (Cons pending subjects)
  from Cons.prems obtain s d db1 where s: "normalizeSubject pending = Inr s" and d: "decide observers s = Inr d"
    and fresh: "(subject_Kind s, subject_ID s) \<notin> set seen" and db1: "apply_recovery db s d (now i) = Inr db1"
    and rest: "recover_loop apply_recovery observers now (Suc i) subjects ((subject_Kind s, subject_ID s) # seen)
      (results @ [(s, d)]) db1 = (Inr report, db')"
    by (auto split: sum.splits if_splits)
  from Cons.IH [OF rest] obtain new where new: "Results report = (results @ [(s, d)]) @ new"
      "list_all2 (classified observers) subjects new" "distinct (map result_key new)"
      "set (map result_key new) \<inter> set ((subject_Kind s, subject_ID s) # seen) = {}"
      "applied apply_recovery now (Suc i) new db1 db'" by blast
  have "classified observers pending (s, d)" "result_key (s, d) = (subject_Kind s, subject_ID s)"
    using s d by (simp_all add: classified_def result_key_def)
  then show ?case using new fresh db1 by (intro exI [of _ "(s, d) # new"]) auto
qed

lemma list_all2_paired:
  assumes "list_all2 P xs ys"
  shows "y \<in> set ys \<Longrightarrow> \<exists>x \<in> set xs. P x y" "x \<in> set xs \<Longrightarrow> \<exists>y \<in> set ys. P x y"
  using assms by (induction rule: list_all2_induct) auto

lemma applied_invariant:
  assumes "applied apply_recovery now i results db db'" and "P db"
    and "\<And>db db1 s d t. apply_recovery db s d t = Inr db1 \<Longrightarrow> P db \<Longrightarrow> P db1"
  shows "P db'"
  using assms(1,2)
proof (induction results arbitrary: i db)
  case (Cons r results)
  from Cons.prems(1) obtain db1 where db1: "apply_recovery db (fst r) (snd r) (now i) = Inr db1"
    and rest: "applied apply_recovery now (Suc i) results db1 db'" by auto
  show ?case by (rule Cons.IH [OF rest assms(3) [OF db1 Cons.prems(2)]])
qed simp

text \<open>What the reconciler relies on: a store that remembers a decision for ever once it has applied it.\<close>

locale recovery_store =
  fixes apply_recovery :: "'db \<Rightarrow> Subject \<Rightarrow> Decision \<Rightarrow> timestamp \<Rightarrow> recovery_error + 'db"
    and remembers :: "'db \<Rightarrow> Result \<Rightarrow> bool"
  assumes applied_remembered: "normal_result (s, d) \<Longrightarrow> apply_recovery db s d t = Inr db' \<Longrightarrow> remembers db' (s, d)"
    and remembered_for_ever: "apply_recovery db s d t = Inr db' \<Longrightarrow> remembers db r \<Longrightarrow> remembers db' r"
begin

lemma applied_keeps: "applied apply_recovery now i results db db' \<Longrightarrow> remembers db r \<Longrightarrow> remembers db' r"
  by (erule applied_invariant) (auto dest: remembered_for_ever)

lemma applied_all:
  "applied apply_recovery now i results db db' \<Longrightarrow> \<forall>r \<in> set results. normal_result r \<Longrightarrow> r \<in> set results \<Longrightarrow>
     remembers db' r"
proof (induction results arbitrary: i db)
  case (Cons x results)
  then obtain db1 where db1: "apply_recovery db (fst x) (snd x) (now i) = Inr db1"
    and rest: "applied apply_recovery now (Suc i) results db1 db'" by auto
  have "remembers db1 x" using applied_remembered [of "fst x" "snd x"] db1 Cons.prems(2) by simp
  then have "remembers db' x" by (rule applied_keeps [OF rest])
  moreover have "r \<in> set results \<Longrightarrow> remembers db' r" using Cons.IH [OF rest] Cons.prems(2) by simp
  ultimately show ?case using Cons.prems(3) by auto
qed simp

lemma loop_remembered:
  assumes "recover_loop apply_recovery observers now i subjects [] [] db = (Inr report, db')"
    and "r \<in> set (Results report)"
  shows "remembers db' r"
proof -
  from recover_loop_Inr [OF assms(1)] have new: "list_all2 (classified observers) subjects (Results report)"
    "applied apply_recovery now i (Results report) db db'" by auto
  have "\<forall>r \<in> set (Results report). normal_result r"
    using list_all2_paired(1) [OF new(1)] classified_normal by blast
  then show ?thesis using applied_all new(2) assms(2) by blast
qed

end

interpretation sqlite_store: recovery_store "\<lambda>db. ApplyRecovery storable db startup" "recorded startup"
  for storable startup
proof
  fix s d and db db' :: "'a database" and t
  assume "normal_result (s, d)" "ApplyRecovery storable db startup s d t = Inr db'"
  then show "recorded startup db' (s, d)" by (auto simp: normal_result_def intro: ApplyRecovery_recorded)
next
  fix s d r and db db' :: "'a database" and t
  assume "ApplyRecovery storable db startup s d t = Inr db'" "recorded startup db r"
  then show "recorded startup db' r" by (auto simp: recorded_def dest: ApplyRecovery_append_only)
qed

section \<open>What becomes of the records\<close>

text \<open>A lease or an operation, under the kind and the id that a subject has.\<close>

fun durable_record :: "'s database \<Rightarrow> SubjectKind \<times> string \<Rightarrow> (Lease + Operation) option" where
  "durable_record db (SubjectLease, i) = map_option Inl (map_of (leases (coordination_tables db)) i)"
| "durable_record db (SubjectOperation, i) = map_option Inr (map_of (outbox db) i)"
| "durable_record db (SubjectUnknown _, i) = None"

fun recover_record :: "string \<Rightarrow> Result \<Rightarrow> timestamp \<Rightarrow> Lease + Operation \<Rightarrow> (Lease + Operation) option" where
  "recover_record startup (s, d) t (Inl l) =
     (case recover_lease startup (subject_State s) (decision_Outcome d) (Evidence d) l t of
        Inl _ \<Rightarrow> None | Inr l' \<Rightarrow> Some (Inl l'))"
| "recover_record startup (s, d) t (Inr v) =
     (if operation_state v = subject_State s
      then map_option Inr (recover_operation startup (decision_Outcome d) (Evidence d) t v) else None)"

fun pending_record :: "Lease + Operation \<Rightarrow> bool" where
  "pending_record (Inl l) = pending_lease l"
| "pending_record (Inr v) = pending_operation v"

fun record_authority :: "Lease + Operation \<Rightarrow> string" where
  "record_authority (Inl l) = lease_authority l"
| "record_authority (Inr v) = ''operation:'' @ operation_kind v"

fun needs_operator :: "Lease + Operation \<Rightarrow> bool" where
  "needs_operator (Inl l) \<longleftrightarrow> lease_State l = LeaseReconcileRequired"
| "needs_operator (Inr v) \<longleftrightarrow> operation_state v = ''reconcile_required''"

text \<open>Nothing of an earlier process is in progress: what is held or leased is so for this startup, and
  what is prepared has no owner.\<close>

fun settled :: "string \<Rightarrow> Lease + Operation \<Rightarrow> bool" where
  "settled startup (Inl l) \<longleftrightarrow> (pending_lease l \<longrightarrow> lease_State l = LeaseHeld \<and> DaemonInstanceID l = startup)"
| "settled startup (Inr v) \<longleftrightarrow> (pending_operation v \<longrightarrow>
     operation_state v = ''prepared'' \<and> lease_owner v = None \<or> operation_state v = ''leased'' \<and> lease_owner v = Some startup)"

lemma durable_record_other [simp]:
  "durable_record (db\<lparr>event_store := st\<rparr>) k = durable_record db k"
  "durable_record (db\<lparr>recovery_decisions := rows\<rparr>) k = durable_record db k"
  by (cases "(db, k)" rule: durable_record.cases; simp)+

lemma apply_subject_record:
  assumes "apply_subject db startup s d t = Inr db'"
  shows "\<exists>x x'. durable_record db (result_key (s, d)) = Some x \<and> recover_record startup (s, d) t x = Some x' \<and>
    (\<forall>k. durable_record db' k = (if k = result_key (s, d) then Some x' else durable_record db k))"
proof (cases "subject_Kind s")
  case SubjectLease
  then obtain c where c: "applyLeaseRecovery (coordination_tables db) startup (subject_ID s) (subject_State s)
      (decision_Outcome d) (Evidence d) t = Inr c" "db' = db\<lparr>coordination_tables := c\<rparr>"
    using assms by (auto simp: apply_subject_def split: sum.splits)
  then obtain l l' where l: "map_of (leases (coordination_tables db)) (subject_ID s) = Some l"
      "recover_lease startup (subject_State s) (decision_Outcome d) (Evidence d) l t = Inr l'"
      "c = (coordination_tables db)\<lparr>leases := map_put (subject_ID s) l' (leases (coordination_tables db))\<rparr>"
    by (auto simp: applyLeaseRecovery_def split: option.splits)
  have "durable_record db' k = (if k = (SubjectLease, subject_ID s) then Some (Inl l') else durable_record db k)" for k
    using c(2) l(3) by (cases "(db, k)" rule: durable_record.cases) auto
  then show ?thesis using l SubjectLease by (simp add: result_key_def)
next
  case SubjectOperation
  then obtain ops where ops: "applyOperationRecovery (outbox db) startup s d t = Inr ops" "db' = db\<lparr>outbox := ops\<rparr>"
    using assms by (auto simp: apply_subject_def)
  then obtain v v' where v: "map_of (outbox db) (subject_ID s) = Some v" "operation_state v = subject_State s"
      "recover_operation startup (decision_Outcome d) (Evidence d) t v = Some v'"
      "ops = map_put (subject_ID s) v' (outbox db)"
    by (auto simp: applyOperationRecovery_def Let_def simp del: insert_iff split: option.splits if_splits)
  have "durable_record db' k = (if k = (SubjectOperation, subject_ID s) then Some (Inr v') else durable_record db k)" for k
    using ops(2) v(4) by (cases "(db, k)" rule: durable_record.cases) auto
  then show ?thesis using v SubjectOperation by (simp add: result_key_def)
next
  case (SubjectUnknown k)
  then show ?thesis using assms by (simp add: apply_subject_def)
qed

lemma ApplyRecovery_fresh:
  assumes "ApplyRecovery storable db startup s d t = Inr db'" and "normal_result (s, d)"
    and "map_of (recovery_decisions db) (startup, result_key (s, d)) = None"
  shows "\<exists>x x'. durable_record db (result_key (s, d)) = Some x \<and> recover_record startup (s, d) t x = Some x' \<and>
      (\<forall>k. durable_record db' k = (if k = result_key (s, d) then Some x' else durable_record db k))"
    and "k \<noteq> result_key (s, d) \<Longrightarrow> map_of (recovery_decisions db') (startup, k) = map_of (recovery_decisions db) (startup, k)"
proof -
  have key: "decision_key startup s = (startup, result_key (s, d))" by (simp add: decision_key_def result_key_def)
  from assms(1) obtain db1 where db1: "apply_subject db startup s d t = Inr db1"
      "db' = db1\<lparr>recovery_decisions := map_put (decision_key startup s) (new_row s d t) (recovery_decisions db)\<rparr>"
    by (rule ApplyRecovery_Inr) (use assms(2,3) key in \<open>auto simp: normal_result_def\<close>)
  show "\<exists>x x'. durable_record db (result_key (s, d)) = Some x \<and> recover_record startup (s, d) t x = Some x' \<and>
      (\<forall>k. durable_record db' k = (if k = result_key (s, d) then Some x' else durable_record db k))"
    using apply_subject_record [OF db1(1)] db1(2) by simp
  show "k \<noteq> result_key (s, d) \<Longrightarrow> map_of (recovery_decisions db') (startup, k) = map_of (recovery_decisions db) (startup, k)"
    using db1(2) key by simp
qed

lemma applied_records:
  assumes "applied (\<lambda>db. ApplyRecovery storable db startup) now i results db db'"
    and "\<forall>r \<in> set results. normal_result r" and "distinct (map result_key results)"
    and "\<forall>r \<in> set results. map_of (recovery_decisions db) (startup, result_key r) = None"
  shows "(\<forall>k. k \<notin> result_key ` set results \<longrightarrow> durable_record db' k = durable_record db k) \<and>
    (\<forall>r \<in> set results. \<exists>x x' t. durable_record db (result_key r) = Some x \<and> recover_record startup r t x = Some x' \<and>
       durable_record db' (result_key r) = Some x')"
  using assms
proof (induction results arbitrary: i db)
  case (Cons r results)
  obtain s d where r: "r = (s, d)" by (cases r)
  from Cons.prems(1) obtain db1 where db1: "ApplyRecovery storable db startup s d (now i) = Inr db1"
    and rest: "applied (\<lambda>db. ApplyRecovery storable db startup) now (Suc i) results db1 db'" by (auto simp: r)
  have normal: "normal_result (s, d)" and none: "map_of (recovery_decisions db) (startup, result_key (s, d)) = None"
    using Cons.prems by (auto simp: r)
  from ApplyRecovery_fresh(1) [OF db1 normal none] obtain x x' where
    x: "durable_record db (result_key r) = Some x" "recover_record startup r (now i) x = Some x'"
    and all: "\<And>k. durable_record db1 k = (if k = result_key r then Some x' else durable_record db k)" by (auto simp: r)
  have other: "result_key q \<noteq> result_key r" if "q \<in> set results" for q
    using that Cons.prems(3) by (metis distinct.simps(2) image_eqI list.map(2) list.set_map)
  have "\<forall>q \<in> set results. map_of (recovery_decisions db1) (startup, result_key q) = None"
  proof
    fix q assume q: "q \<in> set results"
    then show "map_of (recovery_decisions db1) (startup, result_key q) = None"
      using Cons.prems(4) ApplyRecovery_fresh(2) [OF db1 normal none, of "result_key q"] other [OF q] by (simp add: r)
  qed
  moreover have "\<forall>r \<in> set results. normal_result r" "distinct (map result_key results)"
    using Cons.prems(2,3) by simp_all
  ultimately have IH: "\<And>k. k \<notin> result_key ` set results \<Longrightarrow> durable_record db' k = durable_record db1 k"
    "\<And>r. r \<in> set results \<Longrightarrow> \<exists>x x' t. durable_record db1 (result_key r) = Some x \<and> recover_record startup r t x = Some x' \<and>
       durable_record db' (result_key r) = Some x'"
    using Cons.IH [OF rest] by blast+
  have "durable_record db' (result_key r) = Some x'" using IH(1) [of "result_key r"] all Cons.prems(3) by simp
  moreover have "durable_record db1 (result_key q) = durable_record db (result_key q)" if "q \<in> set results" for q
    using other [OF that] all by simp
  ultimately show ?case using x IH all by (auto simp del: recover_record.simps)
qed simp

lemma recover_lease_pending:
  "recover_lease startup observed outcome evidence l t = Inr l' \<Longrightarrow> pending_lease l"
  by (cases "lease_State l") (auto simp: recover_lease_def pending_lease_def split: if_splits)

lemma recover_record_pending:
  assumes "recover_record startup (s, d) t x = Some x'" and "subject_State s \<in> {''prepared'', ''leased''} \<or> (\<exists>l. x = Inl l)"
  shows "pending_record x"
  using assms
proof (cases x)
  case (Inl l)
  then show ?thesis using assms(1) recover_lease_pending by (auto split: sum.splits)
qed (auto simp: pending_operation_def split: if_splits)

lemma recover_lease_settled:
  "recover_lease startup observed outcome evidence l t = Inr l' \<Longrightarrow> settled startup (Inl l')"
  by (cases "lease_State l") (auto simp: recover_lease_def pending_lease_def split: if_splits Outcome.splits)

lemma recover_operation_settled:
  "recover_operation startup outcome evidence t v = Some v' \<Longrightarrow> settled startup (Inr v')"
  by (auto simp: recover_operation_def pending_operation_def split: Outcome.splits)

lemma recover_record_settled: "recover_record startup r t x = Some x' \<Longrightarrow> settled startup x'"
  using recover_lease_settled recover_operation_settled
  by (cases "(startup, r, t, x)" rule: recover_record.cases) (auto simp del: settled.simps split: sum.splits if_splits)

lemma recover_record_operator:
  "recover_record startup (s, d) t x = Some x' \<Longrightarrow> needs_operator x' \<longleftrightarrow> decision_Outcome d = OutcomeReconcileRequired"
proof (cases x)
  case (Inl l)
  assume "recover_record startup (s, d) t x = Some x'"
  then obtain l' where "recover_lease startup (subject_State s) (decision_Outcome d) (Evidence d) l t = Inr l'" "x' = Inl l'"
    using Inl by (auto split: sum.splits)
  then show ?thesis using recover_lease_pending [of startup "subject_State s"]
    by (auto simp: recover_lease_def pending_lease_def split: if_splits Outcome.splits)
next
  case (Inr v)
  assume "recover_record startup (s, d) t x = Some x'"
  then show ?thesis using Inr by (auto simp: recover_operation_def split: if_splits Outcome.splits)
qed

lemma collect_Inr: "collect f xs = Inr ys \<Longrightarrow> list_all2 (\<lambda>x y. f x = Inr y) xs ys"
  by (induction xs arbitrary: ys) auto

lemma PendingRecovery_covers:
  assumes "PendingRecovery db = Inr subjects" and "coordination_ok (coordination_tables db)"
    and "durable_record db k = Some x" and "pending_record x"
  shows "\<exists>p \<in> set subjects. (subject_Kind p, subject_ID p) = k \<and> Authority p = record_authority x"
proof -
  obtain ls os where ls: "pendingLeaseRecovery db = Inr ls" and os: "pendingOperationRecovery db = Inr os"
    and subjects: "subjects = ls @ os"
    using assms(1) by (auto simp: PendingRecovery_def)
  show ?thesis
  proof (cases "(db, k)" rule: durable_record.cases)
    case (1 db' i)
    then obtain l where l: "map_of (leases (coordination_tables db)) i = Some l" "x = Inl l" using assms(3) by auto
    then have "(i, l) \<in> set (sort_key fst (filter (\<lambda>(i, l). pending_lease l) (leases (coordination_tables db))))"
      using assms(4) by (auto dest: map_of_SomeD)
    from list_all2_paired(2) [OF collect_Inr [OF ls [unfolded pendingLeaseRecovery_def]] this]
    obtain p where "p \<in> set ls" "lease_subject l = Inr p" by auto
    then show ?thesis using 1 l subjects coordination_okD(1) [OF assms(2) l(1)]
      by (intro bexI [of _ p]) (auto simp: lease_subject_def split: option.splits)
  next
    case (2 db' i)
    then obtain v where v: "map_of (outbox db) i = Some v" "x = Inr v" using assms(3) by auto
    then have "(i, v) \<in> set (sort_key fst (filter (\<lambda>(i, v). pending_operation v) (outbox db)))"
      using assms(4) by (auto dest: map_of_SomeD)
    from list_all2_paired(2) [OF collect_Inr [OF os [unfolded pendingOperationRecovery_def]] this]
    obtain p where "p \<in> set os" "operation_subject i v = Inr p" by auto
    then show ?thesis using 2 v subjects
      by (intro bexI [of _ p]) (auto simp: operation_subject_def split: option.splits)
  qed (use assms(3) in simp)
qed

lemma Run_Inr:
  assumes "Run sqlite storable observers quick_check now db startup = (Inr report, db')"
  obtains db0 subjects where "PendingRecovery db0 = Inr subjects" "coordination_tables db0 = coordination_tables db"
    "recovery_decisions db0 = recovery_decisions db" "\<And>k. durable_record db0 k = durable_record db k"
    "recover_loop (\<lambda>db. ApplyRecovery storable db startup) observers now 1 (sort_subjects subjects) [] [] db0 = (Inr report, db')"
  using assms by (auto simp: Run_def Let_def split: if_splits sum.splits intro: that)

lemma Run_results:
  assumes "Run sqlite storable observers quick_check now db startup = (Inr report, db')"
    and "coordination_ok (coordination_tables db)"
    and "\<And>k. map_of (recovery_decisions db) (startup, k) = None"
  shows "durable_record db k = Some x \<Longrightarrow> pending_record x \<Longrightarrow>
      \<exists>r \<in> set (Results report). result_key r = k \<and> Authority (fst r) = record_authority x"
    and "r \<in> set (Results report) \<Longrightarrow> decide observers (fst r) = Inr (snd r)"
    and "r \<in> set (Results report) \<Longrightarrow> \<exists>x x' t. durable_record db (result_key r) = Some x \<and> pending_record x \<and>
      recover_record startup r t x = Some x' \<and> durable_record db' (result_key r) = Some x'"
    and "k \<notin> result_key ` set (Results report) \<Longrightarrow> durable_record db' k = durable_record db k"
proof -
  from assms(1) obtain db0 subjects where pending: "PendingRecovery db0 = Inr subjects"
    and same: "coordination_tables db0 = coordination_tables db" "recovery_decisions db0 = recovery_decisions db"
      "\<And>k. durable_record db0 k = durable_record db k"
    and loop: "recover_loop (\<lambda>db. ApplyRecovery storable db startup) observers now 1 (sort_subjects subjects) [] [] db0 = (Inr report, db')"
    by (rule Run_Inr) blast
  from recover_loop_Inr [OF loop] have all: "list_all2 (classified observers) (sort_subjects subjects) (Results report)"
    and keys: "distinct (map result_key (Results report))"
    and steps: "applied (\<lambda>db. ApplyRecovery storable db startup) now 1 (Results report) db0 db'" by auto
  show "decide observers (fst r) = Inr (snd r)" if "r \<in> set (Results report)"
    using list_all2_paired(1) [OF all that] by (auto simp: classified_def)
  show "\<exists>r \<in> set (Results report). result_key r = k \<and> Authority (fst r) = record_authority x"
    if x: "durable_record db k = Some x" "pending_record x"
  proof -
    obtain p where p: "p \<in> set subjects" "(subject_Kind p, subject_ID p) = k" "Authority p = record_authority x"
      using PendingRecovery_covers [OF pending, of k x] assms(2) same(1) same(3) [of k] x by auto
    then have "p \<in> set (sort_subjects subjects)" by (simp add: sort_subjects_def)
    from list_all2_paired(2) [OF all this] obtain r where r: "r \<in> set (Results report)" "normalizeSubject p = Inr (fst r)"
      by (auto simp: classified_def)
    then show ?thesis using p normalizeSubject_Inr(1-3) [OF r(2)] by (intro bexI [of _ r]) (simp_all add: result_key_def)
  qed
  have normal: "\<forall>r \<in> set (Results report). normal_result r"
    using list_all2_paired(1) [OF all] classified_normal by blast
  have fresh: "\<forall>r \<in> set (Results report). map_of (recovery_decisions db0) (startup, result_key r) = None"
    using assms(3) same(2) by simp
  note records = applied_records [OF steps normal keys fresh]
  show "durable_record db' k = durable_record db k" if "k \<notin> result_key ` set (Results report)"
    using conjunct1 [OF records] that same(3) [of k] by metis
  show "\<exists>x x' t. durable_record db (result_key r) = Some x \<and> pending_record x \<and>
      recover_record startup r t x = Some x' \<and> durable_record db' (result_key r) = Some x'" if r: "r \<in> set (Results report)"
  proof -
    obtain x x' t where x: "durable_record db (result_key r) = Some x" "recover_record startup r t x = Some x'"
        "durable_record db' (result_key r) = Some x'" using conjunct2 [OF records] r same(3) by metis
    have "subject_Kind (fst r) = SubjectOperation \<Longrightarrow> subject_State (fst r) \<in> {''prepared'', ''leased''}"
      using normal r by (cases r) (auto simp: normal_result_def normalizeSubject_def split: if_splits)
    then have "subject_State (fst r) \<in> {''prepared'', ''leased''} \<or> (\<exists>l. x = Inl l)"
      using x(1) by (cases "subject_Kind (fst r)") (auto simp: result_key_def)
    then have "pending_record x" using recover_record_pending [of startup "fst r" "snd r" t x x'] x(2) by simp
    then show ?thesis using x by blast
  qed
qed

text \<open>C29: Startup recovery leaves nothing of an earlier process in progress. After a pass that succeeds, for a
  startup id that is not in use yet, every lease and operation that was pending has been changed in the way
  the reported decision says, every other one is as it was, and whatever is still held or leased belongs to
  this startup.\<close>

theorem recovery_settles_everything:
  assumes "Run sqlite storable observers quick_check now db startup = (Inr report, db')"
    and "coordination_ok (coordination_tables db)"
    and "\<And>k. map_of (recovery_decisions db) (startup, k) = None"
  shows "(\<forall>k x. durable_record db k = Some x \<longrightarrow>
      (if pending_record x
       then \<exists>r \<in> set (Results report). \<exists>x' t. result_key r = k \<and> recover_record startup r t x = Some x' \<and> durable_record db' k = Some x'
       else durable_record db' k = Some x)) \<and>
    (\<forall>k x'. durable_record db' k = Some x' \<longrightarrow> settled startup x')"
proof -
  note run = Run_results [OF assms]
  have done_if: "pending_record x \<and> (\<exists>r \<in> set (Results report). \<exists>x' t. result_key r = k \<and> recover_record startup r t x = Some x' \<and>
      durable_record db' k = Some x')" if "durable_record db k = Some x" "k \<in> result_key ` set (Results report)" for k x
    using run(3) that by fastforce
  have not_pending: "\<not> pending_record x" if "durable_record db k = Some x" "k \<notin> result_key ` set (Results report)" for k x
    using run(1) that by blast
  have settled_pending: "\<not> pending_record x \<Longrightarrow> settled startup x" for x by (cases x) auto
  have "settled startup x'" if "durable_record db' k = Some x'" for k x'
  proof (cases "k \<in> result_key ` set (Results report)")
    case True
    then show ?thesis using run(3) recover_record_settled that by fastforce
  next
    case False
    then show ?thesis using run(4) not_pending settled_pending that by metis
  qed
  moreover have "if pending_record x
       then \<exists>r \<in> set (Results report). \<exists>x' t. result_key r = k \<and> recover_record startup r t x = Some x' \<and> durable_record db' k = Some x'
       else durable_record db' k = Some x" if "durable_record db k = Some x" for k x
    using done_if [OF that] not_pending [OF that] run(4) that by metis
  ultimately show ?thesis by blast
qed

text \<open>C30: Recovery fails closed. A pending lease or operation whose authority has no observer, or whose observer
  fails, is fenced for an operator by a successful pass, and the scheduler is not admitted. More generally the
  scheduler is admitted exactly when no record that was pending has been left for an operator.\<close>

theorem recovery_fails_closed:
  assumes "Run sqlite storable observers quick_check now db startup = (Inr report, db')"
    and "coordination_ok (coordination_tables db)"
    and "\<And>k. map_of (recovery_decisions db) (startup, k) = None"
  shows "(\<forall>k x. durable_record db k = Some x \<longrightarrow> pending_record x \<longrightarrow>
      (case observers (record_authority x) of None \<Rightarrow> True
       | Some observer \<Rightarrow> \<forall>s. (subject_Kind s, subject_ID s) = k \<longrightarrow> observer s = ObservationFailed) \<longrightarrow>
      (\<exists>x'. durable_record db' k = Some x' \<and> needs_operator x') \<and> \<not> SchedulingAllowed report) \<and>
    (SchedulingAllowed report \<longleftrightarrow>
      (\<forall>k x x'. durable_record db k = Some x \<longrightarrow> pending_record x \<longrightarrow> durable_record db' k = Some x' \<longrightarrow> \<not> needs_operator x'))"
proof -
  note run = Run_results [OF assms]
  have allowed: "SchedulingAllowed report \<longleftrightarrow> (\<forall>r \<in> set (Results report). decision_Outcome (snd r) \<noteq> OutcomeReconcileRequired)"
    by (auto simp: SchedulingAllowed_def ReconcileRequired_def filter_empty_conv)
  have outcome: "\<exists>x x'. durable_record db (result_key r) = Some x \<and> pending_record x \<and> durable_record db' (result_key r) = Some x' \<and>
      (needs_operator x' \<longleftrightarrow> decision_Outcome (snd r) = OutcomeReconcileRequired)" if "r \<in> set (Results report)" for r
    using run(3) [OF that] recover_record_operator [of startup "fst r" "snd r"] by (metis prod.collapse)
  have "SchedulingAllowed report \<longleftrightarrow>
      (\<forall>k x x'. durable_record db k = Some x \<longrightarrow> pending_record x \<longrightarrow> durable_record db' k = Some x' \<longrightarrow> \<not> needs_operator x')"
    unfolding allowed using outcome run(1) by (metis option.inject)
  moreover have "(\<exists>x'. durable_record db' k = Some x' \<and> needs_operator x') \<and> \<not> SchedulingAllowed report"
    if x: "durable_record db k = Some x" "pending_record x"
      and unobserved: "case observers (record_authority x) of None \<Rightarrow> True
       | Some observer \<Rightarrow> \<forall>s. (subject_Kind s, subject_ID s) = k \<longrightarrow> observer s = ObservationFailed" for k x
  proof -
    obtain r where r: "r \<in> set (Results report)" "result_key r = k" "Authority (fst r) = record_authority x"
      using run(1) [OF x] by blast
    have "decision_Outcome (snd r) = OutcomeReconcileRequired"
      using unobserved_fenced [OF run(2) [OF r(1)]] unobserved r(2,3) by (auto simp: result_key_def split: option.splits)
    then show ?thesis using outcome [OF r(1)] r allowed by blast
  qed
  ultimately show ?thesis by blast
qed

text \<open>C31: The report is durable. Every result of a successful pass is in the table of recovery decisions, under
  the startup, the kind and the id of its subject, with the subject's authority, state and payload and the
  decision's outcome and evidence exactly as reported; the results name each subject once, leases first and
  in order of their ids.\<close>

theorem report_is_durable:
  assumes "Run sqlite storable observers quick_check now db startup = (Inr report, db')"
  shows "(\<forall>(s, d) \<in> set (Results report). \<exists>row.
      map_of (recovery_decisions db') (startup, subject_Kind s, subject_ID s) = Some row \<and>
      row_authority row = Authority s \<and> row_state row = subject_State s \<and> row_payload row = Payload s \<and>
      row_outcome row = decision_Outcome d \<and> row_evidence row = Evidence d) \<and>
    distinct (map (\<lambda>(s, d). (subject_Kind s, subject_ID s)) (Results report)) \<and>
    sorted (map (\<lambda>(s, d). (subjectOrder (subject_Kind s), subject_ID s)) (Results report))"
proof -
  from assms obtain db0 :: "'a database" and subjects where
    loop: "recover_loop (\<lambda>db. ApplyRecovery storable db startup) observers now 1 (sort_subjects subjects) [] [] db0 = (Inr report, db')"
    by (rule Run_Inr) blast
  from recover_loop_Inr [OF loop] have all: "list_all2 (classified observers) (sort_subjects subjects) (Results report)"
    and keys: "distinct (map result_key (Results report))" by auto
  have key: "result_key = (\<lambda>(s, d). (subject_Kind s, subject_ID s))" by (auto simp: result_key_def fun_eq_iff)
  have "map (\<lambda>(s, d). (subjectOrder (subject_Kind s), subject_ID s)) (Results report) =
      map (\<lambda>s. (subjectOrder (subject_Kind s), subject_ID s)) (sort_subjects subjects)"
    using all normalizeSubject_Inr by (induction rule: list_all2_induct) (auto simp: classified_def)
  then have "sorted (map (\<lambda>(s, d). (subjectOrder (subject_Kind s), subject_ID s)) (Results report))"
    by (simp add: sort_subjects_def)
  moreover have "\<forall>r \<in> set (Results report). recorded startup db' r" using sqlite_store.loop_remembered [OF loop] by blast
  ultimately show ?thesis using keys unfolding key
    by (auto simp: recorded_def same_row_def decision_key_def)
qed

text \<open>C32: A recovery decision is taken once per startup. After \<open>ApplyRecovery\<close> has succeeded, the same call
  succeeds again and changes nothing; a call for the same subject succeeds only if it has the same subject and
  decision, up to the formatting of their JSON, and then changes nothing either.\<close>

theorem recovery_decision_immutable:
  assumes "ApplyRecovery storable db startup subject decision now = Inr db'"
  shows "ApplyRecovery storable' db' startup subject decision now' = Inr db' \<and>
    (\<forall>subject' decision' db''. subject_Kind subject' = subject_Kind subject \<longrightarrow> subject_ID subject' = subject_ID subject \<longrightarrow>
       ApplyRecovery storable' db' startup subject' decision' now' = Inr db'' \<longrightarrow>
       db'' = db' \<and> normalizeSubject subject' = normalizeSubject subject \<and> normalizeDecision decision' = normalizeDecision decision)"
proof -
  have start: "startup \<noteq> []" "length startup \<le> 128" using assms by (auto simp: ApplyRecovery_def split: if_splits)
  obtain s d where sd: "normalizeSubject subject = Inr s" "normalizeDecision decision = Inr d"
      "validateDecisionForSubject s d = Inr ()" "normal_result (s, d)"
    using assms by (rule ApplyRecovery_Inr) (auto simp: normal_result_def)
  obtain row where row: "map_of (recovery_decisions db') (decision_key startup s) = Some row" "same_row row s d"
    using ApplyRecovery_recorded [OF assms sd(1,2)] by (auto simp: recorded_def)
  have "ApplyRecovery storable' db' startup subject decision now' = Inr db'"
    using sd row start by (simp add: ApplyRecovery_def readRecoveryDecision_def)
  moreover have "db'' = db' \<and> normalizeSubject subject' = normalizeSubject subject \<and> normalizeDecision decision' = normalizeDecision decision"
    if same: "subject_Kind subject' = subject_Kind subject" "subject_ID subject' = subject_ID subject"
      and again: "ApplyRecovery storable' db' startup subject' decision' now' = Inr db''" for subject' decision' db''
  proof -
    have key: "decision_key startup s' = decision_key startup s" if "normalizeSubject subject' = Inr s'" for s'
      using same normalizeSubject_Inr(1,2) [OF that] normalizeSubject_Inr(1,2) [OF sd(1)] by (simp add: decision_key_def)
    from again show ?thesis
    proof (rule ApplyRecovery_Inr)
      fix s' d' row' assume s': "normalizeSubject subject' = Inr s'" "normalizeDecision decision' = Inr d'"
        "map_of (recovery_decisions db') (decision_key startup s') = Some row'" "same_row row' s' d'" "db'' = db'"
      have "row' = row" using s'(3) row(1) key [OF s'(1)] by simp
      then have "s' = s" "d' = d"
        using row(2) s'(4) key [OF s'(1)] by (simp_all add: same_row_def decision_key_def)
      then show ?thesis using s' sd by simp
    qed (use row(1) key in auto)
  qed
  ultimately show ?thesis by blast
qed

text \<open>C33: The normal form decides whether two documents are the same. For two texts that are JSON objects, the
  normal forms are equal exactly when the objects are, up to the order of members and overwritten
  duplicates; the normal form reads back as that object, and it is its own normal form.\<close>

theorem normal_form_exact:
  assumes "json_parse a = Some (JObject xs)" and "json_parse b = Some (JObject ys)"
  shows "(normalizeJSONObject a = normalizeJSONObject b \<longleftrightarrow> canonical (JObject xs) = canonical (JObject ys)) \<and>
    (\<exists>n. normalizeJSONObject a = Some n \<and> json_parse n = Some (canonical (JObject xs)) \<and> normalizeJSONObject n = Some n)"
proof -
  have a: "normalizeJSONObject a = Some (print_json (canonical (JObject xs)))"
    and b: "normalizeJSONObject b = Some (print_json (canonical (JObject ys)))"
    using assms normalizeJSONObject_Some by blast+
  note parsed = json_parse_canonical [OF assms(1)] json_parse_canonical [OF assms(2)]
  have "normalizeJSONObject a = normalizeJSONObject b \<longleftrightarrow> canonical (JObject xs) = canonical (JObject ys)"
    unfolding a b using parsed by (metis option.inject)
  then show ?thesis using a parsed(1) normalizeJSONObject_fixed [OF a] by blast
qed

section \<open>Witnesses\<close>

definition example_operation :: Operation where
  "example_operation = \<lparr>operation_kind = ''push'', operation_aggregate = ''run'', operation_request = ''{}'',
     operation_state = ''prepared'', available_at = ''2026-01-01T00:00:00Z'', lease_owner = None, lease_expires_at = None,
     attempt_count = 0, observation_json = None, operation_updated = ''2026-01-01T00:00:00Z''\<rparr>"

definition example_database :: "unit database" where
  "example_database = \<lparr>event_store = empty_store, coordination_tables = example_held,
     outbox = [(''op'', example_operation)], recovery_decisions = []\<rparr>"

abbreviation example_run :: "(recovery_error + Report) \<times> unit database" where
  "example_run \<equiv> Run (\<lambda>_ _. True) (\<lambda>_. True) (\<lambda>_. None) [''ok''] (\<lambda>_. 5) example_database ''start''"

lemma example_run_succeeds: "\<not> isl (fst example_run)"
  by code_simp

lemma example_run_obtain:
  obtains report db' where "example_run = (Inr report, db')"
  using example_run_succeeds by (cases example_run) (auto simp: isl_def split: sum.splits intro: sum.exhaust)

lemma example_ok: "coordination_ok (coordination_tables example_database)"
  using reachable_ok [OF example_held_reachable] by (simp add: example_database_def)

lemma example_fresh: "map_of (recovery_decisions example_database) k = None"
  by (simp add: example_database_def)

lemma example_pending:
  "durable_record example_database (SubjectLease, ''a'') = Some (Inl (example_lease ''a'' 1))"
  "pending_record (Inl (example_lease ''a'' 1))"
  by (simp_all add: example_database_def example_held_def example_lease_def pending_lease_def)

theorem recovery_settles_everything_witness:
  "\<exists>report db' x'. example_run = (Inr report, db') \<and> durable_record db' (SubjectLease, ''a'') = Some x' \<and> settled ''start'' x'"
proof -
  obtain report db' where run: "example_run = (Inr report, db')" by (rule example_run_obtain)
  have all: "\<forall>k x'. durable_record db' k = Some x' \<longrightarrow> settled ''start'' x'"
    using recovery_settles_everything [OF run example_ok example_fresh] by (rule conjunct2)
  obtain x' where "durable_record db' (SubjectLease, ''a'') = Some x'"
    using conjunct1 [OF recovery_settles_everything [OF run example_ok example_fresh], rule_format, OF example_pending(1)]
      example_pending(2) by auto
  then show ?thesis using all run by blast
qed

theorem recovery_fails_closed_witness:
  "\<exists>report db' x'. example_run = (Inr report, db') \<and> durable_record db' (SubjectLease, ''a'') = Some x' \<and>
     needs_operator x' \<and> \<not> SchedulingAllowed report"
proof -
  obtain report db' where run: "example_run = (Inr report, db')" by (rule example_run_obtain)
  from conjunct1 [OF recovery_fails_closed [OF run example_ok example_fresh], rule_format, OF example_pending]
  show ?thesis using run by auto
qed

theorem report_is_durable_witness:
  "\<exists>report db' s d row. example_run = (Inr report, db') \<and> (s, d) \<in> set (Results report) \<and> subject_ID s = ''a'' \<and>
     map_of (recovery_decisions db') (''start'', SubjectLease, ''a'') = Some row \<and> row_payload row = Payload s"
proof -
  obtain report db' where run: "example_run = (Inr report, db')" by (rule example_run_obtain)
  obtain s d where r: "(s, d) \<in> set (Results report)" "subject_Kind s = SubjectLease" "subject_ID s = ''a''"
    using Run_results(1) [OF run example_ok example_fresh example_pending] by (auto simp: result_key_def)
  then show ?thesis using report_is_durable [OF run] run by fastforce
qed

definition example_subject :: Subject where
  "example_subject = \<lparr>subject_Kind = SubjectOperation, subject_ID = ''op'', Authority = ''operation:push'',
     subject_State = ''prepared'', Payload = ''{ }''\<rparr>"

abbreviation example_apply :: "unit database \<Rightarrow> timestamp \<Rightarrow> recovery_error + unit database" where
  "example_apply db now \<equiv> ApplyRecovery (\<lambda>_. True) db ''start'' example_subject \<lparr>decision_Outcome = OutcomeRetry, Evidence = ''{}''\<rparr> now"

lemma example_apply_succeeds: "\<not> isl (example_apply example_database 5)"
  by code_simp

theorem recovery_decision_immutable_witness:
  "\<exists>db'. example_apply example_database 5 = Inr db' \<and> example_apply db' 9 = Inr db'"
proof -
  obtain db' where run: "example_apply example_database 5 = Inr db'"
    using example_apply_succeeds by (cases "example_apply example_database 5") auto
  then show ?thesis using recovery_decision_immutable [OF run] by blast
qed

abbreviation example_object :: "string list \<Rightarrow> json" where
  "example_object ks \<equiv> JObject (map (\<lambda>k. (k, JNull)) ks)"

theorem normal_form_exact_witness:
  "normalizeJSONObject (print_json (example_object [''b'', ''a''])) = normalizeJSONObject (print_json (example_object [''a'', ''b'']))"
proof -
  have a: "json_parse (print_json (example_object [''b'', ''a''])) = Some (example_object [''b'', ''a''])" by code_simp
  have b: "json_parse (print_json (example_object [''a'', ''b''])) = Some (example_object [''a'', ''b''])" by code_simp
  have "canonical (example_object [''b'', ''a'']) = canonical (example_object [''a'', ''b''])" by code_simp
  with conjunct1 [OF normal_form_exact [OF a b]] show ?thesis by (rule iffD2)
qed

end
