(* ===== verification/ArtifactDiff.thy ===== *)
theory ArtifactDiff
  imports JsonPrint "HOL-Library.Sublist"
begin

text \<open>
  Line diffs of artifacts: \<open>core/artifactdiff/diff.go\<close>. \<open>calculate\<close> strips the common prefix and suffix,
  fills the table of longest common subsequences from the end and walks it from the start; \<open>compact_ops\<close>
  (\<open>compact\<close>) numbers the lines and folds long unchanged runs; \<open>Generate\<close> cuts the entries into pages that a
  cursor chains.

  Texts are byte strings, as everywhere. The hash function \<open>sha256\<close> is a parameter: the cursor and the
  digests only carry its bytes.
\<close>

section \<open>Data\<close>

type_synonym uint32 = "32 word"

definition ContextLines :: nat where "ContextLines = 3"
definition MaxInputBytes :: nat where "MaxInputBytes = 2097152"
definition MaxWorkUnits :: nat where "MaxWorkUnits = 1000000"
definition DefaultPageSize :: int where "DefaultPageSize = 100"
definition MaxPageSize :: int where "MaxPageSize = 200"
definition MaxPageBytes :: nat where "MaxPageBytes = 3145728"
definition AlgorithmVersion :: string where "AlgorithmVersion = ''darkstar-line-dp/v1''"

record Policy =
  Algorithm :: string
  policy_ContextLines :: nat
  policy_MaxInputBytes :: nat
  policy_MaxWorkUnits :: nat
  PageSize :: int
  policy_MaxPageBytes :: nat

datatype entry_kind = Unchanged | Removed | Added | Omitted

record Entry =
  Kind :: entry_kind
  FromLine :: uint64
  ToLine :: uint64
  Text :: string
  OmittedLines :: uint64

record Hunk =
  FromStart :: uint64
  ToStart :: uint64
  Entries :: "Entry list"

record Page =
  Hunks :: "Hunk list"
  NextCursor :: string
  Total :: nat

type_synonym diff_op = "entry_kind \<times> string"

datatype diff_error = ErrBudgetExceeded | InvalidCursor | MarshalFailed

section \<open>The JSON form\<close>

definition json_uint :: "uint64 \<Rightarrow> json" where
  "json_uint n = JNumber (decimal (unat n))"

fun kind_string :: "entry_kind \<Rightarrow> string" where
  "kind_string Unchanged = ''unchanged''"
| "kind_string Removed = ''removed''"
| "kind_string Added = ''added''"
| "kind_string Omitted = ''omitted''"

definition entry_MarshalJSON :: "Entry \<Rightarrow> json option" where
  "entry_MarshalJSON value =
    (let kind = (''kind'', JString (kind_string (Kind value))); from = (''fromLine'', json_uint (FromLine value));
         to = (''toLine'', json_uint (ToLine value)); text = (''text'', JString (Text value)) in
     case Kind value of
       Unchanged \<Rightarrow> if FromLine value = 0 \<or> ToLine value = 0 \<or> OmittedLines value \<noteq> 0 then None
         else Some (JObject [kind, from, to, text])
     | Removed \<Rightarrow> if FromLine value = 0 \<or> ToLine value \<noteq> 0 \<or> OmittedLines value \<noteq> 0 then None
         else Some (JObject [kind, from, text])
     | Added \<Rightarrow> if FromLine value \<noteq> 0 \<or> ToLine value = 0 \<or> OmittedLines value \<noteq> 0 then None
         else Some (JObject [kind, to, text])
     | Omitted \<Rightarrow> if FromLine value = 0 \<or> ToLine value = 0 \<or> OmittedLines value = 0 \<or> Text value \<noteq> [] then None
         else Some (JObject [kind, from, to, (''omittedLines'', json_uint (OmittedLines value))]))"

definition entries_json :: "Entry list \<Rightarrow> json option" where
  "entries_json es = map_option JArray (those (map entry_MarshalJSON es))"

definition hunk_json :: "Hunk \<Rightarrow> json option" where
  "hunk_json h = map_option (\<lambda>es. JObject [(''fromStart'', json_uint (FromStart h)),
     (''toStart'', json_uint (ToStart h)), (''entries'', es)]) (entries_json (Entries h))"

definition page_json :: "Page \<Rightarrow> json option" where
  "page_json p = map_option (\<lambda>hs. JObject ([(''hunks'', JArray hs)] @
     (if NextCursor p = [] then [] else [(''nextCursor'', JString (NextCursor p))]) @
     [(''totalEntries'', JNumber (decimal (Total p)))])) (those (map hunk_json (Hunks p)))"

definition policy_json :: "Policy \<Rightarrow> json" where
  "policy_json p = JObject [(''algorithm'', JString (Algorithm p)),
     (''contextLines'', JNumber (decimal (policy_ContextLines p))),
     (''maxInputBytes'', JNumber (decimal (policy_MaxInputBytes p))),
     (''maxWorkUnits'', JNumber (decimal (policy_MaxWorkUnits p))),
     (''pageSize'', JNumber ((if PageSize p < 0 then ''-'' else []) @ decimal (nat \<bar>PageSize p\<bar>))),
     (''maxPageBytes'', JNumber (decimal (policy_MaxPageBytes p)))]"

definition hex_encode :: "string \<Rightarrow> string" where
  "hex_encode s = concat (map (\<lambda>c. [hex_digit (of_char c div 16), hex_digit (of_char c mod 16)]) s)"

definition digestJSON :: "(string \<Rightarrow> string) \<Rightarrow> json option \<Rightarrow> string" where
  "digestJSON sha256 value = hex_encode (sha256 (case value of None \<Rightarrow> [] | Some v \<Rightarrow> print_json v))"

section \<open>The line diff\<close>

definition splitLines :: "string \<Rightarrow> string list" where
  "splitLines value = (if value = [] then [] else split_on (CHR 0x0A) value)"

function prefix_loop :: "'a list \<Rightarrow> 'a list \<Rightarrow> nat \<Rightarrow> nat" where
  "prefix_loop left right common =
    (if common < length left \<and> common < length right \<and> left ! common = right ! common
     then prefix_loop left right (Suc common) else common)"
  by auto
termination by (relation "measure (\<lambda>(left, right, common). length left - common)") auto

function suffix_loop :: "'a list \<Rightarrow> 'a list \<Rightarrow> nat \<Rightarrow> nat \<Rightarrow> nat" where
  "suffix_loop left right common tail =
    (if tail < length left - common \<and> tail < length right - common \<and>
        left ! (length left - 1 - tail) = right ! (length right - 1 - tail)
     then suffix_loop left right common (Suc tail) else tail)"
  by auto
termination by (relation "measure (\<lambda>(left, right, common, tail). length left - tail)") auto

text \<open>Row \<open>i\<close> of the table is filled from its end, out of row \<open>i + 1\<close>.\<close>

fun fill_row :: "'a \<Rightarrow> 'a list \<Rightarrow> uint32 list \<Rightarrow> uint32 list" where
  "fill_row x [] below = [0]"
| "fill_row x (y # ys) below =
    (let row = fill_row x ys (tl below) in
     (if x = y then hd (tl below) + 1 else if hd row \<le> hd below then hd below else hd row) # row)"

fun fill_table :: "'a list \<Rightarrow> 'a list \<Rightarrow> uint32 list list" where
  "fill_table [] b = [replicate (length b + 1) 0]"
| "fill_table (x # a) b = (let rows = fill_table a b in fill_row x b (hd rows) # rows)"

text \<open>The index \<open>j\<close> never passes the end of \<open>b\<close>: there \<open>length b \<le> j\<close> is the test \<open>j == len(b)\<close> of the code.\<close>

function walk :: "string list \<Rightarrow> string list \<Rightarrow> uint32 list list \<Rightarrow> nat \<Rightarrow> nat \<Rightarrow> diff_op list" where
  "walk a b dp i j =
    (if i < length a \<or> j < length b then
       if i < length a \<and> j < length b \<and> a ! i = b ! j then (Unchanged, a ! i) # walk a b dp (Suc i) (Suc j)
       else if i < length a \<and> (length b \<le> j \<or> dp ! i ! (j + 1) \<le> dp ! (i + 1) ! j)
       then (Removed, a ! i) # walk a b dp (Suc i) j
       else (Added, b ! j) # walk a b dp i (Suc j)
     else [])"
  by auto
termination
  by (relation "measure (\<lambda>(a, b, dp, i, j). (length a - i) + (length b - j))") auto

declare prefix_loop.simps [simp del] suffix_loop.simps [simp del] walk.simps [simp del]

definition calculate :: "string list \<Rightarrow> string list \<Rightarrow> diff_error + diff_op list" where
  "calculate left right =
    (let common = prefix_loop left right 0; tail = suffix_loop left right common 0;
         a = drop common (take (length left - tail) left); b = drop common (take (length right - tail) right) in
     if MaxWorkUnits < length a * length b then Inl ErrBudgetExceeded
     else Inr (map (Pair Unchanged) (take common left) @ walk a b (fill_table a b) 0 0 @
       map (Pair Unchanged) (drop (length left - tail) left)))"

section \<open>Entries\<close>

fun lineEntry :: "diff_op \<Rightarrow> uint64 \<Rightarrow> uint64 \<Rightarrow> Entry \<times> uint64 \<times> uint64" where
  "lineEntry (Unchanged, text) from to =
     (\<lparr>Kind = Unchanged, FromLine = from, ToLine = to, Text = text, OmittedLines = 0\<rparr>, from + 1, to + 1)"
| "lineEntry (Removed, text) from to =
     (\<lparr>Kind = Removed, FromLine = from, ToLine = 0, Text = text, OmittedLines = 0\<rparr>, from + 1, to)"
| "lineEntry (Added, text) from to =
     (\<lparr>Kind = Added, FromLine = 0, ToLine = to, Text = text, OmittedLines = 0\<rparr>, from, to + 1)"
| "lineEntry (Omitted, text) from to =
     (\<lparr>Kind = Omitted, FromLine = 0, ToLine = 0, Text = text, OmittedLines = 0\<rparr>, from, to)"

fun line_entries :: "diff_op list \<Rightarrow> uint64 \<Rightarrow> uint64 \<Rightarrow> Entry list \<times> uint64 \<times> uint64" where
  "line_entries [] from to = ([], from, to)"
| "line_entries (v # vs) from to =
    (let (e, from, to) = lineEntry v from to; (es, from, to) = line_entries vs from to in (e # es, from, to))"

definition run_entries :: "diff_op list \<Rightarrow> uint64 \<Rightarrow> uint64 \<Rightarrow> Entry list \<times> uint64 \<times> uint64" where
  "run_entries run from to =
    (if fst (hd run) = Unchanged \<and> ContextLines * 2 < length run then
       (let (before, from, to) = line_entries (take ContextLines run) from to;
            omitted = of_nat (length run - ContextLines * 2);
            gap = \<lparr>Kind = Omitted, FromLine = from, ToLine = to, Text = [], OmittedLines = omitted\<rparr>;
            (after, from, to) = line_entries (drop (length run - ContextLines) run) (from + omitted) (to + omitted) in
        (before @ [gap] @ after, from, to))
     else line_entries run from to)"

function compact_from :: "diff_op list \<Rightarrow> uint64 \<Rightarrow> uint64 \<Rightarrow> Entry list" where
  "compact_from [] from to = []"
| "compact_from (v # ops) from to =
    (let run = v # takeWhile (\<lambda>w. fst w = fst v) ops; (es, from, to) = run_entries run from to in
     es @ compact_from (dropWhile (\<lambda>w. fst w = fst v) ops) from to)"
  by pat_completeness auto
termination
  by (relation "measure (\<lambda>(ops, from, to). length ops)") (auto simp: length_dropWhile_le le_imp_less_Suc)

definition compact_ops :: "diff_op list \<Rightarrow> Entry list" where
  "compact_ops ops = compact_from ops 1 1"

section \<open>Pages\<close>

text \<open>The first line number of a part that is not 0.\<close>

definition first_line :: "uint64 list \<Rightarrow> uint64" where
  "first_line ns = (case filter (\<lambda>n. n \<noteq> 0) ns of [] \<Rightarrow> 0 | n # _ \<Rightarrow> n)"

function hunks :: "Entry list \<Rightarrow> Hunk list" where
  "hunks entries = (if entries = [] then [] else
     (let part = take 64 entries in
      \<lparr>FromStart = first_line (map FromLine part), ToStart = first_line (map ToLine part), Entries = part\<rparr> #
      hunks (drop 64 entries)))"
  by auto
termination by (relation "measure length") auto

declare hunks.simps [simp del]

text \<open>Unpadded base64 with the URL alphabet. Decoding ignores line ends and the unused bits of the last
  character, as \<open>RawURLEncoding\<close> does.\<close>

definition base64_char :: "nat \<Rightarrow> char" where
  "base64_char n = (if n < 26 then char_of (65 + n) else if n < 52 then char_of (71 + n)
     else if n < 62 then char_of (n - 4) else if n = 62 then CHR ''-'' else CHR ''_'')"

definition base64_value :: "char \<Rightarrow> nat option" where
  "base64_value c = (if is_upper c then Some (of_char c - 65) else if is_lower c then Some (of_char c - 71)
     else if is_digit c then Some (of_char c + 4) else if c = CHR ''-'' then Some 62
     else if c = CHR ''_'' then Some 63 else None)"

fun base64_encode :: "string \<Rightarrow> string" where
  "base64_encode [] = []"
| "base64_encode [a] = map base64_char [of_char a div 4, of_char a mod 4 * 16]"
| "base64_encode [a, b] = map base64_char
     [of_char a div 4, of_char a mod 4 * 16 + of_char b div 16, of_char b mod 16 * 4]"
| "base64_encode (a # b # c # cs) = map base64_char
     [of_char a div 4, of_char a mod 4 * 16 + of_char b div 16, of_char b mod 16 * 4 + of_char c div 64, of_char c mod 64] @
     base64_encode cs"

fun base64_bytes :: "nat list \<Rightarrow> string option" where
  "base64_bytes [] = Some []"
| "base64_bytes [a] = None"
| "base64_bytes [a, b] = Some [char_of (a * 4 + b div 16)]"
| "base64_bytes [a, b, c] = Some [char_of (a * 4 + b div 16), char_of (b mod 16 * 16 + c div 4)]"
| "base64_bytes (a # b # c # d # ds) =
     map_option (\<lambda>s. [char_of (a * 4 + b div 16), char_of (b mod 16 * 16 + c div 4), char_of (c mod 4 * 64 + d)] @ s)
       (base64_bytes ds)"

definition base64_decode :: "string \<Rightarrow> string option" where
  "base64_decode s = Option.bind (those (map base64_value (filter (\<lambda>c. c \<noteq> CHR 0x0A \<and> c \<noteq> CHR 0x0D) s))) base64_bytes"

text \<open>\<open>strconv.Atoi\<close>: an optional sign and decimal digits, within the range of a 64-bit \<open>int\<close>.\<close>

definition Atoi :: "string \<Rightarrow> int option" where
  "Atoi s = (let (negative, digits) = (case s of
        [] \<Rightarrow> (False, [])
      | c # cs \<Rightarrow> if c = CHR ''-'' then (True, cs) else if c = CHR ''+'' then (False, cs) else (False, s));
      n = int (digits_value digits); value = (if negative then - n else n) in
     if digits = [] \<or> \<not> list_all is_digit digits \<or> value < - (2 ^ 63) \<or> 2 ^ 63 \<le> value then None else Some value)"

definition encodeCursor :: "(string \<Rightarrow> string) \<Rightarrow> string \<Rightarrow> nat \<Rightarrow> string" where
  "encodeCursor sha256 binding offset =
     base64_encode (''v1.'' @ hex_encode (take 8 (sha256 binding)) @ ''.'' @ decimal offset)"

definition decodeCursor :: "(string \<Rightarrow> string) \<Rightarrow> string \<Rightarrow> string \<Rightarrow> nat \<Rightarrow> diff_error + nat" where
  "decodeCursor sha256 cursor binding count =
    (if cursor = [] then Inr 0
     else (case base64_decode cursor of
        None \<Rightarrow> Inl InvalidCursor
      | Some decoded \<Rightarrow>
          (let parts = split_on (CHR ''.'') decoded;
               wanted = split_on (CHR ''.'') (case base64_decode (encodeCursor sha256 binding 0) of Some s \<Rightarrow> s | None \<Rightarrow> []) in
           if length parts \<noteq> 3 \<or> parts ! 0 \<noteq> ''v1'' \<or> parts ! 1 \<noteq> wanted ! 1 then Inl InvalidCursor
           else (case Atoi (parts ! 2) of
              None \<Rightarrow> Inl InvalidCursor
            | Some offset \<Rightarrow> if offset < 0 \<or> int count \<le> offset then Inl InvalidCursor else Inr (nat offset)))))"

text \<open>The loop that takes entries off a page until its JSON fits.\<close>

function shrink :: "Entry list \<Rightarrow> nat \<Rightarrow> nat \<Rightarrow> diff_error + nat" where
  "shrink entries offset limit_end =
    (if offset < limit_end then
       (case page_json \<lparr>Hunks = hunks (drop offset (take limit_end entries)), NextCursor = [], Total = length entries\<rparr> of
          None \<Rightarrow> Inl MarshalFailed
        | Some v \<Rightarrow> if length (print_json v) \<le> MaxPageBytes then Inr limit_end
            else shrink entries offset (limit_end - 1))
     else Inr limit_end)"
  by auto
termination by (relation "measure (\<lambda>(entries, offset, limit_end). limit_end)") auto

declare shrink.simps [simp del]

definition diff_policy :: "int \<Rightarrow> Policy" where
  "diff_policy limit = \<lparr>Algorithm = AlgorithmVersion, policy_ContextLines = ContextLines,
     policy_MaxInputBytes = MaxInputBytes, policy_MaxWorkUnits = MaxWorkUnits, PageSize = limit,
     policy_MaxPageBytes = MaxPageBytes\<rparr>"

definition generate_page :: "(string \<Rightarrow> string) \<Rightarrow> Entry list \<Rightarrow> string \<Rightarrow> string \<Rightarrow> int \<Rightarrow> diff_error + Page" where
  "generate_page sha256 entries cursorBinding cursor limit =
     result_bind (decodeCursor sha256 cursor cursorBinding (length entries)) (\<lambda>offset.
     result_bind (shrink entries offset (min (offset + nat limit) (length entries))) (\<lambda>page_end.
     if page_end = offset \<and> offset < length entries then Inl ErrBudgetExceeded
     else Inr \<lparr>Hunks = hunks (drop offset (take page_end entries)),
       NextCursor = (if page_end < length entries then encodeCursor sha256 cursorBinding page_end else []),
       Total = length entries\<rparr>))"

definition Generate :: "(string \<Rightarrow> string) \<Rightarrow> string \<Rightarrow> string \<Rightarrow> string \<Rightarrow> string \<Rightarrow> int \<Rightarrow>
    (diff_error + Page) \<times> Policy \<times> string \<times> string" where
  "Generate sha256 left right binding cursor requestedLimit =
    (let limit = (if requestedLimit = 0 then DefaultPageSize else requestedLimit);
         policy = diff_policy limit; policyDigest = digestJSON sha256 (Some (policy_json policy));
         cursorBinding = binding @ ''|'' @ policyDigest in
     if limit < 1 \<or> MaxPageSize < limit \<or> MaxInputBytes < length left \<or> MaxInputBytes < length right
     then (Inl ErrBudgetExceeded, policy, policyDigest, [])
     else (case calculate (splitLines left) (splitLines right) of
        Inl e \<Rightarrow> (Inl e, policy, policyDigest, [])
      | Inr ops \<Rightarrow> let entries = compact_ops ops; resultDigest = digestJSON sha256 (entries_json entries) in
          (generate_page sha256 entries cursorBinding cursor limit, policy, policyDigest, resultDigest)))"

section \<open>Longest common subsequences\<close>

text \<open>The reference: the length of a longest common subsequence, by its recursion equation.\<close>

fun lcs :: "'a list \<Rightarrow> 'a list \<Rightarrow> nat" where
  "lcs [] ys = 0"
| "lcs xs [] = 0"
| "lcs (x # xs) (y # ys) = (if x = y then Suc (lcs xs ys) else max (lcs xs (y # ys)) (lcs (x # xs) ys))"

lemma lcs_Nil [simp]: "lcs xs [] = 0"
  by (cases xs) auto

lemma lcs_le: "lcs xs ys \<le> length xs" "lcs xs ys \<le> length ys"
  by (induction xs ys rule: lcs.induct) auto

lemma lcs_upper: "subseq zs xs \<Longrightarrow> subseq zs ys \<Longrightarrow> length zs \<le> lcs xs ys"
proof (induction xs ys arbitrary: zs rule: lcs.induct)
  case (3 x xs y ys)
  show ?case
  proof (cases zs)
    case (Cons z rest)
    show ?thesis
    proof (cases "x = y")
      case True
      have "length rest \<le> lcs xs ys"
        using "3.prems" True Cons by (intro "3.IH"(1)) (auto dest: subseq_Cons' split: if_splits)
      then show ?thesis using True Cons by simp
    next
      case False
      then have "subseq zs xs \<or> subseq zs ys" using "3.prems" Cons by (auto split: if_splits)
      then show ?thesis using "3.IH"(2,3) [OF False] "3.prems" False by fastforce
    qed
  qed simp
qed auto

lemma lcs_attained: "\<exists>zs. subseq zs xs \<and> subseq zs ys \<and> length zs = lcs xs ys"
proof (induction xs ys rule: lcs.induct)
  case (3 x xs y ys)
  show ?case
  proof (cases "x = y")
    case True
    then obtain zs where "subseq zs xs" "subseq zs ys" "length zs = lcs xs ys" using "3.IH"(1) by blast
    then show ?thesis using True by (intro exI [of _ "x # zs"]) auto
  next
    case False
    then show ?thesis using "3.IH"(2,3) by (auto simp: max_def intro: list_emb_Cons)
  qed
qed auto

lemma lcs_prefix: "lcs (ps @ xs) (ps @ ys) = length ps + lcs xs ys"
  by (induction ps) auto

lemma subseq_snoc:
  assumes "subseq zs (xs @ [x])"
  shows "subseq (butlast zs) xs"
proof -
  obtain us vs where zs: "zs = us @ vs" "subseq us xs" "subseq vs [x]" using assms by (auto simp: subseq_append_iff)
  have "vs = [] \<or> vs = [x]" using zs(3) by (cases vs) (auto split: if_splits)
  moreover have "subseq (butlast us) xs" using zs(2) prefixeq_butlast prefix_imp_subseq subseq_order.trans by metis
  ultimately show ?thesis using zs by auto
qed

lemma lcs_suffix: "lcs (xs @ ss) (ys @ ss) = lcs xs ys + length ss"
proof (induction ss arbitrary: xs ys)
  case (Cons s ss)
  have "lcs (xs @ [s]) (ys @ [s]) = Suc (lcs xs ys)"
  proof (rule antisym)
    obtain zs where zs: "subseq zs (xs @ [s])" "subseq zs (ys @ [s])" "length zs = lcs (xs @ [s]) (ys @ [s])"
      using lcs_attained by blast
    have "length (butlast zs) \<le> lcs xs ys" by (intro lcs_upper subseq_snoc [OF zs(1)] subseq_snoc [OF zs(2)])
    then show "lcs (xs @ [s]) (ys @ [s]) \<le> Suc (lcs xs ys)" using zs(3) by simp
    obtain ws where ws: "subseq ws xs" "subseq ws ys" "length ws = lcs xs ys" using lcs_attained by blast
    have "length (ws @ [s]) \<le> lcs (xs @ [s]) (ys @ [s])" by (intro lcs_upper) (simp_all add: ws)
    then show "Suc (lcs xs ys) \<le> lcs (xs @ [s]) (ys @ [s])" using ws(3) by simp
  qed
  then show ?case using Cons.IH [of "xs @ [s]" "ys @ [s]"] by simp
qed simp

section \<open>The table holds them\<close>

fun tails :: "'a list \<Rightarrow> 'a list list" where
  "tails [] = [[]]"
| "tails (y # ys) = (y # ys) # tails ys"

lemma nth_tails: "j \<le> length ys \<Longrightarrow> tails ys ! j = drop j ys"
  by (induction ys arbitrary: j) (auto simp: nth_Cons' drop_Cons')

lemma length_tails [simp]: "length (tails ys) = Suc (length ys)"
  by (induction ys) auto

lemma hd_tails: "hd (map f (tails ys)) = f ys" by (cases ys) auto

abbreviation lcs_row :: "'a list \<Rightarrow> 'a list \<Rightarrow> uint32 list" where
  "lcs_row xs b \<equiv> map (\<lambda>ys. of_nat (lcs xs ys)) (tails b)"

text \<open>A common subsequence of a table within the work limit is short, so that 32 bits are enough.\<close>

definition fits :: "'a list \<Rightarrow> 'a list \<Rightarrow> bool" where
  "fits a b \<longleftrightarrow> length a < 2 ^ 32 \<or> length b < 2 ^ 32"

lemma fits_budget: "length a * length b \<le> MaxWorkUnits \<Longrightarrow> fits a b"
proof (rule ccontr)
  assume le: "length a * length b \<le> MaxWorkUnits" and "\<not> fits a b"
  then have "2 ^ 32 \<le> length a" "2 ^ 32 \<le> length b" by (auto simp: fits_def)
  then have "(2 ^ 32) * (2 ^ 32) \<le> length a * length b" by (rule mult_le_mono)
  then show False using le by (simp add: MaxWorkUnits_def)
qed

lemma fits_lcs: "fits a b \<Longrightarrow> lcs a b < 2 ^ 32"
  using lcs_le [of a b] by (auto simp: fits_def intro: le_less_trans)

lemma of_nat_word_le: "m < 2 ^ 32 \<Longrightarrow> n < 2 ^ 32 \<Longrightarrow> (of_nat m :: uint32) \<le> of_nat n \<longleftrightarrow> m \<le> n"
  by (simp add: of_nat_word_less_eq_iff take_bit_nat_eq_self)

lemma fits_Cons: "fits (x # a) b \<Longrightarrow> fits a b" "fits a (y # b) \<Longrightarrow> fits a b"
  by (auto simp: fits_def)

lemma fill_row_lcs: "fits (x # a) b \<Longrightarrow> fill_row x b (lcs_row a b) = lcs_row (x # a) b"
proof (induction b)
  case (Cons y ys)
  have IH: "fill_row x ys (lcs_row a ys) = lcs_row (x # a) ys" by (rule Cons.IH [OF fits_Cons(2) [OF Cons.prems]])
  have "lcs (x # a) ys < 2 ^ 32" "lcs a (y # ys) < 2 ^ 32"
    using fits_lcs [OF fits_Cons(2) [OF Cons.prems]] fits_lcs [OF fits_Cons(1) [OF Cons.prems]] .
  then show ?case using of_nat_word_le [of "lcs (x # a) ys" "lcs a (y # ys)"]
    by (auto simp: IH Let_def hd_tails max_def)
qed simp

lemma fill_table_lcs:
  "fits a b \<Longrightarrow> i \<le> length a \<Longrightarrow> fill_table a b ! i = lcs_row (drop i a) b"
proof (induction a arbitrary: i)
  case Nil
  then show ?case by (simp add: map_replicate_const)
next
  case (Cons x a)
  have rows: "fill_table a b ! k = lcs_row (drop k a) b" if "k \<le> length a" for k
    using Cons.IH [OF fits_Cons(1) [OF Cons.prems(1)] that] .
  have "fill_table a b \<noteq> []" by (cases a) (auto simp: Let_def)
  then have "hd (fill_table a b) = lcs_row a b" using rows [of 0] by (simp add: hd_conv_nth)
  then show ?case using rows [of "i - 1"] Cons.prems fill_row_lcs by (cases i) (auto simp: Let_def)
qed

lemma table_entry:
  assumes "fits a b" and "i \<le> length a" and "j \<le> length b"
  shows "fill_table a b ! i ! j = of_nat (lcs (drop i a) (drop j b))"
  using assms by (simp add: fill_table_lcs nth_tails)

section \<open>The walk\<close>

definition before_lines :: "diff_op list \<Rightarrow> string list" where
  "before_lines ops = map snd (filter (\<lambda>v. fst v = Unchanged \<or> fst v = Removed) ops)"

definition after_lines :: "diff_op list \<Rightarrow> string list" where
  "after_lines ops = map snd (filter (\<lambda>v. fst v = Unchanged \<or> fst v = Added) ops)"

definition kept_lines :: "diff_op list \<Rightarrow> string list" where
  "kept_lines ops = map snd (filter (\<lambda>v. fst v = Unchanged) ops)"

lemma lines_append [simp]:
  "before_lines (xs @ ys) = before_lines xs @ before_lines ys"
  "after_lines (xs @ ys) = after_lines xs @ after_lines ys"
  "kept_lines (xs @ ys) = kept_lines xs @ kept_lines ys"
  by (simp_all add: before_lines_def after_lines_def kept_lines_def)

lemma lines_unchanged [simp]:
  "before_lines (map (Pair Unchanged) ls) = ls" "after_lines (map (Pair Unchanged) ls) = ls"
  "kept_lines (map (Pair Unchanged) ls) = ls"
  by (simp_all add: before_lines_def after_lines_def kept_lines_def filter_map comp_def)

lemma lines_Cons [simp]:
  "before_lines ((k, l) # ops) = (if k = Unchanged \<or> k = Removed then l # before_lines ops else before_lines ops)"
  "after_lines ((k, l) # ops) = (if k = Unchanged \<or> k = Added then l # after_lines ops else after_lines ops)"
  "kept_lines ((k, l) # ops) = (if k = Unchanged then l # kept_lines ops else kept_lines ops)"
  "before_lines [] = []" "after_lines [] = []" "kept_lines [] = []"
  by (simp_all add: before_lines_def after_lines_def kept_lines_def)

lemma walk_lines:
  "i \<le> length a \<Longrightarrow> j \<le> length b \<Longrightarrow>
     before_lines (walk a b dp i j) = drop i a \<and> after_lines (walk a b dp i j) = drop j b"
proof (induction a b dp i j rule: walk.induct)
  case (1 a b dp i j)
  have step: "i < length a \<Longrightarrow> a ! i # drop (Suc i) a = drop i a" "j < length b \<Longrightarrow> b ! j # drop (Suc j) b = drop j b"
    by (simp_all add: Cons_nth_drop_Suc)
  show ?case using 1 step by (subst (1 2) walk.simps) (auto)
qed

lemma walk_kept:
  "fits a b \<Longrightarrow> i \<le> length a \<Longrightarrow> j \<le> length b \<Longrightarrow>
     length (kept_lines (walk a b (fill_table a b) i j)) = lcs (drop i a) (drop j b)"
proof (induction "length a - i + (length b - j)" arbitrary: i j rule: less_induct)
  case less
  let ?dp = "fill_table a b"
  have a: "drop i a = a ! i # drop (Suc i) a" if "i < length a" using that by (simp add: Cons_nth_drop_Suc)
  have b: "drop j b = b ! j # drop (Suc j) b" if "j < length b" using that by (simp add: Cons_nth_drop_Suc)
  have IH: "length (kept_lines (walk a b ?dp i' j')) = lcs (drop i' a) (drop j' b)"
    if "i \<le> i'" "j \<le> j'" "i < i' \<or> j < j'" "i' \<le> length a" "j' \<le> length b" for i' j'
    using that less.prems by (intro less.hyps) auto
  consider "i = length a" "j = length b" | "i = length a" "j < length b" | "i < length a" "j = length b"
    | "i < length a" "j < length b" using less.prems by linarith
  then show ?case
  proof cases
    case 1
    then show ?thesis by (subst walk.simps) simp
  next
    case 2
    then show ?thesis using IH [of i "Suc j"] by (subst walk.simps) simp
  next
    case 3
    then show ?thesis using IH [of "Suc i" j] by (subst walk.simps) simp
  next
    case 4
    have entries: "?dp ! i ! Suc j = of_nat (lcs (drop i a) (drop (Suc j) b))"
      "?dp ! Suc i ! j = of_nat (lcs (drop (Suc i) a) (drop j b))"
      using 4 less.prems(1) by (simp_all add: table_entry)
    have small: "lcs (drop m a) (drop n b) < 2 ^ 32" for m n
      using less.prems(1) lcs_le [of "drop m a" "drop n b"] by (auto simp: fits_def)
    show ?thesis
      using 4 IH [of "Suc i" "Suc j"] IH [of "Suc i" j] IH [of i "Suc j"] a b
        of_nat_word_le [OF small [of i "Suc j"] small [of "Suc i" j]]
      by (subst walk.simps) (auto simp: entries max_def)
  qed
qed

lemma prefix_loop_common:
  "n \<le> length left \<Longrightarrow> n \<le> length right \<Longrightarrow> take n left = take n right \<Longrightarrow> q = prefix_loop left right n \<Longrightarrow>
     q \<le> length left \<and> q \<le> length right \<and> take q left = take q right"
proof (induction left right n rule: prefix_loop.induct)
  case (1 left right n)
  show ?case
  proof (cases "n < length left \<and> n < length right \<and> left ! n = right ! n")
    case True
    then show ?thesis using 1 by (simp add: prefix_loop.simps [of left right n] take_Suc_conv_app_nth)
  next
    case False
    then have "q = n" using "1.prems"(4) by (subst (asm) prefix_loop.simps) auto
    then show ?thesis using "1.prems" by simp
  qed
qed

lemma drop_back: "k < length xs \<Longrightarrow> drop (length xs - Suc k) xs = xs ! (length xs - 1 - k) # drop (length xs - k) xs"
  using Cons_nth_drop_Suc [of "length xs - Suc k" xs] by (simp add: Suc_diff_Suc)

lemma suffix_loop_common:
  "n \<le> length left - p \<Longrightarrow> n \<le> length right - p \<Longrightarrow>
     drop (length left - n) left = drop (length right - n) right \<Longrightarrow> q = suffix_loop left right p n \<Longrightarrow>
     q \<le> length left - p \<and> q \<le> length right - p \<and> drop (length left - q) left = drop (length right - q) right"
proof (induction left right p n rule: suffix_loop.induct)
  case (1 left right p n)
  show ?case
  proof (cases "n < length left - p \<and> n < length right - p \<and>
      left ! (length left - 1 - n) = right ! (length right - 1 - n)")
    case True
    then have "n < length left" "n < length right" by linarith+
    then have "drop (length left - Suc n) left = drop (length right - Suc n) right"
      using True drop_back [of n left] drop_back [of n right] "1.prems"(3) by simp
    then show ?thesis using 1 True by (simp add: suffix_loop.simps [of left right p n])
  next
    case False
    then have "q = n" using "1.prems"(4) by (subst (asm) suffix_loop.simps) auto
    then show ?thesis using "1.prems" by simp
  qed
qed

text \<open>The parts that \<open>calculate\<close> takes the texts into.\<close>

lemma calculate_Inr:
  assumes "calculate left right = Inr ops"
  obtains p a b s where "left = p @ a @ s" and "right = p @ b @ s" and "length a * length b \<le> MaxWorkUnits"
    and "ops = map (Pair Unchanged) p @ walk a b (fill_table a b) 0 0 @ map (Pair Unchanged) s"
proof -
  define m where "m = prefix_loop left right 0"
  define n where "n = suffix_loop left right m 0"
  have m: "m \<le> length left" "m \<le> length right" "take m left = take m right"
    using prefix_loop_common [of 0 left right m] by (simp_all add: m_def)
  have n: "n \<le> length left - m" "n \<le> length right - m" "drop (length left - n) left = drop (length right - n) right"
    using suffix_loop_common [of 0 left m right n] by (simp_all add: n_def)
  have parts: "xs = take m xs @ drop m (take (length xs - n) xs) @ drop (length xs - n) xs"
    if "n \<le> length xs - m" "m \<le> length xs" for xs :: "string list"
  proof -
    have "take m xs = take m (take (length xs - n) xs)" using that by (simp add: min_def)
    then have "take m xs @ drop m (take (length xs - n) xs) = take (length xs - n) xs" by (metis append_take_drop_id)
    then show ?thesis by (metis append_assoc append_take_drop_id)
  qed
  show thesis
  proof (rule that)
    show "left = take m left @ drop m (take (length left - n) left) @ drop (length left - n) left"
      by (rule parts) (use m n in simp_all)
    show "right = take m left @ drop m (take (length right - n) right) @ drop (length left - n) left"
      unfolding m(3) n(3) by (rule parts) (use m n in simp_all)
  qed (use assms in \<open>auto simp: calculate_def Let_def simp flip: m_def n_def split: if_splits\<close>)
qed

fun join_lines :: "string list \<Rightarrow> string" where
  "join_lines [] = []"
| "join_lines [l] = l"
| "join_lines (l # ls) = l @ [CHR 0x0A] @ join_lines ls"

lemma join_split: "join_lines (split_on (CHR 0x0A) v) = v"
proof (induction v)
  case (Cons c v)
  then show ?case by (cases "split_on (CHR 0x0A) v"; cases "tl (split_on (CHR 0x0A) v)") auto
qed simp

lemma join_splitLines: "join_lines (splitLines v) = v"
  by (simp add: splitLines_def join_split)

text \<open>A diff is exact. The lines that a diff marks unchanged or removed, joined again, are the first
  text, and the lines marked unchanged or added are the second.\<close>

theorem diff_reconstructs:
  assumes "calculate (splitLines left) (splitLines right) = Inr ops"
  shows "join_lines (before_lines ops) = left \<and> join_lines (after_lines ops) = right"
  using assms
proof (rule calculate_Inr)
  fix p a b s assume parts: "splitLines left = p @ a @ s" "splitLines right = p @ b @ s"
    "ops = map (Pair Unchanged) p @ walk a b (fill_table a b) 0 0 @ map (Pair Unchanged) s"
  have "before_lines ops = splitLines left" "after_lines ops = splitLines right"
    using walk_lines [of 0 a 0 b "fill_table a b"] parts by simp_all
  then show ?thesis by (simp add: join_splitLines)
qed

text \<open>C34: A diff is minimal. The lines that a diff keeps are a common subsequence of the two texts, and no
  common subsequence is longer; the 32-bit counters of the table cannot overflow within the work limit.\<close>

theorem diff_minimal:
  assumes "calculate left right = Inr ops"
  shows "subseq (kept_lines ops) left \<and> subseq (kept_lines ops) right \<and>
    (\<forall>zs. subseq zs left \<longrightarrow> subseq zs right \<longrightarrow> length zs \<le> length (kept_lines ops))"
  using assms
proof (rule calculate_Inr)
  fix p a b s assume parts: "left = p @ a @ s" "right = p @ b @ s" and budget: "length a * length b \<le> MaxWorkUnits"
    and ops: "ops = map (Pair Unchanged) p @ walk a b (fill_table a b) 0 0 @ map (Pair Unchanged) s"
  have "length (kept_lines ops) = lcs left right"
    using walk_kept [OF fits_budget [OF budget], of 0 0] lcs_prefix [of p] lcs_suffix [of a s b] by (simp add: ops parts)
  moreover have "subseq (kept_lines ops) (before_lines ops)" "subseq (kept_lines ops) (after_lines ops)"
    by (induction ops) (auto simp: before_lines_def after_lines_def kept_lines_def)
  moreover have "before_lines ops = left" "after_lines ops = right"
    using walk_lines [of 0 a 0 b "fill_table a b"] parts ops by simp_all
  ultimately show ?thesis using lcs_upper by metis
qed

section \<open>Entries stand for the operations\<close>

definition line_at :: "string list \<Rightarrow> uint64 \<Rightarrow> string option" where
  "line_at ls n = (if n = 0 \<or> length ls < unat n then None else Some (ls ! (unat n - 1)))"

definition lines_at :: "string list \<Rightarrow> uint64 \<Rightarrow> uint64 \<Rightarrow> string list" where
  "lines_at ls n k = take (unat k) (drop (unat n - 1) ls)"

definition entry_ops :: "string list \<Rightarrow> Entry \<Rightarrow> diff_op list" where
  "entry_ops left e = (if Kind e = Omitted then map (Pair Unchanged) (lines_at left (FromLine e) (OmittedLines e))
     else [(Kind e, Text e)])"

definition expand :: "string list \<Rightarrow> Entry list \<Rightarrow> diff_op list" where
  "expand left es = concat (map (entry_ops left) es)"

definition numbered :: "string list \<Rightarrow> string list \<Rightarrow> Entry \<Rightarrow> bool" where
  "numbered left right e \<longleftrightarrow> (case Kind e of
     Unchanged \<Rightarrow> line_at left (FromLine e) = Some (Text e) \<and> line_at right (ToLine e) = Some (Text e) \<and> OmittedLines e = 0
   | Removed \<Rightarrow> line_at left (FromLine e) = Some (Text e) \<and> ToLine e = 0 \<and> OmittedLines e = 0
   | Added \<Rightarrow> FromLine e = 0 \<and> line_at right (ToLine e) = Some (Text e) \<and> OmittedLines e = 0
   | Omitted \<Rightarrow> FromLine e \<noteq> 0 \<and> ToLine e \<noteq> 0 \<and> OmittedLines e \<noteq> 0 \<and> Text e = [] \<and>
       lines_at left (FromLine e) (OmittedLines e) = lines_at right (ToLine e) (OmittedLines e) \<and>
       length (lines_at left (FromLine e) (OmittedLines e)) = unat (OmittedLines e))"

lemma numbered_marshals: "numbered left right e \<Longrightarrow> entry_MarshalJSON e \<noteq> None"
  by (cases "Kind e") (auto simp: numbered_def entry_MarshalJSON_def line_at_def Let_def split: if_splits)

text \<open>The line numbers after the operations \<open>pre\<close>.\<close>

definition next_from :: "diff_op list \<Rightarrow> uint64" where
  "next_from pre = of_nat (Suc (length (before_lines pre)))"

definition next_to :: "diff_op list \<Rightarrow> uint64" where
  "next_to pre = of_nat (Suc (length (after_lines pre)))"

definition whole :: "diff_op list \<Rightarrow> string list \<Rightarrow> string list \<Rightarrow> bool" where
  "whole ops left right \<longleftrightarrow> left = before_lines ops \<and> right = after_lines ops \<and> Suc (length ops) < 2 ^ 64 \<and>
     (\<forall>v \<in> set ops. fst v \<noteq> Omitted)"

text \<open>The entries \<open>es\<close> stand for \<open>ops\<close>, which come after \<open>pre\<close>.\<close>

definition segment :: "string list \<Rightarrow> string list \<Rightarrow> diff_op list \<Rightarrow> diff_op list \<Rightarrow> Entry list \<times> uint64 \<times> uint64 \<Rightarrow> bool" where
  "segment left right pre ops r \<longleftrightarrow> (case r of (es, from, to) \<Rightarrow> from = next_from (pre @ ops) \<and> to = next_to (pre @ ops) \<and>
     expand left es = ops \<and> list_all (numbered left right) es)"

lemma segment_append:
  "segment left right pre xs (es, f, t) \<Longrightarrow> segment left right (pre @ xs) ys (fs, f', t') \<Longrightarrow>
     segment left right pre (xs @ ys) (es @ fs, f', t')"
  by (simp add: segment_def expand_def)

lemma lines_le: "length (before_lines ops) \<le> length ops" "length (after_lines ops) \<le> length ops"
  by (simp_all add: before_lines_def after_lines_def)

lemma next_unat:
  assumes "whole (pre @ post) left right"
  shows "unat (next_from pre) = Suc (length (before_lines pre))" "unat (next_to pre) = Suc (length (after_lines pre))"
proof -
  have "Suc (length (before_lines pre)) < 2 ^ 64" "Suc (length (after_lines pre)) < 2 ^ 64"
    using assms lines_le [of pre] by (auto simp: whole_def intro: le_less_trans)
  then show "unat (next_from pre) = Suc (length (before_lines pre))" "unat (next_to pre) = Suc (length (after_lines pre))"
    unfolding next_from_def next_to_def by (simp_all add: unsigned_of_nat take_bit_nat_eq_self del: of_nat_Suc)
qed

lemma next_step:
  "next_from (pre @ ops) = next_from pre + of_nat (length (before_lines ops))"
  "next_to (pre @ ops) = next_to pre + of_nat (length (after_lines ops))"
  by (simp_all add: next_from_def next_to_def)

lemma next_not_0:
  assumes "whole (pre @ post) left right"
  shows "next_from pre \<noteq> 0" "next_to pre \<noteq> 0"
  using next_unat [OF assms] by (auto simp flip: unat_eq_zero)

lemma line_at_next:
  assumes "whole (pre @ (k, l) # post) left right"
  shows "k = Unchanged \<or> k = Removed \<Longrightarrow> line_at left (next_from pre) = Some l"
    and "k = Unchanged \<or> k = Added \<Longrightarrow> line_at right (next_to pre) = Some l"
  using next_unat [OF assms] next_not_0 [OF assms] assms by (auto simp: line_at_def whole_def nth_append)

lemma lineEntry_segment:
  assumes "whole (pre @ v # post) left right"
  obtains e where "lineEntry v (next_from pre) (next_to pre) = (e, next_from (pre @ [v]), next_to (pre @ [v]))"
    and "expand left [e] = [v]" and "numbered left right e"
proof -
  obtain k l where v: "v = (k, l)" by (cases v)
  have "k \<noteq> Omitted" using assms by (auto simp: whole_def v)
  then show thesis using line_at_next [OF assms [unfolded v]] that
    by (cases k) (auto simp: v next_step expand_def entry_ops_def numbered_def)
qed

lemma line_entries_segment:
  "whole (pre @ ops @ post) left right \<Longrightarrow> segment left right pre ops (line_entries ops (next_from pre) (next_to pre))"
proof (induction ops arbitrary: pre)
  case Nil
  then show ?case by (simp add: segment_def expand_def)
next
  case (Cons v ops)
  from Cons.prems have w: "whole (pre @ v # (ops @ post)) left right" by simp
  obtain e where e: "lineEntry v (next_from pre) (next_to pre) = (e, next_from (pre @ [v]), next_to (pre @ [v]))"
    "expand left [e] = [v]" "numbered left right e" by (rule lineEntry_segment [OF w])
  obtain es f t where es: "line_entries ops (next_from (pre @ [v])) (next_to (pre @ [v])) = (es, f, t)"
    by (metis prod_cases3)
  have "segment left right (pre @ [v]) ops (es, f, t)" using Cons.IH [of "pre @ [v]"] Cons.prems es by simp
  moreover have "segment left right pre [v] ([e], next_from (pre @ [v]), next_to (pre @ [v]))"
    using e by (simp add: segment_def)
  ultimately have "segment left right pre ([v] @ ops) ([e] @ es, f, t)" by (rule segment_append [rotated])
  then show ?case by (simp add: e es)
qed

lemma gap_segment:
  assumes "whole (pre @ ops @ post) left right" and "\<forall>v \<in> set ops. fst v = Unchanged" and "ops \<noteq> []"
  shows "segment left right pre ops ([\<lparr>Kind = Omitted, FromLine = next_from pre, ToLine = next_to pre, Text = [],
      OmittedLines = of_nat (length ops)\<rparr>], next_from pre + of_nat (length ops), next_to pre + of_nat (length ops))"
proof -
  obtain ls where ls: "ops = map (Pair Unchanged) ls"
    using assms(2) by (metis (mono_tags, lifting) ex_map_conv prod.collapse)
  have "length ops < 2 ^ 64" using assms(1) by (simp add: whole_def)
  then have n: "unat (of_nat (length ls) :: uint64) = length ls"
    by (simp add: ls unsigned_of_nat take_bit_nat_eq_self)
  have "take (length ls) (drop (length (before_lines pre)) left) = ls"
    "take (length ls) (drop (length (after_lines pre)) right) = ls"
    using assms(1) by (simp_all add: whole_def ls)
  then have at: "lines_at left (next_from pre) (of_nat (length ls)) = ls"
    "lines_at right (next_to pre) (of_nat (length ls)) = ls"
    using next_unat [OF assms(1)] n by (simp_all add: lines_at_def)
  have "(of_nat (length ls) :: uint64) \<noteq> 0" using n assms(3) ls by (metis length_0_conv list.map(1) unat_0)
  then show ?thesis using at n next_not_0 [OF assms(1)]
    by (simp add: segment_def expand_def entry_ops_def numbered_def next_step ls)
qed

lemma run_entries_segment:
  assumes "whole (pre @ run @ post) left right" and "\<forall>v \<in> set run. fst v = fst (hd run)"
  shows "segment left right pre run (run_entries run (next_from pre) (next_to pre))"
proof (cases "fst (hd run) = Unchanged \<and> ContextLines * 2 < length run")
  case True
  define u where "u = take ContextLines run"
  define m where "m = drop ContextLines (take (length run - ContextLines) run)"
  define w where "w = drop (length run - ContextLines) run"
  have run: "run = u @ m @ w"
  proof -
    have "u = take ContextLines (take (length run - ContextLines) run)" using True by (auto simp: u_def min_def)
    then have "u @ m = take (length run - ContextLines) run" unfolding m_def by (metis append_take_drop_id)
    then show ?thesis unfolding w_def by (metis append_assoc append_take_drop_id)
  qed
  have len: "length m = length run - ContextLines * 2" using True by (simp add: m_def)
  obtain es f t where es: "line_entries u (next_from pre) (next_to pre) = (es, f, t)" by (metis prod_cases3)
  have u: "segment left right pre u (es, f, t)"
    using line_entries_segment [of pre u "m @ w @ post" left right] assms(1) es by (simp add: run)
  then have ft: "f = next_from (pre @ u)" "t = next_to (pre @ u)" by (simp_all add: segment_def)
  define gap where "gap = \<lparr>Kind = Omitted, FromLine = f, ToLine = t, Text = [], OmittedLines = of_nat (length m)\<rparr>"
  have "m \<noteq> []" using len True by auto
  then have m: "segment left right (pre @ u) m ([gap], f + of_nat (length m), t + of_nat (length m))"
    using gap_segment [of "pre @ u" m "w @ post" left right] assms True by (simp add: run gap_def ft)
  then have ft': "f + of_nat (length m) = next_from ((pre @ u) @ m)" "t + of_nat (length m) = next_to ((pre @ u) @ m)"
    by (simp_all add: segment_def)
  obtain fs f' t' where fs: "line_entries w (f + of_nat (length m)) (t + of_nat (length m)) = (fs, f', t')" by (metis prod_cases3)
  have w: "segment left right ((pre @ u) @ m) w (fs, f', t')"
    using line_entries_segment [of "(pre @ u) @ m" w post left right] assms(1) fs ft' by (simp add: run)
  have "segment left right pre (u @ m @ w) (es @ [gap] @ fs, f', t')"
    by (rule segment_append [OF u segment_append [OF m w]])
  moreover have "run_entries run (next_from pre) (next_to pre) = (es @ [gap] @ fs, f', t')"
    using True es fs len by (simp add: run_entries_def Let_def gap_def flip: u_def w_def)
  ultimately show ?thesis by (simp flip: run)
next
  case False
  have "run_entries run (next_from pre) (next_to pre) = line_entries run (next_from pre) (next_to pre)"
    unfolding run_entries_def by (rule if_not_P) (rule False)
  then show ?thesis using line_entries_segment [OF assms(1)] by simp
qed

lemma compact_from_segment:
  "whole (pre @ ops) left right \<Longrightarrow> from = next_from pre \<Longrightarrow> to = next_to pre \<Longrightarrow>
     expand left (compact_from ops from to) = ops \<and> list_all (numbered left right) (compact_from ops from to)"
proof (induction ops "from" "to" arbitrary: pre rule: compact_from.induct)
  case (1 "from" "to")
  then show ?case by (simp add: expand_def)
next
  case (2 v ops "from" "to")
  define run where "run = v # takeWhile (\<lambda>w. fst w = fst v) ops"
  define rest where "rest = dropWhile (\<lambda>w. fst w = fst v) ops"
  have split: "v # ops = run @ rest" by (simp add: run_def rest_def)
  have same: "\<forall>w \<in> set run. fst w = fst (hd run)" by (auto simp: run_def dest: set_takeWhileD)
  have w: "whole (pre @ run @ rest) left right" using "2.prems"(1) by (simp add: split)
  obtain es f t where es: "run_entries run from to = (es, f, t)" by (metis prod_cases3)
  have seg: "segment left right pre run (es, f, t)" using run_entries_segment [OF w same] es "2.prems"(2,3) by simp
  have "expand left (compact_from rest f t) = rest \<and> list_all (numbered left right) (compact_from rest f t)"
    using seg w es unfolding run_def rest_def by (intro "2.IH" [of _ "(es, f, t)" es "(f, t)" f t "pre @ run"])
      (auto simp: segment_def run_def)
  moreover have "compact_from (v # ops) from to = es @ compact_from rest f t"
    using es by (simp add: run_def rest_def)
  ultimately show ?case using seg by (simp add: split segment_def expand_def)
qed

lemma walk_kinds: "v \<in> set (walk a b dp i j) \<Longrightarrow> fst v \<noteq> Omitted"
proof (induction a b dp i j rule: walk.induct)
  case (1 a b dp i j)
  show ?case using 1 walk.simps [of a b dp i j] by (auto split: if_splits)
qed

lemma ops_length: "\<forall>v \<in> set ops. fst v \<noteq> Omitted \<Longrightarrow> length ops \<le> length (before_lines ops) + length (after_lines ops)"
proof (induction ops)
  case (Cons v ops)
  then show ?case by (cases v; cases "fst v") auto
qed simp

lemma calculate_whole:
  assumes "calculate left right = Inr ops" and "length left < 2 ^ 62" and "length right < 2 ^ 62"
  shows "whole ops left right"
  using assms(1)
proof (rule calculate_Inr)
  fix p a b s assume parts: "left = p @ a @ s" "right = p @ b @ s"
    "ops = map (Pair Unchanged) p @ walk a b (fill_table a b) 0 0 @ map (Pair Unchanged) s"
  have lines: "before_lines ops = left" "after_lines ops = right"
    using walk_lines [of 0 a 0 b "fill_table a b"] parts by simp_all
  have kinds: "\<forall>v \<in> set ops. fst v \<noteq> Omitted" using parts(3) walk_kinds by auto
  have "length ops < 2 ^ 62 + 2 ^ 62" using ops_length [OF kinds] add_less_mono [OF assms(2,3)] unfolding lines by (rule le_less_trans)
  then show ?thesis using lines kinds by (simp add: whole_def)
qed

lemma compact_lossless:
  assumes "whole ops left right"
  shows "expand left (compact_ops ops) = ops \<and> list_all (numbered left right) (compact_ops ops)"
  using compact_from_segment [of "[]" ops left right 1 1] assms by (simp add: compact_ops_def next_from_def next_to_def)

text \<open>C35: Folding loses nothing. The entries of a diff carry the numbers of their lines in both texts, an
  omitted run covers lines that are equal in both, and with the first text at hand the entries determine the
  whole diff, and so the second text.\<close>

theorem entries_lossless:
  assumes "calculate left right = Inr ops" and "length left < 2 ^ 62" and "length right < 2 ^ 62"
  shows "expand left (compact_ops ops) = ops \<and> after_lines (expand left (compact_ops ops)) = right \<and>
    (\<forall>e \<in> set (compact_ops ops). numbered left right e \<and> entry_MarshalJSON e \<noteq> None)"
  using compact_lossless [OF calculate_whole [OF assms]] calculate_whole [OF assms] numbered_marshals
  by (auto simp: whole_def list_all_iff)

section \<open>Cursors\<close>

lemma base64_value_char: "n < 64 \<Longrightarrow> base64_value (base64_char n) = Some n"
  by (auto simp: base64_value_def base64_char_def is_upper_def is_lower_def is_digit_def between_def)

lemma base64_char_line: "base64_char n \<noteq> CHR 0x0A \<and> base64_char n \<noteq> CHR 0x0D"
proof -
  have "of_char (base64_char n) \<in> {10, 13 :: nat} \<Longrightarrow> False"
    by (auto simp: base64_char_def split: if_splits)
  then show ?thesis by auto
qed

fun sextets :: "string \<Rightarrow> nat list" where
  "sextets [] = []"
| "sextets [a] = [of_char a div 4, of_char a mod 4 * 16]"
| "sextets [a, b] = [of_char a div 4, of_char a mod 4 * 16 + of_char b div 16, of_char b mod 16 * 4]"
| "sextets (a # b # c # cs) =
     [of_char a div 4, of_char a mod 4 * 16 + of_char b div 16, of_char b mod 16 * 4 + of_char c div 64, of_char c mod 64] @ sextets cs"

lemma base64_encode_sextets: "base64_encode s = map base64_char (sextets s)"
  by (induction s rule: base64_encode.induct) auto

lemma byte_parts: "(of_char c :: nat) div 4 < 64" "(of_char c :: nat) div 16 < 16" "(of_char c :: nat) div 64 < 4"
  by (simp_all add: less_mult_imp_div_less)

lemma mod_parts: "(x :: nat) mod 4 * 16 \<le> 48" "(x :: nat) mod 16 * 4 \<le> 60"
  using mod_less_divisor [of 4 x] mod_less_divisor [of 16 x] by linarith+

lemma sextets_small: "n \<in> set (sextets s) \<Longrightarrow> n < 64"
proof (induction s rule: sextets.induct)
  case (2 a)
  have "of_char a mod 4 * 16 < (64 :: nat)" using mod_parts(1) [of "of_char a"] by linarith
  then show ?case using 2 byte_parts(1) [of a] by auto
next
  case (3 a b)
  have "of_char a mod 4 * 16 + of_char b div 16 < (64 :: nat)" "of_char b mod 16 * 4 < (64 :: nat)"
    using byte_parts(2) [of b] mod_parts(1) [of "of_char a"] mod_parts(2) [of "of_char b"] by linarith+
  then show ?case using 3 byte_parts(1) [of a] by auto
next
  case (4 a b c cs)
  have "of_char a mod 4 * 16 + of_char b div 16 < (64 :: nat)" "of_char b mod 16 * 4 + of_char c div 64 < (64 :: nat)"
    using byte_parts(2) [of b] byte_parts(3) [of c] mod_parts(1) [of "of_char a"] mod_parts(2) [of "of_char b"] by linarith+
  then show ?case using 4 byte_parts(1) [of a] by auto
qed auto

lemma sextets_bytes: "base64_bytes (sextets s) = Some s"
proof (induction s rule: sextets.induct)
  case (3 a b)
  then show ?case using byte_parts [of b] by (simp add: div_mult_mod_eq)
next
  case (4 a b c cs)
  then show ?case using byte_parts [of b] byte_parts [of c] by (simp add: div_mult_mod_eq)
qed (auto simp: div_mult_mod_eq)

lemma those_values: "(\<And>n. n \<in> set ns \<Longrightarrow> n < 64) \<Longrightarrow> those (map (base64_value \<circ> base64_char) ns) = Some ns"
  by (induction ns) (auto simp: base64_value_char)

lemma base64_roundtrip: "base64_decode (base64_encode s) = Some s"
proof -
  have "filter (\<lambda>c. c \<noteq> CHR 0x0A \<and> c \<noteq> CHR 0x0D) (base64_encode s) = base64_encode s"
    using base64_char_line by (simp add: base64_encode_sextets filter_id_conv)
  moreover have "those (map base64_value (base64_encode s)) = Some (sextets s)"
    using those_values [of "sextets s"] sextets_small [of _ s] by (simp add: base64_encode_sextets)
  ultimately show ?thesis by (simp add: base64_decode_def sextets_bytes)
qed

lemma decimal_digits: "decimal n \<noteq> [] \<and> list_all is_digit (decimal n)"
proof (induction n rule: decimal.induct)
  case (1 n)
  have last: "is_digit (char_of (48 + n mod 10))" "n < 10 \<Longrightarrow> is_digit (char_of (48 + n))"
    by (auto simp: is_digit_def between_def)
  show ?case using 1 last by (subst (1 2) decimal.simps) auto
qed

lemma digits_value_decimal: "digits_value (decimal n) = n"
proof (induction n rule: decimal.induct)
  case (1 n)
  show ?case
  proof (cases "n < 10")
    case True
    then show ?thesis by (subst decimal.simps) (simp add: digits_value_def)
  next
    case False
    then have "digits_value (decimal (n div 10) @ [char_of (48 + n mod 10)]) = n"
      using 1 by (simp add: digits_value_def)
    then show ?thesis using False by (subst decimal.simps) simp
  qed
qed

lemma Atoi_decimal:
  assumes "n < 2 ^ 63"
  shows "Atoi (decimal n) = Some (int n)"
proof -
  obtain c cs where d: "decimal n = c # cs" using decimal_digits [of n] by (cases "decimal n") auto
  have "is_digit c" using decimal_digits [of n] by (simp add: d)
  then have "c \<noteq> CHR ''-''" "c \<noteq> CHR ''+''" by (auto simp: is_digit_def between_def)
  moreover have "int n < 2 ^ 63" using assms by (simp flip: of_nat_less_iff)
  ultimately show ?thesis using decimal_digits [of n] digits_value_decimal [of n] by (simp add: Atoi_def d)
qed

lemma split_on_app: "c \<notin> set xs \<Longrightarrow> split_on c (xs @ c # ys) = xs # split_on c ys"
  by (induction xs) auto

lemma split_on_none: "c \<notin> set xs \<Longrightarrow> split_on c xs = [xs]"
  by (induction xs) auto

lemma hex_encode_plain: "CHR ''.'' \<notin> set (hex_encode s)"
proof -
  have "hex_digit n \<noteq> CHR ''.''" if "n < 16" for n
  proof -
    have "of_char (hex_digit n) \<noteq> (46 :: nat)" using that by (auto simp: hex_digit_def)
    then show ?thesis by auto
  qed
  then have "CHR ''.'' \<noteq> hex_digit (of_char c div 16)" "CHR ''.'' \<noteq> hex_digit (of_char c mod 16)" for c :: char
    using byte_parts(2) [of c] by (metis mod_less_divisor zero_less_numeral)+
  then show ?thesis by (auto simp: hex_encode_def)
qed

lemma decimal_plain: "CHR ''.'' \<notin> set (decimal n)"
  using decimal_digits [of n] by (auto simp: list_all_iff is_digit_def between_def)

lemma cursor_parts:
  "split_on (CHR ''.'') (''v1.'' @ hex_encode d @ ''.'' @ decimal n) = [''v1'', hex_encode d, decimal n]"
  using split_on_app [of "CHR ''.''" "''v1''" "hex_encode d @ ''.'' @ decimal n"]
    split_on_app [of "CHR ''.''" "hex_encode d" "decimal n"] hex_encode_plain decimal_plain split_on_none by simp

lemma decode_encode_cursor:
  assumes "offset < count" and "count < 2 ^ 63"
  shows "decodeCursor sha256 (encodeCursor sha256 binding offset) binding count = Inr offset"
    and "encodeCursor sha256 binding offset \<noteq> []"
proof -
  show nonempty: "encodeCursor sha256 binding offset \<noteq> []"
    by (auto simp: encodeCursor_def base64_encode_sextets elim: sextets.elims)
  have decoded: "base64_decode (encodeCursor sha256 binding k) =
      Some (''v1.'' @ hex_encode (take 8 (sha256 binding)) @ ''.'' @ decimal k)" for k
    unfolding encodeCursor_def by (rule base64_roundtrip)
  have "Atoi (decimal offset) = Some (int offset)" using assms by (intro Atoi_decimal) simp
  then show "decodeCursor sha256 (encodeCursor sha256 binding offset) binding count = Inr offset"
    using nonempty assms(1) unfolding decodeCursor_def
    by (simp add: decoded cursor_parts del: append.simps)
qed

section \<open>Pages\<close>

lemma hunks_entries: "concat (map Entries (hunks es)) = es"
proof (induction es rule: hunks.induct)
  case (1 es)
  then show ?case by (subst hunks.simps) (simp add: Let_def)
qed

lemma hunks_within: "h \<in> set (hunks es) \<Longrightarrow> length (Entries h) \<le> 64 \<and> set (Entries h) \<subseteq> set es"
proof (induction es rule: hunks.induct)
  case (1 es)
  then show ?case using hunks.simps [of es] set_take_subset [of 64 es] set_drop_subset [of 64 es]
    by (auto simp: Let_def split: if_splits)
qed

lemma those_exists: "(\<And>x. x \<in> set xs \<Longrightarrow> f x \<noteq> None) \<Longrightarrow> those (map f xs) \<noteq> None"
  by (induction xs) (auto split: option.splits)

lemma page_json_exists:
  assumes "\<forall>e \<in> set es. entry_MarshalJSON e \<noteq> None"
  shows "page_json \<lparr>Hunks = hunks es, NextCursor = c, Total = n\<rparr> \<noteq> None"
proof -
  have "hunk_json h \<noteq> None" if "h \<in> set (hunks es)" for h
    using those_exists [of "Entries h" entry_MarshalJSON] hunks_within [OF that] assms
    by (auto simp: hunk_json_def entries_json_def)
  then show ?thesis using those_exists [of "hunks es" hunk_json] by (simp add: page_json_def)
qed

lemma shrink_result:
  assumes "\<forall>e \<in> set entries. entry_MarshalJSON e \<noteq> None" and "offset \<le> n"
  shows "\<exists>m. shrink entries offset n = Inr m \<and> offset \<le> m \<and> m \<le> n"
  using assms
proof (induction entries offset n rule: shrink.induct)
  case (1 entries offset n)
  have "page_json \<lparr>Hunks = hunks (drop offset (take n entries)), NextCursor = [], Total = length entries\<rparr> \<noteq> None"
    using "1.prems"(1) by (intro page_json_exists) (meson in_set_dropD in_set_takeD)
  then obtain v where v: "page_json \<lparr>Hunks = hunks (drop offset (take n entries)), NextCursor = [], Total = length entries\<rparr> = Some v"
    by blast
  show ?case
  proof (cases "offset < n \<and> \<not> length (print_json v) \<le> MaxPageBytes")
    case True
    then have "offset \<le> n - 1" by linarith
    with True obtain m where "shrink entries offset (n - 1) = Inr m" "offset \<le> m" "m \<le> n - 1"
      using "1.IH" [OF _ v] "1.prems"(1) by blast
    then show ?thesis using True v by (subst shrink.simps) auto
  next
    case False
    then show ?thesis using "1.prems"(2) v by (subst shrink.simps) auto
  qed
qed

text \<open>Following the cursors: \<open>pages n\<close> asks for at most \<open>n\<close> pages, starting from \<open>cursor\<close>.\<close>

fun pages :: "(string \<Rightarrow> string) \<Rightarrow> string \<Rightarrow> string \<Rightarrow> string \<Rightarrow> int \<Rightarrow> nat \<Rightarrow> string \<Rightarrow> diff_error + Entry list" where
  "pages sha256 left right binding limit 0 cursor = Inr []"
| "pages sha256 left right binding limit (Suc n) cursor =
    result_bind (fst (Generate sha256 left right binding cursor limit)) (\<lambda>page.
    let here = concat (map Entries (Hunks page)) in
    if NextCursor page = [] then Inr here
    else result_bind (pages sha256 left right binding limit n (NextCursor page)) (\<lambda>rest. Inr (here @ rest)))"

lemma splitLines_length: "length (splitLines v) \<le> Suc (length v)"
proof -
  have "length (split_on c v) \<le> Suc (length v)" for c by (induction v) (auto split: list.splits)
  then show ?thesis by (simp add: splitLines_def)
qed

lemma entries_length: "length (compact_from ops from to) \<le> length ops"
proof (induction ops "from" "to" rule: compact_from.induct)
  case (2 v ops "from" "to")
  define run where "run = v # takeWhile (\<lambda>w. fst w = fst v) ops"
  define rest where "rest = dropWhile (\<lambda>w. fst w = fst v) ops"
  have line: "line_entries vs f t = (es, f', t') \<Longrightarrow> length es = length vs" for vs f t es f' t'
    by (induction vs f t arbitrary: es f' t' rule: line_entries.induct) (auto simp: Let_def split: prod.splits)
  have run_length: "length (fst (run_entries run f t)) \<le> length run" for f t
  proof -
    have "length (fst (line_entries run f t)) = length run" by (cases "line_entries run f t") (auto dest: line)
    then show ?thesis by (auto simp: run_entries_def Let_def dest!: line split: prod.splits)
  qed
  obtain es f t where es: "run_entries run from to = (es, f, t)" by (metis prod_cases3)
  have "length (compact_from rest f t) \<le> length rest"
    using es unfolding run_def rest_def by (intro "2.IH") auto
  moreover have "length (v # ops) = length run + length rest" 
    using takeWhile_dropWhile_id [of "\<lambda>w. fst w = fst v" ops] by (simp add: run_def rest_def flip: length_append)
  ultimately show ?case using es run_length [of "from" "to"] by (simp add: run_def rest_def)
qed simp

text \<open>The cases in which \<open>Generate\<close> produces entries at all.\<close>

definition within_limits :: "string \<Rightarrow> string \<Rightarrow> int \<Rightarrow> bool" where
  "within_limits left right limit \<longleftrightarrow> 0 \<le> limit \<and> limit \<le> MaxPageSize \<and> length left \<le> MaxInputBytes \<and> length right \<le> MaxInputBytes"

lemma generate_page_result:
  assumes "\<forall>e \<in> set entries. entry_MarshalJSON e \<noteq> None" and "1 \<le> limit" and "length entries < 2 ^ 63"
    and "decodeCursor sha256 cursor binding (length entries) = Inr offset" and "offset \<le> length entries"
  shows "generate_page sha256 entries binding cursor limit = Inl ErrBudgetExceeded \<or>
    (\<exists>page n. generate_page sha256 entries binding cursor limit = Inr page \<and> offset + n \<le> length entries \<and>
       concat (map Entries (Hunks page)) = take n (drop offset entries) \<and>
       (if offset + n = length entries then NextCursor page = []
        else 0 < n \<and> NextCursor page \<noteq> [] \<and>
          decodeCursor sha256 (NextCursor page) binding (length entries) = Inr (offset + n)))"
proof -
  have "offset \<le> min (offset + nat limit) (length entries)" using assms(5) by simp
  from shrink_result [OF assms(1) this] obtain m where
    m: "shrink entries offset (min (offset + nat limit) (length entries)) = Inr m" "offset \<le> m" "m \<le> length entries" by auto
  obtain n where n: "m = offset + n" using m(2) le_Suc_ex by blast
  show ?thesis
  proof (cases "m = offset \<and> offset < length entries")
    case True
    then show ?thesis using assms(4) m(1) by (simp add: generate_page_def)
  next
    case False
    define page where "page = \<lparr>Hunks = hunks (drop offset (take m entries)),
       NextCursor = (if m < length entries then encodeCursor sha256 binding m else []), Total = length entries\<rparr>"
    have "generate_page sha256 entries binding cursor limit = Inr page"
      using assms(4) m(1) False by (auto simp: generate_page_def page_def)
    moreover have "offset + n < length entries \<Longrightarrow> 0 < n" using False n m(3) by auto
    moreover have "drop offset (take m entries) = take n (drop offset entries)" by (simp add: n drop_take)
    ultimately show ?thesis using m(3) decode_encode_cursor [OF _ assms(3), of m sha256 binding] n
      by (intro disjI2 exI [of _ page] exI [of _ n]) (auto simp: page_def hunks_entries)
  qed
qed

lemma pages_from:
  assumes gen: "\<And>cursor. fst (Generate sha256 left right binding cursor limit) = generate_page sha256 entries cb cursor limit'"
    and entries: "\<forall>e \<in> set entries. entry_MarshalJSON e \<noteq> None" "1 \<le> limit'" "length entries < 2 ^ 63"
  shows "decodeCursor sha256 cursor cb (length entries) = Inr offset \<Longrightarrow> offset \<le> length entries \<Longrightarrow> length entries - offset < fuel \<Longrightarrow>
    pages sha256 left right binding limit fuel cursor \<in> {Inr (drop offset entries), Inl ErrBudgetExceeded}"
proof (induction fuel arbitrary: cursor offset)
  case (Suc fuel)
  from generate_page_result [OF entries Suc.prems(1,2)] show ?case
  proof (elim disjE exE conjE)
    fix page n assume page: "generate_page sha256 entries cb cursor limit' = Inr page" and n: "offset + n \<le> length entries"
      "concat (map Entries (Hunks page)) = take n (drop offset entries)"
      "if offset + n = length entries then NextCursor page = []
       else 0 < n \<and> NextCursor page \<noteq> [] \<and> decodeCursor sha256 (NextCursor page) cb (length entries) = Inr (offset + n)"
    show ?thesis
    proof (cases "offset + n = length entries")
      case True
      then have "take n (drop offset entries) = drop offset entries" by simp
      then show ?thesis using True n page gen [of cursor] by simp
    next
      case False
      have "length entries - (offset + n) < fuel" using Suc.prems(3) n(1,3) False by auto
      then have "pages sha256 left right binding limit fuel (NextCursor page) \<in> {Inr (drop (offset + n) entries), Inl ErrBudgetExceeded}"
        using Suc.IH [of "NextCursor page" "offset + n"] n False by simp
      moreover have "take n (drop offset entries) @ drop (offset + n) entries = drop offset entries"
        by (metis add.commute append_take_drop_id drop_drop)
      ultimately show ?thesis using n False page gen [of cursor] by auto
    qed
  qed (use gen in simp)
qed simp


section \<open>Witnesses\<close>

definition example_left :: "string list" where
  "example_left = [''1'', ''2'', ''3'', ''4'', ''5'', ''6'', ''7'', ''old'']"

definition example_right :: "string list" where
  "example_right = [''1'', ''2'', ''3'', ''4'', ''5'', ''6'', ''7'', ''new'']"

definition example_ops :: "diff_op list" where
  "example_ops = map (Pair Unchanged) [''1'', ''2'', ''3'', ''4'', ''5'', ''6'', ''7''] @ [(Removed, ''old''), (Added, ''new'')]"

lemma example_calculate: "calculate example_left example_right = Inr example_ops"
proof -
  have loops: "prefix_loop example_left example_right 0 = 7" "suffix_loop example_left example_right 7 0 = 0" by code_simp+
  have middle: "walk [''old''] [''new''] (fill_table [''old''] [''new'']) 0 0 = [(Removed, ''old''), (Added, ''new'')]" by code_simp
  have parts: "take 7 example_left = [''1'', ''2'', ''3'', ''4'', ''5'', ''6'', ''7'']" "length example_left = 8" "length example_right = 8"
    "drop 7 example_left = [''old'']" "drop 7 example_right = [''new'']" "drop 8 example_left = []"
    by (simp_all add: example_left_def example_right_def)
  show ?thesis unfolding calculate_def Let_def loops by (simp add: parts middle example_ops_def MaxWorkUnits_def del: fill_table.simps)
qed

lemma example_split: "splitLines (join_lines example_left) = example_left" "splitLines (join_lines example_right) = example_right"
  by code_simp+

theorem diff_reconstructs_witness:
  "calculate (splitLines (join_lines example_left)) (splitLines (join_lines example_right)) = Inr example_ops \<and>
   join_lines (after_lines example_ops) = join_lines example_right"
  using diff_reconstructs [of "join_lines example_left" "join_lines example_right" example_ops]
  by (simp add: example_split example_calculate)

theorem diff_minimal_witness:
  "subseq (kept_lines example_ops) example_left \<and> length [''1'', ''7''] \<le> length (kept_lines example_ops)"
proof -
  have "subseq [''1'', ''7''] example_left" "subseq [''1'', ''7''] example_right"
    by (simp_all add: example_left_def example_right_def)
  then show ?thesis using diff_minimal [OF example_calculate] by blast
qed

theorem entries_lossless_witness:
  "length (compact_ops example_ops) = 9 \<and> after_lines (expand example_left (compact_ops example_ops)) = example_right"
proof -
  have "length (compact_ops example_ops) = 9" by code_simp
  moreover have "length example_left < 2 ^ 62" "length example_right < 2 ^ 62"
    by (simp_all add: example_left_def example_right_def)
  ultimately show ?thesis using entries_lossless [OF example_calculate] by blast
qed


end
