(* ===== verification/Schema.thy ===== *)
theory Schema
  imports Json
begin

text \<open>
  The authored workflow document (\<open>core/workflow/schema.go\<close> and the node variants of
  \<open>workspace.go\<close>, \<open>delivery.go\<close>, \<open>extension.go\<close>, the resource union of \<open>resources.go\<close>). A Go
  struct is a record, a closed interface union a datatype with one constructor per concrete type;
  an interface that the code tests against nil has an extra constructor for nil. A field name that
  occurs in several structs carries the struct's name in front. Enumerations that the code decodes
  from open strings stay strings (\<open>ValueType\<close>).
\<close>

section \<open>Values\<close>

type_synonym ValueType = string

definition ValueTask :: ValueType where "ValueTask = ''task''"
definition ValueRepository :: ValueType where "ValueRepository = ''repository''"
definition ValueWorkspace :: ValueType where "ValueWorkspace = ''workspace''"
definition ValueTemplate :: ValueType where "ValueTemplate = ''template''"
definition ValueMarkdown :: ValueType where "ValueMarkdown = ''markdown''"
definition ValueOpenItems :: ValueType where "ValueOpenItems = ''open_items''"
definition ValueDecisionLog :: ValueType where "ValueDecisionLog = ''decision_log''"
definition ValueNull :: ValueType where "ValueNull = ''null''"
definition ValueBoolean :: ValueType where "ValueBoolean = ''boolean''"
definition ValueInteger :: ValueType where "ValueInteger = ''integer''"
definition ValueNumber :: ValueType where "ValueNumber = ''number''"
definition ValueString :: ValueType where "ValueString = ''string''"
definition ValueArray :: ValueType where "ValueArray = ''array''"
definition ValueObject :: ValueType where "ValueObject = ''object''"

lemmas value_type_defs = ValueTask_def ValueRepository_def ValueWorkspace_def ValueTemplate_def
  ValueMarkdown_def ValueOpenItems_def ValueDecisionLog_def ValueNull_def ValueBoolean_def
  ValueInteger_def ValueNumber_def ValueString_def ValueArray_def ValueObject_def

definition StorageType :: "ValueType \<Rightarrow> ValueType" where
  "StorageType v = (if has_prefix ''schema:'' v then ValueObject
     else if v = ValueMarkdown then ValueString
     else if v \<in> set [ValueTask, ValueRepository, ValueWorkspace, ValueTemplate, ValueOpenItems,
                       ValueDecisionLog] then ValueObject
     else v)"

record ContentReference =
  content_id :: string
  content_version :: string
  content_digest :: string

record TemplateResource =
  template_content :: string
  template_version :: string
  required_headings :: "string list"

datatype ResourceSource =
    ArtifactResource string string \<comment> \<open>filename, content\<close>
  | TaskResource
  | RepositoryResource
  | TemplateSource TemplateResource
  | TemplateReferenceResource ContentReference
  | ConstantResource raw_message
  | ConfigResource string
  | OpenItemsResource
  | DecisionLogResource

record ValueDeclaration =
  input_resource :: "ResourceSource option"
  input_schema_definition :: raw_message
  input_type :: ValueType
  input_schema :: string
  input_description :: string

record ArtifactContract =
  artifact_filename :: string
  template_input :: Identifier

record OutputDeclaration =
  output_artifact :: "ArtifactContract option"
  output_schema_definition :: raw_message
  output_type :: ValueType
  output_schema :: string
  output_description :: string
  output_required :: "bool option"

section \<open>Predicates\<close>

datatype Operand = OperandNil | ReferenceOperand string | LiteralOperand raw_message

datatype ComparisonOperator = CompareEqual | CompareNotEqual | CompareLess | CompareLessOrEqual
  | CompareGreater | CompareGreaterOrEqual | CompareUnknown string

datatype LogicalOperator = LogicalAll | LogicalAny | LogicalUnknown string

datatype Predicate =
    PredicateNil
  | ConstantPredicate bool
  | ComparisonPredicate ComparisonOperator Operand Operand
  | PresentPredicate string
  | LogicalPredicate LogicalOperator "Predicate list"
  | NotPredicate Predicate

section \<open>Transitions, joins and checkpoints\<close>

record TransitionFields =
  TransitionID :: Identifier
  transition_to :: Identifier
  transition_when :: Predicate
  EnabledByDefault :: "bool option"

datatype Transition = NormalTransition TransitionFields
  | BoundedTransition TransitionFields uint16

fun transitionFields :: "Transition \<Rightarrow> TransitionFields" where
  "transitionFields (NormalTransition c) = c"
| "transitionFields (BoundedTransition c m) = c"

definition transition_id :: "Transition \<Rightarrow> Identifier" where
  "transition_id t = TransitionID (transitionFields t)"

definition Target :: "Transition \<Rightarrow> Identifier" where
  "Target t = transition_to (transitionFields t)"

datatype JoinMode = JoinOne | JoinAll

record Join =
  join_mode :: JoinMode
  join_from :: "Identifier list"

datatype TransitionMode = TransitionExclusive | TransitionFanout

datatype Checkpoint = NoCheckpoint | AcknowledgeCheckpoint
  | ApproveCheckpoint "8 word option"
  | ApproveOnChangeCheckpoint Predicate "8 word option"
  | ExternalCheckpoint string

datatype CheckpointMode = CheckpointNone | CheckpointAcknowledge | CheckpointApprove
  | CheckpointApproveOnChange | CheckpointExternal

fun checkpoint_mode :: "Checkpoint \<Rightarrow> CheckpointMode" where
  "checkpoint_mode NoCheckpoint = CheckpointNone"
| "checkpoint_mode AcknowledgeCheckpoint = CheckpointAcknowledge"
| "checkpoint_mode (ApproveCheckpoint _) = CheckpointApprove"
| "checkpoint_mode (ApproveOnChangeCheckpoint _ _) = CheckpointApproveOnChange"
| "checkpoint_mode (ExternalCheckpoint _) = CheckpointExternal"

section \<open>Bindings, validators, retries\<close>

record RequiredFields =
  required_from :: string
  required_pointer :: string
  required_type :: ValueType
  required_description :: string

record OptionalFields =
  optional_from :: string
  optional_pointer :: string
  optional_type :: ValueType
  optional_default :: raw_message
  optional_description :: string

datatype Binding = RequiredBinding RequiredFields | OptionalBinding OptionalFields

fun Source :: "Binding \<Rightarrow> string" where
  "Source (RequiredBinding b) = required_from b"
| "Source (OptionalBinding b) = optional_from b"

fun binding_value_type :: "Binding \<Rightarrow> ValueType" where
  "binding_value_type (RequiredBinding b) = required_type b"
| "binding_value_type (OptionalBinding b) = optional_type b"

fun bindingPointer :: "Binding \<Rightarrow> string" where
  "bindingPointer (RequiredBinding b) = required_pointer b"
| "bindingPointer (OptionalBinding b) = optional_pointer b"

record ExtensionRef =
  extension_id :: string
  extension_version :: string
  extension_digest :: string

record ExtensionExecutor =
  extension_ref :: ExtensionRef
  extension_configuration :: raw_message

datatype Validator = SchemaValidator Identifier string | CommandValidator "string list"
  | ExtensionValidator ExtensionExecutor

datatype RetryFailure = RetryProviderUnavailable | RetryProviderRateLimit | RetryProcessFailure
  | RetryValidatorFailure | RetryTimeout | RetryInterrupted

record RetryPolicy =
  MaxAttempts :: "8 word"
  retry_on :: "RetryFailure list"

section \<open>Node definitions and readiness\<close>

datatype NodeDefinitionRef = BuiltInNodeDefinitionRef string string
  | ProjectNodeDefinitionRef string string string
  | UserNodeDefinitionRef string string string

datatype NodeDefinitionScope = NodeDefinitionBuiltIn | NodeDefinitionProject | NodeDefinitionUser

fun DefinitionName :: "NodeDefinitionRef \<Rightarrow> string" where
  "DefinitionName (BuiltInNodeDefinitionRef n v) = n"
| "DefinitionName (ProjectNodeDefinitionRef p n v) = n"
| "DefinitionName (UserNodeDefinitionRef u n v) = n"

fun DefinitionVersion :: "NodeDefinitionRef \<Rightarrow> string" where
  "DefinitionVersion (BuiltInNodeDefinitionRef n v) = v"
| "DefinitionVersion (ProjectNodeDefinitionRef p n v) = v"
| "DefinitionVersion (UserNodeDefinitionRef u n v) = v"

fun definitionScope :: "NodeDefinitionRef \<Rightarrow> NodeDefinitionScope" where
  "definitionScope (BuiltInNodeDefinitionRef n v) = NodeDefinitionBuiltIn"
| "definitionScope (ProjectNodeDefinitionRef p n v) = NodeDefinitionProject"
| "definitionScope (UserNodeDefinitionRef u n v) = NodeDefinitionUser"

record ResolvedNodeDefinitionRef =
  definition_ref :: NodeDefinitionRef
  definition_digest :: string

record EvidenceRequirement =
  evidence_role :: Identifier
  evidence_description :: string

datatype ReadinessGateEnforcement = ReadinessGateAdvisory | ReadinessGateBlocking
  | ReadinessGateExternal

record ReadinessPolicyGate =
  gate_policy :: Identifier
  gate_enforcement :: ReadinessGateEnforcement
  gate_description :: string

datatype ReadinessRemedyAction = ReadinessSupplyInput | ReadinessReviseArtifact
  | ReadinessClarifyDecision | ReadinessInstallCapability | ReadinessRerunValidation

record ReadinessRemedy =
  remedy_code :: Identifier
  remedy_target :: Identifier
  remedy_action :: ReadinessRemedyAction
  remedy_description :: string

record ReadinessContract =
  RecommendedEvidence :: "EvidenceRequirement list"
  PolicyGates :: "ReadinessPolicyGate list"
  readiness_invariants :: "string list"
  Remedies :: "ReadinessRemedy list"

section \<open>Executors\<close>

record ReasoningExecutor =
  reasoning_instructions :: string
  reasoning_agent :: string
  reasoning_skills :: "string list"
  reasoning_tools :: "string list"

record ImplementationExecutor =
  TaskInput :: Identifier
  implementation_workspace :: Identifier
  implementation_instructions :: string

record GateExecutor =
  gate_executor_policy :: string
  gate_condition :: Predicate

record CommandExecutor =
  command_argv :: "string list"
  command_cwd :: string
  TimeoutSeconds :: "uint64 option"

datatype ApprovalExecutor = NamedApproval string | ExternalApproval string Identifier

fun Actor :: "ApprovalExecutor \<Rightarrow> string" where
  "Actor (NamedApproval n) = n"
| "Actor (ExternalApproval _ _) = ''external''"

record WorkflowReference =
  workflow_name :: string
  workflow_version :: string
  workflow_digest :: string
  workflow_path :: string

record SubworkflowCall =
  call_workflow :: WorkflowReference
  call_entry :: Identifier
  call_terminals :: "Identifier list"
  call_inputs :: "Identifier gomap"
  call_outputs :: "string gomap"

datatype PointApprovalMode = PointApprovalNone | PointApprovalEvery | PointApprovalRisk
  | PointApprovalCombined

datatype PointValidationMode = PointValidationEach | PointValidationCombined
  | PointValidationEachAndCombined

datatype PointPublishingMode = PointPublishingAfterStory | PointPublishingAfterEach

record PointExecutionExecutor =
  PlanInput :: Identifier
  point_approval :: PointApprovalMode
  RiskTags :: "string list"
  point_validation :: PointValidationMode
  point_publishing :: PointPublishingMode

record RoutingBranch =
  branch_name :: Identifier
  branch_transition :: Identifier

record RoutingExecutor =
  routing_agent :: string
  Branches :: "RoutingBranch list"
  RouteOutput :: Identifier
  RationaleOutput :: Identifier
  AdviceOutput :: Identifier
  MissingInformationOutput :: Identifier
  AssumptionsOutput :: Identifier
  ConfirmationOutput :: Identifier

datatype CheckoutPlan = CurrentCheckout | NewWorktree string string

record WorkspacePrepareExecutor =
  RepositoryInput :: Identifier
  Checkout :: CheckoutPlan

record WorkspaceValidateExecutor =
  validate_workspace :: Identifier
  validate_checks :: "string list list"

record GitCommitExecutor =
  commit_workspace :: Identifier
  ChangesetInput :: Identifier
  commit_text :: Identifier

record GitPushExecutor =
  push_workspace :: Identifier
  CommitInput :: Identifier
  push_remote :: string

record CreatePRExecutor =
  pr_workspace :: Identifier
  BranchInput :: Identifier
  pr_text :: Identifier
  pr_base :: string
  pr_draft :: bool

section \<open>Nodes and documents\<close>

record NodeFields =
  node_prompt :: "ContentReference option"
  node_display_name :: string
  Definition :: "ResolvedNodeDefinitionRef option"
  Entry :: bool
  Terminal :: bool
  node_inputs :: "Binding gomap"
  node_outputs :: "OutputDeclaration gomap"
  node_readiness :: "ReadinessContract option"
  node_validators :: "Validator list"
  node_retry :: "RetryPolicy option"
  node_checkpoint :: Checkpoint
  node_transition_mode :: TransitionMode
  node_join :: "Join option"
  Permissions :: "string list"
  Transitions :: "Transition list"

datatype Node =
    ReasoningNode NodeFields ReasoningExecutor
  | GateNode NodeFields GateExecutor
  | CommandNode NodeFields CommandExecutor
  | ApprovalNode NodeFields ApprovalExecutor
  | SubworkflowNode NodeFields SubworkflowCall
  | PointExecutionNode NodeFields PointExecutionExecutor
  | ImplementationNode NodeFields ImplementationExecutor
  | WorkspacePrepareNode NodeFields WorkspacePrepareExecutor
  | WorkspaceValidateNode NodeFields WorkspaceValidateExecutor
  | RoutingNode NodeFields RoutingExecutor
  | GitCommitNode NodeFields GitCommitExecutor
  | GitPushNode NodeFields GitPushExecutor
  | CreatePRNode NodeFields CreatePRExecutor
  | ExtensionNode NodeFields ExtensionExecutor

datatype NodeType = NodeReasoning | NodeGate | NodeCommand | NodeApproval | NodeSubworkflow
  | NodePointExecution | NodeImplementation | NodeWorkspacePrepare | NodeWorkspaceValidate
  | NodeRouting | NodeGitCommit | NodeGitPush | NodeCreatePR | NodeExtension

fun Fields :: "Node \<Rightarrow> NodeFields" where
  "Fields (ReasoningNode c _) = c"
| "Fields (GateNode c _) = c"
| "Fields (CommandNode c _) = c"
| "Fields (ApprovalNode c _) = c"
| "Fields (SubworkflowNode c _) = c"
| "Fields (PointExecutionNode c _) = c"
| "Fields (ImplementationNode c _) = c"
| "Fields (WorkspacePrepareNode c _) = c"
| "Fields (WorkspaceValidateNode c _) = c"
| "Fields (RoutingNode c _) = c"
| "Fields (GitCommitNode c _) = c"
| "Fields (GitPushNode c _) = c"
| "Fields (CreatePRNode c _) = c"
| "Fields (ExtensionNode c _) = c"

fun node_type :: "Node \<Rightarrow> NodeType" where
  "node_type (ReasoningNode _ _) = NodeReasoning"
| "node_type (GateNode _ _) = NodeGate"
| "node_type (CommandNode _ _) = NodeCommand"
| "node_type (ApprovalNode _ _) = NodeApproval"
| "node_type (SubworkflowNode _ _) = NodeSubworkflow"
| "node_type (PointExecutionNode _ _) = NodePointExecution"
| "node_type (ImplementationNode _ _) = NodeImplementation"
| "node_type (WorkspacePrepareNode _ _) = NodeWorkspacePrepare"
| "node_type (WorkspaceValidateNode _ _) = NodeWorkspaceValidate"
| "node_type (RoutingNode _ _) = NodeRouting"
| "node_type (GitCommitNode _ _) = NodeGitCommit"
| "node_type (GitPushNode _ _) = NodeGitPush"
| "node_type (CreatePRNode _ _) = NodeCreatePR"
| "node_type (ExtensionNode _ _) = NodeExtension"

record RouteDefaults =
  default_entry :: Identifier
  default_terminals :: "Identifier list"

record RouteProfile =
  profile_description :: string
  profile_entry :: Identifier
  profile_terminals :: "Identifier list"
  InputDefaults :: "raw_message gomap"

record Spec =
  spec_inputs :: "ValueDeclaration gomap"
  spec_defaults :: RouteDefaults
  Profiles :: "RouteProfile gomap"
  Nodes :: "Node gomap"

record Metadata =
  metadata_name :: string
  metadata_version :: string
  DisplayName :: string
  metadata_description :: string

record Document =
  APIVersion :: string
  document_kind :: string
  document_metadata :: Metadata
  document_spec :: Spec

abbreviation document_nodes :: "Document \<Rightarrow> Node gomap" where
  "document_nodes d \<equiv> Nodes (document_spec d)"

text \<open>The maps of a document hold each key once, as Go maps do.\<close>

definition wf_document :: "Document \<Rightarrow> bool" where
  "wf_document d \<longleftrightarrow> wf_map (document_nodes d) \<and> wf_map (Profiles (document_spec d)) \<and>
     wf_map (spec_inputs (document_spec d)) \<and>
     (\<forall>(k, n) \<in> set (document_nodes d). wf_map (node_inputs (Fields n)) \<and> wf_map (node_outputs (Fields n)))"

definition transitionEnabled :: "Transition \<Rightarrow> bool" where
  "transitionEnabled t = (case EnabledByDefault (transitionFields t) of None \<Rightarrow> True | Some b \<Rightarrow> b)"

definition transitionAlwaysFires :: "Transition \<Rightarrow> bool" where
  "transitionAlwaysFires t = (case transition_when (transitionFields t) of
     PredicateNil \<Rightarrow> True | ConstantPredicate b \<Rightarrow> b | _ \<Rightarrow> False)"

definition typesCompatible :: "ValueType \<Rightarrow> ValueType \<Rightarrow> bool" where
  "typesCompatible source target \<longleftrightarrow>
     source = target \<or> source = ValueInteger \<and> target = ValueNumber"

lemma StorageType_idem: "StorageType (StorageType v) = StorageType v"
  by (simp add: StorageType_def value_type_defs has_prefix_def)

lemma typesCompatible_refl [simp]: "typesCompatible v v"
  by (simp add: typesCompatible_def)

lemma typesCompatible_trans: "typesCompatible a b \<Longrightarrow> typesCompatible b c \<Longrightarrow> typesCompatible a c"
  by (auto simp: typesCompatible_def)

end
