(* ===== verification/Worklist.thy ===== *)
theory Worklist
  imports Prelude
begin

text \<open>
  The graph searches of the workflow package. Route derivation, route closure, predecessor sets and
  the validator all walk a graph with an explicit stack and a map of visited nodes. The loops come
  in two forms: \<open>search\<close> marks a node when it is popped, \<open>mark_search\<close> when it is pushed. Both
  take the graph as a Go map and a function that lists the successors of an entry; a node without
  an entry has none. The top of a stack is the head of the list, so appending \<open>xs\<close> to a Go stack
  is \<open>rev xs @ stack\<close>.

  Both terminate on every graph, and both compute exactly the nodes reachable from the initial
  stack: that contract is the locale \<open>worklist\<close>, interpreted for each of the two loops.
\<close>

section \<open>The two loops\<close>

definition successors :: "('a \<times> 'n) list \<Rightarrow> ('a \<Rightarrow> 'n \<Rightarrow> 'a list) \<Rightarrow> 'a \<Rightarrow> 'a list" where
  "successors m f x = (case map_of m x of None \<Rightarrow> [] | Some n \<Rightarrow> f x n)"

lemma in_successors: "y \<in> set (successors m f x) \<longleftrightarrow> (\<exists>n. map_of m x = Some n \<and> y \<in> set (f x n))"
  by (cases "map_of m x") (auto simp: successors_def)

function search :: "('a \<times> 'n) list \<Rightarrow> ('a \<Rightarrow> 'n \<Rightarrow> 'a list) \<Rightarrow> 'a list \<Rightarrow> 'a set \<Rightarrow> 'a set" where
  "search m f [] visited = visited"
| "search m f (current # stack) visited =
     (if current \<in> visited then search m f stack visited
      else search m f (rev (successors m f current) @ stack) (insert current visited))"
  by pat_completeness auto

termination
proof (relation "measures [\<lambda>(m, f, stack, visited). card (fst ` set m - visited),
    \<lambda>(m, f, stack, visited). length stack]")
  fix m :: "('a \<times> 'n) list" and f :: "'a \<Rightarrow> 'n \<Rightarrow> 'a list"
    and current :: 'a and stack :: "'a list" and visited
  assume new: "current \<notin> visited"
  show "((m, f, rev (successors m f current) @ stack, insert current visited), (m, f, current # stack, visited))
    \<in> measures [\<lambda>(m, f, stack, visited). card (fst ` set m - visited),
        \<lambda>(m, f, stack, visited). length stack]"
  proof (cases "current \<in> fst ` set m")
    case True
    then have "fst ` set m - insert current visited \<subset> fst ` set m - visited" using new by blast
    then have "card (fst ` set m - insert current visited) < card (fst ` set m - visited)"
      by (intro psubset_card_mono) auto
    then show ?thesis by simp
  next
    case False
    then have "successors m f current = []" by (simp add: successors_def map_of_eq_None_iff [THEN iffD2])
    moreover have "fst ` set m - insert current visited = fst ` set m - visited" using False by blast
    ultimately show ?thesis by simp
  qed
qed auto

text \<open>One step of the other loop marks and pushes the successors that are not marked yet.\<close>

fun push_new :: "'a list \<Rightarrow> 'a list \<Rightarrow> 'a set \<Rightarrow> 'a list \<times> 'a set" where
  "push_new [] stack visited = (stack, visited)"
| "push_new (x # xs) stack visited =
     (if x \<in> visited then push_new xs stack visited else push_new xs (x # stack) (insert x visited))"

definition edge_targets :: "('a \<times> 'n) list \<Rightarrow> ('a \<Rightarrow> 'n \<Rightarrow> 'a list) \<Rightarrow> 'a set" where
  "edge_targets m f = (\<Union>x. set (successors m f x))"

lemma finite_edge_targets [simp]: "finite (edge_targets m f)"
proof -
  have "edge_targets m f \<subseteq> (\<Union>x \<in> fst ` set m. set (successors m f x))"
  proof
    fix y
    assume "y \<in> edge_targets m f"
    then obtain x where x: "y \<in> set (successors m f x)" by (auto simp: edge_targets_def)
    then have "has_key m x" by (auto simp: in_successors has_key_def)
    then have "x \<in> fst ` set m" by (simp add: has_key_fst)
    with x show "y \<in> (\<Union>x \<in> fst ` set m. set (successors m f x))" by blast
  qed
  then show ?thesis by (rule finite_subset) simp
qed

lemma push_new_measure:
  assumes "finite U" and "set xs \<subseteq> U" and "push_new xs stack visited = (stack', visited')"
  shows "card (U - visited') + length stack' \<le> card (U - visited) + length stack"
  using assms
proof (induction xs arbitrary: stack visited)
  case (Cons x xs)
  show ?case
  proof (cases "x \<in> visited")
    case False
    then have "Suc (card (U - visited - {x})) = card (U - visited)"
      using Cons.prems by (intro card_Suc_Diff1) auto
    moreover have "U - insert x visited = U - visited - {x}" by blast
    ultimately have "card (U - visited) = Suc (card (U - insert x visited))" by presburger
    moreover have "card (U - visited') + length stack' \<le> card (U - insert x visited) + length (x # stack)"
      using Cons.prems False by (intro Cons.IH) auto
    ultimately show ?thesis by simp
  qed (use Cons in auto)
qed simp

function mark_search :: "('a \<times> 'n) list \<Rightarrow> ('a \<Rightarrow> 'n \<Rightarrow> 'a list) \<Rightarrow> 'a list \<Rightarrow> 'a set \<Rightarrow> 'a set" where
  "mark_search m f [] visited = visited"
| "mark_search m f (current # stack) visited =
     (case push_new (successors m f current) stack visited of
        (stack', visited') \<Rightarrow> mark_search m f stack' visited')"
  by pat_completeness auto

termination
proof (relation "measure (\<lambda>(m, f, stack, visited). card (edge_targets m f - visited) + length stack)")
  fix m :: "('a \<times> 'n) list" and f :: "'a \<Rightarrow> 'n \<Rightarrow> 'a list"
    and current :: 'a and stack stack' :: "'a list" and visited visited' :: "'a set"
  assume "(stack', visited') = push_new (successors m f current) stack visited"
  moreover have "set (successors m f current) \<subseteq> edge_targets m f" by (auto simp: edge_targets_def)
  ultimately have "card (edge_targets m f - visited') + length stack'
      \<le> card (edge_targets m f - visited) + length stack"
    by (intro push_new_measure) auto
  then show "((m, f, stack', visited'), (m, f, current # stack, visited))
    \<in> measure (\<lambda>(m, f, stack, visited). card (edge_targets m f - visited) + length stack)"
    by simp
qed simp

section \<open>Reachability\<close>

definition edges :: "('a \<times> 'n) list \<Rightarrow> ('a \<Rightarrow> 'n \<Rightarrow> 'a list) \<Rightarrow> ('a \<times> 'a) set" where
  "edges m f = {(x, y). y \<in> set (successors m f x)}"

definition reachable :: "('a \<times> 'n) list \<Rightarrow> ('a \<Rightarrow> 'n \<Rightarrow> 'a list) \<Rightarrow> 'a list \<Rightarrow> 'a set" where
  "reachable m f starts = (edges m f)\<^sup>* `` set starts"

lemma edges_iff: "(x, y) \<in> edges m f \<longleftrightarrow> (\<exists>n. map_of m x = Some n \<and> y \<in> set (f x n))"
  by (simp add: edges_def in_successors)

lemma edges_image: "edges m f `` {x} = set (successors m f x)"
  by (auto simp: edges_def)

lemma reachable_append: "reachable m f (xs @ ys) = reachable m f xs \<union> reachable m f ys"
  by (auto simp: reachable_def)

lemma reachable_self: "set starts \<subseteq> reachable m f starts"
  by (auto simp: reachable_def)

lemma reachable_successors: "reachable m f (successors m f x) \<subseteq> reachable m f [x]"
  by (auto simp: reachable_def edges_def intro: converse_rtrancl_into_rtrancl)

lemma reachable_cong: "set xs = set ys \<Longrightarrow> reachable m f xs = reachable m f ys"
  by (simp add: reachable_def)

lemma reachable_least:
  assumes "set starts \<subseteq> S" and "edges m f `` S \<subseteq> S"
  shows "reachable m f starts \<subseteq> S"
proof
  fix y
  assume "y \<in> reachable m f starts"
  then obtain x where "x \<in> set starts" and "(x, y) \<in> (edges m f)\<^sup>*" by (auto simp: reachable_def)
  from this(2,1) show "y \<in> S" by (induction) (use assms in auto)
qed

lemma search_sound: "search m f stack visited \<subseteq> visited \<union> reachable m f stack"
proof (induction m f stack visited rule: search.induct)
  case (2 m f current stack visited)
  have c: "reachable m f (current # stack) = reachable m f [current] \<union> reachable m f stack"
    using reachable_append [of m f "[current]" stack] by simp
  have s: "reachable m f (rev (successors m f current)) = reachable m f (successors m f current)"
    by (rule reachable_cong) simp
  show ?case
  proof (cases "current \<in> visited")
    case True
    with "2.IH"(1) c show ?thesis by auto
  next
    case False
    have "search m f (current # stack) visited \<subseteq>
        insert current visited \<union> (reachable m f (successors m f current) \<union> reachable m f stack)"
      using "2.IH"(2) [OF False] False by (simp add: reachable_append s)
    moreover have "current \<in> reachable m f [current]" using reachable_self [of "[current]"] by simp
    ultimately show ?thesis using reachable_successors [of m f current] c by blast
  qed
qed simp

lemma search_closed:
  assumes "edges m f `` visited \<subseteq> visited \<union> set stack"
  shows "visited \<union> set stack \<subseteq> search m f stack visited \<and>
    edges m f `` search m f stack visited \<subseteq> search m f stack visited"
  using assms
proof (induction m f stack visited rule: search.induct)
  case (2 m f current stack visited)
  show ?case
  proof (cases "current \<in> visited")
    case True
    with 2 show ?thesis by auto
  next
    case False
    have "edges m f `` insert current visited \<subseteq> insert current visited \<union> set (rev (successors m f current) @ stack)"
      using "2.prems" edges_image [of m f current] by auto
    from "2.IH"(2) [OF False this] False show ?thesis by auto
  qed
qed simp

lemma search_reachable: "search m f starts {} = reachable m f starts"
proof
  show "search m f starts {} \<subseteq> reachable m f starts" using search_sound [of m f starts "{}"] by simp
  show "reachable m f starts \<subseteq> search m f starts {}"
    using search_closed [of m f "{}" starts] by (intro reachable_least) auto
qed

lemma push_new_result:
  "push_new xs stack visited = (stack', visited') \<Longrightarrow>
   visited' = visited \<union> set xs \<and> set stack' = set stack \<union> (set xs - visited)"
  by (induction xs arbitrary: stack visited) (auto split: if_splits)

lemma mark_search_sound:
  "set stack \<subseteq> visited \<Longrightarrow> mark_search m f stack visited \<subseteq> visited \<union> reachable m f stack"
proof (induction m f stack visited rule: mark_search.induct)
  case (2 m f current stack visited)
  obtain stack' visited' where p: "push_new (successors m f current) stack visited = (stack', visited')"
    by fastforce
  note r = push_new_result [OF p]
  have "reachable m f (current # stack) = reachable m f [current] \<union> reachable m f stack"
    using reachable_append [of m f "[current]" stack] by simp
  moreover have "reachable m f stack' \<subseteq> reachable m f (successors m f current) \<union> reachable m f stack"
    using r by (auto simp: reachable_def)
  moreover have "set (successors m f current) \<subseteq> reachable m f (successors m f current)"
    by (rule reachable_self)
  ultimately have "visited' \<union> reachable m f stack' \<subseteq> visited \<union> reachable m f (current # stack)"
    using r reachable_successors [of m f current] by blast
  moreover have "mark_search m f stack' visited' \<subseteq> visited' \<union> reachable m f stack'"
    using "2.prems" r by (intro "2.IH" [OF p [symmetric]]) auto
  ultimately show ?case by (simp add: p) blast
qed simp

lemma mark_search_closed:
  assumes "set stack \<subseteq> visited" and "edges m f `` (visited - set stack) \<subseteq> visited"
  shows "visited \<subseteq> mark_search m f stack visited \<and>
    edges m f `` mark_search m f stack visited \<subseteq> mark_search m f stack visited"
  using assms
proof (induction m f stack visited rule: mark_search.induct)
  case (2 m f current stack visited)
  obtain stack' visited' where p: "push_new (successors m f current) stack visited = (stack', visited')"
    by fastforce
  note r = push_new_result [OF p]
  have e: "edges m f `` {current} = set (successors m f current)" by (auto simp: edges_def)
  have "set stack' \<subseteq> visited'" using r "2.prems" by auto
  moreover have "edges m f `` (visited' - set stack') \<subseteq> visited'"
    using r "2.prems" e by auto
  ultimately have "visited' \<subseteq> mark_search m f stack' visited' \<and>
      edges m f `` mark_search m f stack' visited' \<subseteq> mark_search m f stack' visited'"
    by (rule "2.IH" [OF p [symmetric]])
  with r p show ?case by auto
qed auto

lemma mark_search_reachable: "mark_search m f starts (set starts) = reachable m f starts"
proof
  have "set starts \<subseteq> reachable m f starts" by (auto simp: reachable_def)
  then show "mark_search m f starts (set starts) \<subseteq> reachable m f starts"
    using mark_search_sound [of starts "set starts" m f] by auto
  show "reachable m f starts \<subseteq> mark_search m f starts (set starts)"
    using mark_search_closed [of starts "set starts" m f] by (intro reachable_least) auto
qed

section \<open>The contract\<close>

locale worklist =
  fixes run :: "('a \<times> 'n) list \<Rightarrow> ('a \<Rightarrow> 'n \<Rightarrow> 'a list) \<Rightarrow> 'a list \<Rightarrow> 'a set"
  assumes run_reachable: "run m f starts = reachable m f starts"
begin

lemma run_iff: "y \<in> run m f starts \<longleftrightarrow> (\<exists>x \<in> set starts. (x, y) \<in> (edges m f)\<^sup>*)"
  by (auto simp: run_reachable reachable_def)

lemma run_starts: "x \<in> set starts \<Longrightarrow> x \<in> run m f starts"
  by (auto simp: run_iff)

lemma run_step: "x \<in> run m f starts \<Longrightarrow> (x, y) \<in> edges m f \<Longrightarrow> y \<in> run m f starts"
  by (auto simp: run_iff intro: rtrancl_into_rtrancl)

lemma run_induct [consumes 1, case_names start step]:
  assumes "y \<in> run m f starts"
    and "\<And>x. x \<in> set starts \<Longrightarrow> P x"
    and "\<And>x y. x \<in> run m f starts \<Longrightarrow> P x \<Longrightarrow> (x, y) \<in> edges m f \<Longrightarrow> P y"
  shows "P y"
proof -
  from assms(1) obtain x where "x \<in> set starts" "(x, y) \<in> (edges m f)\<^sup>*" by (auto simp: run_iff)
  from this(2,1) have "y \<in> run m f starts \<and> P y"
    by induction (use assms in \<open>auto intro: run_starts run_step\<close>)
  then show ?thesis ..
qed

text \<open>The result depends on the graph as a map and on the set of starts only.\<close>

lemma run_cong:
  assumes "map_of m = map_of m'" and "set starts = set starts'"
  shows "run m f starts = run m' f starts'"
proof -
  have "edges m f = edges m' f" by (simp add: edges_def successors_def assms(1))
  then show ?thesis by (simp add: run_reachable reachable_def assms(2))
qed

end

interpretation pop_search: worklist "\<lambda>m f starts. search m f starts {}"
  by unfold_locales (rule search_reachable)

interpretation push_search: worklist "\<lambda>m f starts. mark_search m f starts (set starts)"
  by unfold_locales (rule mark_search_reachable)

text \<open>A path that starts in a closed set stays there.\<close>

lemma rtrancl_restrict_closed:
  assumes "R `` S \<subseteq> S" and "x \<in> S"
  shows "(x, y) \<in> {(a, b). a \<in> S \<and> (a, b) \<in> R}\<^sup>* \<longleftrightarrow> (x, y) \<in> R\<^sup>*"
proof
  assume "(x, y) \<in> R\<^sup>*"
  then have "(x, y) \<in> {(a, b). a \<in> S \<and> (a, b) \<in> R}\<^sup>* \<and> y \<in> S"
  proof induction
    case (step y z)
    then have "(y, z) \<in> {(a, b). a \<in> S \<and> (a, b) \<in> R}" by simp
    with step assms(1) show ?case by (auto intro: rtrancl_into_rtrancl)
  qed (simp add: assms(2))
  then show "(x, y) \<in> {(a, b). a \<in> S \<and> (a, b) \<in> R}\<^sup>*" ..
qed (auto elim: rtrancl_mono [THEN subsetD, rotated])

declare search.simps [simp del] mark_search.simps [simp del]

section \<open>Adjacency maps\<close>

text \<open>\<open>reverse[to] = append(reverse[to], from)\<close> over a list of pairs.\<close>

definition append_at :: "'a \<Rightarrow> 'b \<Rightarrow> ('a \<times> 'b list) list \<Rightarrow> ('a \<times> 'b list) list" where
  "append_at k v m = map_put k ((case map_of m k of None \<Rightarrow> [] | Some vs \<Rightarrow> vs) @ [v]) m"

definition group_by :: "('a \<times> 'b) list \<Rightarrow> ('a \<times> 'b list) list" where
  "group_by ps = foldl (\<lambda>m (k, v). append_at k v m) [] ps"

definition lookup_list :: "('a \<times> 'b list) list \<Rightarrow> 'a \<Rightarrow> 'b list" where
  "lookup_list m k = (case map_of m k of None \<Rightarrow> [] | Some vs \<Rightarrow> vs)"

lemma lookup_list_append_at: "lookup_list (append_at k v m) x = lookup_list m x @ (if x = k then [v] else [])"
  by (auto simp: lookup_list_def append_at_def split: option.splits)

lemma lookup_group_by: "lookup_list (group_by ps) k = map snd (filter (\<lambda>p. fst p = k) ps)"
proof -
  have "lookup_list (foldl (\<lambda>m (k, v). append_at k v m) m ps) k =
      lookup_list m k @ map snd (filter (\<lambda>p. fst p = k) ps)" for m
    by (induction ps arbitrary: m) (auto simp: lookup_list_append_at)
  then show ?thesis by (simp add: group_by_def lookup_list_def)
qed

lemma has_key_group_by: "has_key (group_by ps) k \<longleftrightarrow> k \<in> fst ` set ps"
proof -
  have "has_key (foldl (\<lambda>m (k, v). append_at k v m) m ps) k \<longleftrightarrow> has_key m k \<or> k \<in> fst ` set ps" for m
    by (induction ps arbitrary: m) (auto simp: has_key_def append_at_def)
  then show ?thesis by (simp add: group_by_def has_key_def)
qed

lemma wf_map_group_by [simp]: "wf_map (group_by ps)"
proof -
  have "wf_map m \<Longrightarrow> wf_map (foldl (\<lambda>m (k, v). append_at k v m) m ps)" for m
    by (induction ps arbitrary: m) (auto simp: append_at_def)
  then show ?thesis by (simp add: group_by_def)
qed

abbreviation neighbours :: "'a \<Rightarrow> 'a list \<Rightarrow> 'a list" where
  "neighbours \<equiv> \<lambda>_ ns. ns"

lemma edges_group_by: "edges (group_by ps) neighbours = set ps"
proof -
  have "successors (group_by ps) neighbours x = lookup_list (group_by ps) x" for x
    by (simp add: successors_def lookup_list_def)
  then show ?thesis by (force simp: edges_def lookup_group_by)
qed

end
