(* ===== verification/Route.thy ===== *)
theory Route
  imports Schema Worklist "HOL-Library.Product_Lexorder"
begin

text \<open>
  Route derivation (\<open>core/workflow/route.go\<close>): which part of an authored workflow one run may
  execute. \<open>createRoute\<close> resolves the requested entry and terminals, walks the enabled
  transitions forward from the entry without leaving a selected terminal, refuses routes with
  unreachable terminals, dead branches or bypassed policy nodes, and freezes the resulting
  subgraph with its projected joins, excluded nodes and missing inputs.

  A set that the code keeps as a \<open>map[Identifier]bool\<close> is a set here. Where the code ranges over
  such a map the model takes the elements as a list; the results do not depend on its order.
\<close>

section \<open>Validation errors\<close>

type_synonym ValidationCode = string

record ValidationError =
  validation_code :: ValidationCode
  validation_location :: string
  validation_details :: "string list gomap"

definition ValidationRouteEntryInvalid :: ValidationCode where
  "ValidationRouteEntryInvalid = ''ROUTE_ENTRY_INVALID''"
definition ValidationRouteTerminalInvalid :: ValidationCode where
  "ValidationRouteTerminalInvalid = ''ROUTE_TERMINAL_INVALID''"
definition ValidationRoutePathIncomplete :: ValidationCode where
  "ValidationRoutePathIncomplete = ''ROUTE_PATH_INCOMPLETE''"
definition ValidationRoutePolicyViolation :: ValidationCode where
  "ValidationRoutePolicyViolation = ''ROUTE_POLICY_VIOLATION''"
definition ValidationRunInputRequired :: ValidationCode where
  "ValidationRunInputRequired = ''RUN_INPUT_REQUIRED''"

definition node_error :: "ValidationCode \<Rightarrow> string \<Rightarrow> string list \<Rightarrow> ValidationError" where
  "node_error code location ids = \<lparr>validation_code = code, validation_location = location,
     validation_details = [(''nodeIds'', ids)]\<rparr>"

definition sortValidationErrors :: "ValidationError list \<Rightarrow> ValidationError list" where
  "sortValidationErrors = sort_key (\<lambda>e. (validation_location e, validation_code e,
     marshal_string_lists (validation_details e)))"

section \<open>Data\<close>

record RouteRequest =
  request_from :: Identifier
  request_until :: "Identifier list"

record RouteContext =
  RunInputs :: "raw_message gomap"
  AcceptedOutputs :: "raw_message gomap gomap"
  RequiredNodes :: "Identifier list"

record RouteNode =
  route_node_id :: Identifier
  route_node_join :: "Join option"

record RouteTransition =
  route_transition_id :: Identifier
  route_transition_from :: Identifier
  route_transition_to :: Identifier

datatype ExclusionReason = ExclusionBeforeEntry | ExclusionPastTerminal | ExclusionNotConnected

record ExcludedNode =
  excluded_id :: Identifier
  excluded_reason :: ExclusionReason

record InputRequirement =
  requirement_code :: ValidationCode
  requirement_node :: Identifier
  requirement_input :: Identifier
  requirement_source :: string

record Route =
  route_assessment :: raw_message
  route_entry :: Identifier
  route_terminals :: "Identifier list"
  route_nodes :: "RouteNode list"
  route_transitions :: "RouteTransition list"
  ExcludedNodes :: "ExcludedNode list"
  InputRequirements :: "InputRequirement list"

section \<open>Boundaries\<close>

definition routeTransitionEnabled :: "Transition \<Rightarrow> bool gomap \<Rightarrow> bool" where
  "routeTransitionEnabled t overrides = (case map_of overrides (transition_id t) of
     Some enabled \<Rightarrow> enabled | None \<Rightarrow> transitionEnabled t)"

definition validateRouteBoundaries :: "Document \<Rightarrow> Identifier \<Rightarrow> Identifier list \<Rightarrow> ValidationError list" where
  "validateRouteBoundaries document entry terminals =
     (case map_of (document_nodes document) entry of
        Some node \<Rightarrow> if Entry (Fields node) then []
          else [node_error ValidationRouteEntryInvalid ''/from'' [entry]]
      | None \<Rightarrow> [node_error ValidationRouteEntryInvalid ''/from'' [entry]]) @
     (if terminals = []
      then [\<lparr>validation_code = ValidationRouteTerminalInvalid, validation_location = ''/until'',
             validation_details = []\<rparr>]
      else concat (map (\<lambda>terminal. case map_of (document_nodes document) terminal of
          Some node \<Rightarrow> if Terminal (Fields node) then []
            else [node_error ValidationRouteTerminalInvalid ''/until'' [terminal]]
        | None \<Rightarrow> [node_error ValidationRouteTerminalInvalid ''/until'' [terminal]]) terminals))"

section \<open>The forward subgraph\<close>

definition forwardRouteNodes ::
  "Document \<Rightarrow> Identifier \<Rightarrow> Identifier set \<Rightarrow> bool gomap \<Rightarrow> Identifier set" where
  "forwardRouteNodes document entry terminals overrides =
     search (document_nodes document)
       (\<lambda>current node. if current \<in> terminals then []
          else map Target (filter (\<lambda>t. routeTransitionEnabled t overrides \<and>
                 has_key (document_nodes document) (Target t)) (Transitions (Fields node))))
       [entry] {}"

definition validateReachableTerminals :: "Identifier list \<Rightarrow> Identifier set \<Rightarrow> ValidationError list" where
  "validateReachableTerminals terminals included =
     map (\<lambda>terminal. node_error ValidationRouteTerminalInvalid ''/until'' [terminal])
       (filter (\<lambda>terminal. terminal \<notin> included) terminals)"

definition node_transitions :: "Document \<Rightarrow> Identifier \<Rightarrow> Transition list" where
  "node_transitions document i = (case map_of (document_nodes document) i of
     Some node \<Rightarrow> Transitions (Fields node) | None \<Rightarrow> [])"

definition includedRouteTransitions ::
  "Document \<Rightarrow> Identifier set \<Rightarrow> Identifier set \<Rightarrow> bool gomap \<Rightarrow> RouteTransition list" where
  "includedRouteTransitions document included terminals overrides =
     concat (map (\<lambda>source. if source \<notin> included \<or> source \<in> terminals then []
        else map (\<lambda>t. \<lparr>route_transition_id = transition_id t, route_transition_from = source,
                       route_transition_to = Target t\<rparr>)
          (filter (\<lambda>t. routeTransitionEnabled t overrides \<and> Target t \<in> included)
             (node_transitions document source)))
       (sorted_keys (document_nodes document)))"

definition reverse_transitions :: "RouteTransition list \<Rightarrow> (Identifier \<times> Identifier list) list" where
  "reverse_transitions ts = group_by (map (\<lambda>t. (route_transition_to t, route_transition_from t)) ts)"

definition canReachTerminal ::
  "Identifier set \<Rightarrow> Identifier list \<Rightarrow> RouteTransition list \<Rightarrow> Identifier set" where
  "canReachTerminal included terminals transitions =
     (let stack = filter (\<lambda>t. t \<in> included) terminals in
      mark_search (reverse_transitions transitions) neighbours stack (set stack))"

definition validateRouteClosure ::
  "Identifier set \<Rightarrow> Identifier list \<Rightarrow> RouteTransition list \<Rightarrow> ValidationError list" where
  "validateRouteClosure included terminals transitions =
     (let stranded = sorted_list_of_set (included - canReachTerminal included terminals transitions) in
      if stranded = [] then [] else [node_error ValidationRoutePathIncomplete ''/'' stranded])"

definition validateRoutePolicy :: "Document \<Rightarrow> Identifier set \<Rightarrow> Identifier list \<Rightarrow> ValidationError list" where
  "validateRoutePolicy document included required =
     (let missing = sorted_set (filter (\<lambda>n. \<not> has_key (document_nodes document) n \<or> n \<notin> included) required) in
      if missing = [] then [] else [node_error ValidationRoutePolicyViolation ''/'' missing])"

section \<open>The frozen route\<close>

definition incoming_transitions :: "RouteTransition list \<Rightarrow> (Identifier \<times> Identifier list) list" where
  "incoming_transitions ts = group_by (map (\<lambda>t. (route_transition_to t, route_transition_id t)) ts)"

definition project_join :: "Join \<Rightarrow> Identifier list \<Rightarrow> Join" where
  "project_join authored allowed = \<lparr>join_mode = join_mode authored,
     join_from = filter (\<lambda>t. t \<in> set allowed) (join_from authored)\<rparr>"

definition authored_join :: "Document \<Rightarrow> Identifier \<Rightarrow> Join option" where
  "authored_join document i = (case map_of (document_nodes document) i of
     Some node \<Rightarrow> node_join (Fields node) | None \<Rightarrow> None)"

definition projectedRouteNodes :: "Document \<Rightarrow> Identifier set \<Rightarrow> RouteTransition list \<Rightarrow> RouteNode list" where
  "projectedRouteNodes document included transitions =
     (let incoming = incoming_transitions transitions in
      map (\<lambda>nodeID. \<lparr>route_node_id = nodeID, route_node_join =
          (case authored_join document nodeID of
             Some authored \<Rightarrow> if lookup_list incoming nodeID = [] then None
               else Some (project_join authored (lookup_list incoming nodeID))
           | None \<Rightarrow> None)\<rparr>)
        (filter (\<lambda>nodeID. nodeID \<in> included) (sorted_keys (document_nodes document))))"

definition enabled_pairs :: "Document \<Rightarrow> bool gomap \<Rightarrow> (Identifier \<times> Identifier) list" where
  "enabled_pairs document overrides = concat (map (\<lambda>(source, node).
     map (\<lambda>t. (Target t, source)) (filter (\<lambda>t. routeTransitionEnabled t overrides) (Transitions (Fields node))))
     (document_nodes document))"

definition reverseReachable :: "Document \<Rightarrow> Identifier \<Rightarrow> bool gomap \<Rightarrow> Identifier set" where
  "reverseReachable document target overrides =
     mark_search (group_by (enabled_pairs document overrides)) neighbours [target] {target}"

definition forwardReachable :: "Document \<Rightarrow> Identifier list \<Rightarrow> bool gomap \<Rightarrow> Identifier set" where
  "forwardReachable document starts overrides =
     search (document_nodes document)
       (\<lambda>current node. map Target (filter (\<lambda>t. routeTransitionEnabled t overrides) (Transitions (Fields node))))
       (rev starts) {}"

definition excludedRouteNodes ::
  "Document \<Rightarrow> Identifier set \<Rightarrow> Identifier \<Rightarrow> Identifier list \<Rightarrow> bool gomap \<Rightarrow> ExcludedNode list" where
  "excludedRouteNodes document included entry terminals overrides =
     (let before = reverseReachable document entry overrides;
          past = forwardReachable document terminals overrides in
      map (\<lambda>nodeID. \<lparr>excluded_id = nodeID, excluded_reason =
          (if nodeID \<in> before then ExclusionBeforeEntry
           else if nodeID \<in> past then ExclusionPastTerminal else ExclusionNotConnected)\<rparr>)
        (filter (\<lambda>nodeID. nodeID \<notin> included) (sorted_keys (document_nodes document))))"

section \<open>Missing inputs\<close>

text \<open>\<open>splitReference\<close> cuts at each dot; the loop keeps the parts found and the current part, both
  reversed.\<close>

fun split_loop :: "string list \<Rightarrow> string \<Rightarrow> string \<Rightarrow> string list" where
  "split_loop parts part [] = rev (rev part # parts)"
| "split_loop parts part (c # cs) =
     (if c = CHR ''.'' then split_loop (rev part # parts) [] cs else split_loop parts (c # part) cs)"

definition splitReference :: "string \<Rightarrow> string list" where
  "splitReference s = split_loop [] [] s"

definition routePredecessors :: "RouteTransition list \<Rightarrow> (Identifier \<times> Identifier set) list" where
  "routePredecessors transitions =
     (let reverse = reverse_transitions transitions in
      map (\<lambda>(consumer, direct). (consumer, search reverse neighbours (rev direct) {} - {consumer})) reverse)"

definition routeBindingAvailable ::
  "string \<Rightarrow> Identifier \<Rightarrow> (Identifier \<times> Identifier set) list \<Rightarrow> RouteContext \<Rightarrow> bool" where
  "routeBindingAvailable source consumer predecessors ctx =
     (let parts = splitReference source in
      if length parts = 3 \<and> parts ! 0 = ''run'' \<and> parts ! 1 = ''input''
      then has_key (RunInputs ctx) (parts ! 2)
      else if length parts = 4 \<and> parts ! 0 = ''node'' \<and> parts ! 2 = ''output''
      then (case map_of (AcceptedOutputs ctx) (parts ! 1) of
              Some outputs \<Rightarrow> has_key outputs (parts ! 3) | None \<Rightarrow> False) \<or>
           (case map_of predecessors consumer of Some ps \<Rightarrow> parts ! 1 \<in> ps | None \<Rightarrow> False)
      else False)"

definition node_bindings :: "Document \<Rightarrow> Identifier \<Rightarrow> Binding gomap" where
  "node_bindings document i = (case map_of (document_nodes document) i of
     Some node \<Rightarrow> node_inputs (Fields node) | None \<Rightarrow> [])"

definition routeInputRequirements ::
  "Document \<Rightarrow> Identifier set \<Rightarrow> RouteTransition list \<Rightarrow> RouteContext \<Rightarrow> InputRequirement list" where
  "routeInputRequirements document included transitions ctx =
     (let predecessors = routePredecessors transitions in
      concat (map (\<lambda>nodeID. if nodeID \<notin> included then []
        else concat (map (\<lambda>inputID. case map_of (node_bindings document nodeID) inputID of
            Some (RequiredBinding b) \<Rightarrow>
              if routeBindingAvailable (required_from b) nodeID predecessors ctx then []
              else [\<lparr>requirement_code = ValidationRunInputRequired, requirement_node = nodeID,
                     requirement_input = inputID, requirement_source = required_from b\<rparr>]
          | _ \<Rightarrow> []) (sorted_keys (node_bindings document nodeID))))
        (sorted_keys (document_nodes document))))"

section \<open>Route creation\<close>

definition selected_entry :: "Document \<Rightarrow> RouteRequest \<Rightarrow> Identifier" where
  "selected_entry document request = (if request_from request = ''''
     then default_entry (spec_defaults (document_spec document)) else request_from request)"

definition selected_terminals :: "Document \<Rightarrow> RouteRequest \<Rightarrow> Identifier list" where
  "selected_terminals document request = sorted_set (if request_until request = []
     then default_terminals (spec_defaults (document_spec document)) else request_until request)"

definition createRoute ::
  "Document \<Rightarrow> RouteRequest \<Rightarrow> RouteContext \<Rightarrow> bool gomap \<Rightarrow> ValidationError list + Route" where
  "createRoute document request ctx overrides =
     (let entry = selected_entry document request;
          terminals = selected_terminals document request;
          boundary = validateRouteBoundaries document entry terminals in
      if boundary \<noteq> [] then Inl (sortValidationErrors boundary)
      else
        let included = forwardRouteNodes document entry (set terminals) overrides;
            transitions = includedRouteTransitions document included (set terminals) overrides;
            errors = validateReachableTerminals terminals included @
              validateRouteClosure included terminals transitions @
              validateRoutePolicy document included (RequiredNodes ctx) in
        if errors \<noteq> [] then Inl (sortValidationErrors errors)
        else Inr \<lparr>route_assessment = [], route_entry = entry, route_terminals = terminals,
          route_nodes = projectedRouteNodes document included transitions,
          route_transitions = transitions,
          ExcludedNodes = excludedRouteNodes document included entry terminals overrides,
          InputRequirements = routeInputRequirements document included transitions ctx\<rparr>)"

definition CreateRoute ::
  "Document \<Rightarrow> RouteRequest \<Rightarrow> RouteContext \<Rightarrow> ValidationError list + Route" where
  "CreateRoute document request ctx = createRoute document request ctx []"

definition put_all :: "('v gomap) \<Rightarrow> 'v gomap \<Rightarrow> 'v gomap" where
  "put_all m new = foldl (\<lambda>m (k, v). map_put k v m) m new"

definition CreateProfileRoute ::
  "Document \<Rightarrow> Identifier \<Rightarrow> RouteContext \<Rightarrow> ValidationError list + Route" where
  "CreateProfileRoute document profileID ctx =
     (case map_of (Profiles (document_spec document)) profileID of
        None \<Rightarrow> Inl [\<lparr>validation_code = ValidationRouteEntryInvalid, validation_location = ''/profile'',
          validation_details = [(''profileIds'', [profileID])]\<rparr>]
      | Some profile \<Rightarrow> CreateRoute document
          \<lparr>request_from = profile_entry profile, request_until = profile_terminals profile\<rparr>
          (ctx\<lparr>RunInputs := put_all (put_all [] (InputDefaults profile)) (RunInputs ctx)\<rparr>))"

section \<open>Reachability along enabled transitions\<close>

text \<open>A step of a route: from a node that is not a selected terminal, along an enabled transition, to
  a node of the document.\<close>

definition route_step ::
  "Document \<Rightarrow> Identifier set \<Rightarrow> bool gomap \<Rightarrow> (Identifier \<times> Identifier) set" where
  "route_step document terminals overrides = {(x, y). x \<notin> terminals \<and>
     has_key (document_nodes document) y \<and>
     (\<exists>t \<in> set (node_transitions document x). routeTransitionEnabled t overrides \<and> Target t = y)}"

definition enabled_step :: "Document \<Rightarrow> bool gomap \<Rightarrow> (Identifier \<times> Identifier) set" where
  "enabled_step document overrides =
     {(x, y). \<exists>t \<in> set (node_transitions document x). routeTransitionEnabled t overrides \<and> Target t = y}"

definition transition_edges :: "RouteTransition list \<Rightarrow> (Identifier \<times> Identifier) set" where
  "transition_edges ts = (\<lambda>t. (route_transition_from t, route_transition_to t)) ` set ts"

lemma in_node_transitions:
  "t \<in> set (node_transitions document x) \<longleftrightarrow>
     (\<exists>n. map_of (document_nodes document) x = Some n \<and> t \<in> set (Transitions (Fields n)))"
  by (cases "map_of (document_nodes document) x") (auto simp: node_transitions_def)

lemma forwardRouteNodes_iff [route_laws]:
  "n \<in> forwardRouteNodes document entry terminals overrides \<longleftrightarrow>
     (entry, n) \<in> (route_step document terminals overrides)\<^sup>*"
proof -
  have "edges (document_nodes document) (\<lambda>current node. if current \<in> terminals then []
          else map Target (filter (\<lambda>t. routeTransitionEnabled t overrides \<and>
                 has_key (document_nodes document) (Target t)) (Transitions (Fields node)))) =
    route_step document terminals overrides"
    by (auto simp: edges_iff route_step_def in_node_transitions Bex_def split: if_splits) blast
  then show ?thesis unfolding forwardRouteNodes_def pop_search.run_iff by simp
qed

lemma forwardReachable_iff [route_laws]:
  "n \<in> forwardReachable document starts overrides \<longleftrightarrow>
     (\<exists>s \<in> set starts. (s, n) \<in> (enabled_step document overrides)\<^sup>*)"
proof -
  have "edges (document_nodes document) (\<lambda>current node. map Target
      (filter (\<lambda>t. routeTransitionEnabled t overrides) (Transitions (Fields node)))) =
    enabled_step document overrides"
    by (auto simp: edges_iff enabled_step_def in_node_transitions Bex_def) blast
  then show ?thesis by (simp add: forwardReachable_def pop_search.run_iff)
qed

lemma enabled_pairs_converse:
  "wf_map (document_nodes document) \<Longrightarrow>
   set (enabled_pairs document overrides) = (enabled_step document overrides)\<inverse>"
  by (fastforce simp: enabled_pairs_def enabled_step_def in_node_transitions wf_map_map_of)

lemma reverseReachable_iff [route_laws]:
  assumes "wf_map (document_nodes document)"
  shows "n \<in> reverseReachable document target overrides \<longleftrightarrow>
     (n, target) \<in> (enabled_step document overrides)\<^sup>*"
  using push_search.run_iff [of n "group_by (enabled_pairs document overrides)" neighbours "[target]"]
  by (simp add: reverseReachable_def edges_group_by enabled_pairs_converse [OF assms] rtrancl_converse)

lemma reverse_edges: "edges (reverse_transitions ts) neighbours = (transition_edges ts)\<inverse>"
  by (auto simp: reverse_transitions_def edges_group_by transition_edges_def)

lemma canReachTerminal_iff [route_laws]:
  "n \<in> canReachTerminal included terminals ts \<longleftrightarrow>
     (\<exists>t \<in> set terminals \<inter> included. (n, t) \<in> (transition_edges ts)\<^sup>*)"
  unfolding canReachTerminal_def Let_def push_search.run_iff reverse_edges
  by (auto simp: rtrancl_converse)

lemma predecessors_iff [route_laws]:
  "(case map_of (routePredecessors ts) consumer of Some ps \<Rightarrow> p \<in> ps | None \<Rightarrow> False) \<longleftrightarrow>
     p \<noteq> consumer \<and> (p, consumer) \<in> (transition_edges ts)\<^sup>+"
proof -
  let ?r = "reverse_transitions ts"
  have m: "map_of (routePredecessors ts) consumer =
      map_option (\<lambda>direct. search ?r neighbours (rev direct) {} - {consumer}) (map_of ?r consumer)"
    by (simp add: routePredecessors_def Let_def map_of_map_entries)
  have direct: "p \<in> search ?r neighbours (rev direct) {} \<longleftrightarrow> (p, consumer) \<in> (transition_edges ts)\<^sup>+"
    if "map_of ?r consumer = Some direct" for direct
  proof -
    have "x \<in> set direct \<longleftrightarrow> (consumer, x) \<in> edges ?r neighbours" for x
      using that by (simp add: edges_iff)
    then have "x \<in> set direct \<longleftrightarrow> (x, consumer) \<in> transition_edges ts" for x
      by (simp add: reverse_edges)
    then show ?thesis
      by (simp add: pop_search.run_iff reverse_edges rtrancl_converse trancl_unfold_right) blast
  qed
  have none: "(p, consumer) \<notin> (transition_edges ts)\<^sup>+" if "map_of ?r consumer = None"
  proof
    assume "(p, consumer) \<in> (transition_edges ts)\<^sup>+"
    then obtain x where "(x, consumer) \<in> transition_edges ts" by (auto simp: trancl_unfold_right)
    then have "(consumer, x) \<in> edges ?r neighbours" by (simp add: reverse_edges)
    then show False using that by (simp add: edges_iff)
  qed
  show ?thesis unfolding m using direct none by (cases "map_of ?r consumer") auto
qed

section \<open>Created routes\<close>

definition route_ids :: "Route \<Rightarrow> Identifier set" where
  "route_ids r = route_node_id ` set (route_nodes r)"

text \<open>The three checks of \<open>createRoute\<close> and the boundary check as predicates.\<close>

definition boundary_ok :: "Document \<Rightarrow> Identifier \<Rightarrow> Identifier list \<Rightarrow> bool" where
  "boundary_ok document entry terminals \<longleftrightarrow>
     (\<exists>n. map_of (document_nodes document) entry = Some n \<and> Entry (Fields n)) \<and> terminals \<noteq> [] \<and>
     (\<forall>t \<in> set terminals. \<exists>n. map_of (document_nodes document) t = Some n \<and> Terminal (Fields n))"

lemma validateRouteBoundaries_Nil [simp]:
  "validateRouteBoundaries document entry terminals = [] \<longleftrightarrow> boundary_ok document entry terminals"
  by (auto simp: validateRouteBoundaries_def boundary_ok_def split: option.splits if_splits)

lemma validateReachableTerminals_Nil [simp]:
  "validateReachableTerminals terminals included = [] \<longleftrightarrow> set terminals \<subseteq> included"
  by (auto simp: validateReachableTerminals_def filter_empty_conv)

lemma validateRouteClosure_Nil:
  "finite included \<Longrightarrow> validateRouteClosure included terminals ts = [] \<longleftrightarrow>
     included \<subseteq> canReachTerminal included terminals ts"
  by (auto simp: validateRouteClosure_def Let_def)

lemma validateRoutePolicy_Nil:
  "included \<subseteq> {n. has_key (document_nodes document) n} \<Longrightarrow>
   validateRoutePolicy document included required = [] \<longleftrightarrow> set required \<subseteq> included"
  by (auto simp: validateRoutePolicy_def Let_def filter_empty_conv)

lemma forward_has_key:
  assumes "has_key (document_nodes document) entry"
  shows "forwardRouteNodes document entry terminals overrides \<subseteq> {n. has_key (document_nodes document) n}"
proof
  fix n
  assume "n \<in> forwardRouteNodes document entry terminals overrides"
  then have "(entry, n) \<in> (route_step document terminals overrides)\<^sup>*" by (simp add: route_laws)
  then show "n \<in> {n. has_key (document_nodes document) n}"
    by induction (use assms in \<open>auto simp: route_step_def\<close>)
qed

lemma finite_keys [simp]: "finite {n. has_key m n}"
  by (simp add: has_key_fst)

lemma forward_finite:
  "has_key (document_nodes document) entry \<Longrightarrow>
   finite (forwardRouteNodes document entry terminals overrides)"
  by (rule finite_subset [OF forward_has_key]) auto

lemma boundary_has_key: "boundary_ok document entry terminals \<Longrightarrow> has_key (document_nodes document) entry"
  by (auto simp: boundary_ok_def has_key_def)

lemma route_ids_projected:
  "included \<subseteq> {n. has_key (document_nodes document) n} \<Longrightarrow>
   route_node_id ` set (projectedRouteNodes document included ts) = included"
  by (auto simp: projectedRouteNodes_def Let_def image_image)

text \<open>What a successful call establishes; the properties below are read off it.\<close>

lemma createRoute_InrE:
  assumes "createRoute document request ctx overrides = Inr r"
  obtains included where
    "included = forwardRouteNodes document (route_entry r) (set (route_terminals r)) overrides"
    and "route_ids r = included" and "included \<subseteq> {n. has_key (document_nodes document) n}"
    and "route_entry r = selected_entry document request"
    and "route_terminals r = selected_terminals document request"
    and "boundary_ok document (route_entry r) (route_terminals r)"
    and "set (route_terminals r) \<subseteq> included"
    and "included \<subseteq> canReachTerminal included (route_terminals r) (route_transitions r)"
    and "set (RequiredNodes ctx) \<subseteq> included"
    and "route_transitions r =
      includedRouteTransitions document included (set (route_terminals r)) overrides"
    and "route_nodes r = projectedRouteNodes document included (route_transitions r)"
    and "ExcludedNodes r =
      excludedRouteNodes document included (route_entry r) (route_terminals r) overrides"
    and "InputRequirements r =
      routeInputRequirements document included (route_transitions r) ctx"
proof -
  define entry where "entry = selected_entry document request"
  define terminals where "terminals = selected_terminals document request"
  define included where "included = forwardRouteNodes document entry (set terminals) overrides"
  define ts where "ts = includedRouteTransitions document included (set terminals) overrides"
  have b: "boundary_ok document entry terminals"
    using assms by (auto simp: createRoute_def Let_def entry_def terminals_def split: if_splits)
  note keys = forward_has_key [OF boundary_has_key [OF b], of "set terminals" overrides, folded included_def]
  note fin = forward_finite [OF boundary_has_key [OF b], of "set terminals" overrides, folded included_def]
  have ok: "set terminals \<subseteq> included" "validateRouteClosure included terminals ts = []"
      "validateRoutePolicy document included (RequiredNodes ctx) = []"
    and r: "r = \<lparr>route_assessment = [], route_entry = entry, route_terminals = terminals,
          route_nodes = projectedRouteNodes document included ts, route_transitions = ts,
          ExcludedNodes = excludedRouteNodes document included entry terminals overrides,
          InputRequirements = routeInputRequirements document included ts ctx\<rparr>"
    using assms b unfolding createRoute_def Let_def entry_def [symmetric] terminals_def [symmetric]
      included_def [symmetric] ts_def [symmetric]
    by (auto split: if_splits)
  show ?thesis
    by (rule that [of included])
      (use b ok keys fin in \<open>simp_all add: r route_ids_def route_ids_projected validateRouteClosure_Nil
         validateRoutePolicy_Nil included_def entry_def terminals_def ts_def\<close>)
qed

text \<open>When a call succeeds.\<close>

lemma createRoute_checks:
  fixes document request overrides
  defines "entry \<equiv> selected_entry document request"
    and "terminals \<equiv> selected_terminals document request"
  defines "included \<equiv> forwardRouteNodes document entry (set terminals) overrides"
  shows "(\<exists>r. createRoute document request ctx overrides = Inr r) \<longleftrightarrow>
    boundary_ok document entry terminals \<and> set terminals \<subseteq> included \<and>
    included \<subseteq> canReachTerminal included terminals
      (includedRouteTransitions document included (set terminals) overrides) \<and>
    set (RequiredNodes ctx) \<subseteq> included"
proof (cases "boundary_ok document entry terminals")
  case True
  note k = boundary_has_key [OF True]
  note keys = forward_has_key [OF k, of "set terminals" overrides, folded included_def]
  note fin = forward_finite [OF k, of "set terminals" overrides, folded included_def]
  show ?thesis
    using True by (simp add: createRoute_def Let_def validateRouteClosure_Nil [OF fin]
        validateRoutePolicy_Nil [OF keys] flip: entry_def terminals_def included_def)
next
  case False
  then show ?thesis by (simp add: createRoute_def Let_def flip: entry_def terminals_def)
qed

section \<open>An example document\<close>

text \<open>Four nodes: \<open>plan\<close> is the entry and loops back to itself at most twice, \<open>build\<close> consumes the
  output of \<open>plan\<close> and a run input, \<open>ship\<close> is the terminal, \<open>audit\<close> lies past the terminal. The
  documents of the witnesses are variations of it.\<close>

definition plain_transition :: "Identifier \<Rightarrow> Identifier \<Rightarrow> TransitionFields" where
  "plain_transition i to = \<lparr>TransitionID = i, transition_to = to, transition_when = PredicateNil,
     EnabledByDefault = None\<rparr>"

definition plain_fields :: "bool \<Rightarrow> bool \<Rightarrow> Binding gomap \<Rightarrow> OutputDeclaration gomap \<Rightarrow> Join option \<Rightarrow>
    Transition list \<Rightarrow> NodeFields" where
  "plain_fields entry terminal inputs outputs join ts = \<lparr>node_prompt = None, node_display_name = [],
     Definition = None, Entry = entry, Terminal = terminal, node_inputs = inputs, node_outputs = outputs,
     node_readiness = None, node_validators = [], node_retry = None, node_checkpoint = NoCheckpoint,
     node_transition_mode = TransitionExclusive, node_join = join, Permissions = [], Transitions = ts\<rparr>"

definition plain_node :: "NodeFields \<Rightarrow> Node" where
  "plain_node c = CommandNode c \<lparr>command_argv = [''true''], command_cwd = [], TimeoutSeconds = None\<rparr>"

definition required_input :: "string \<Rightarrow> Binding" where
  "required_input source = RequiredBinding \<lparr>required_from = source, required_pointer = [],
     required_type = ''string'', required_description = []\<rparr>"

definition example_nodes :: "Node gomap" where
  "example_nodes =
    [(''build'', plain_node (plain_fields False False
       [(''goal'', required_input ''run.input.goal''), (''plan'', required_input ''node.plan.output.text'')] []
       (Some \<lparr>join_mode = JoinOne, join_from = [''planned'', ''skipped'']\<rparr>)
       [NormalTransition (plain_transition ''built'' ''ship'')])),
     (''plan'', plain_node (plain_fields True False [] [] None
       [BoundedTransition (plain_transition ''again'' ''plan'') 2,
        NormalTransition (plain_transition ''planned'' ''build'')])),
     (''audit'', plain_node (plain_fields False True [] [] None [])),
     (''ship'', plain_node (plain_fields False True [] [] None
       [NormalTransition (plain_transition ''shipped'' ''audit'')]))]"

definition example_document :: Document where
  "example_document = \<lparr>APIVersion = ''darkstar.local/v1alpha1'', document_kind = ''Workflow'',
     document_metadata = \<lparr>metadata_name = ''example'', metadata_version = ''1.0.0'', DisplayName = [],
       metadata_description = []\<rparr>,
     document_spec = \<lparr>spec_inputs = [], spec_defaults = \<lparr>default_entry = ''plan'', default_terminals = [''ship'']\<rparr>,
       Profiles = [], Nodes = example_nodes\<rparr>\<rparr>"

definition example_request :: RouteRequest where
  "example_request = \<lparr>request_from = [], request_until = []\<rparr>"

definition example_context :: RouteContext where
  "example_context = \<lparr>RunInputs = [], AcceptedOutputs = [], RequiredNodes = [''build'']\<rparr>"

definition example_route :: Route where
  "example_route = \<lparr>route_assessment = [], route_entry = ''plan'', route_terminals = [''ship''],
     route_nodes = [\<lparr>route_node_id = ''build'', route_node_join = Some \<lparr>join_mode = JoinOne, join_from = [''planned'']\<rparr>\<rparr>,
       \<lparr>route_node_id = ''plan'', route_node_join = None\<rparr>, \<lparr>route_node_id = ''ship'', route_node_join = None\<rparr>],
     route_transitions =
       [\<lparr>route_transition_id = ''built'', route_transition_from = ''build'', route_transition_to = ''ship''\<rparr>,
        \<lparr>route_transition_id = ''again'', route_transition_from = ''plan'', route_transition_to = ''plan''\<rparr>,
        \<lparr>route_transition_id = ''planned'', route_transition_from = ''plan'', route_transition_to = ''build''\<rparr>],
     ExcludedNodes = [\<lparr>excluded_id = ''audit'', excluded_reason = ExclusionPastTerminal\<rparr>],
     InputRequirements = [\<lparr>requirement_code = ''RUN_INPUT_REQUIRED'', requirement_node = ''build'',
       requirement_input = ''goal'', requirement_source = ''run.input.goal''\<rparr>]\<rparr>"

lemma example_route_created:
  "createRoute example_document example_request example_context [] = Inr example_route"
  by code_simp

section \<open>Properties of created routes\<close>

text \<open>C2: The nodes of a created route are exactly the nodes that the entry reaches along enabled
  transitions without passing through a selected terminal: the search neither drops a reachable
  node nor includes one that only lies past a terminal.\<close>

theorem createRoute_nodes:
  assumes "createRoute document request ctx overrides = Inr r"
  shows "route_ids r =
    {n. (route_entry r, n) \<in> (route_step document (set (route_terminals r)) overrides)\<^sup>*}"
  using assms by (rule createRoute_InrE) (auto simp: route_laws)

theorem createRoute_nodes_witness:
  "(''plan'', ''ship'') \<in> (route_step example_document {''ship''} [])\<^sup>* \<and>
   (''plan'', ''audit'') \<notin> (route_step example_document {''ship''} [])\<^sup>*"
proof -
  have "n \<in> route_ids example_route \<longleftrightarrow> (''plan'', n) \<in> (route_step example_document {''ship''} [])\<^sup>*" for n
    unfolding createRoute_nodes [OF example_route_created] by (simp add: example_route_def)
  moreover have "''ship'' \<in> route_ids example_route" and "''audit'' \<notin> route_ids example_route"
    by (simp_all add: example_route_def route_ids_def)
  ultimately show ?thesis by blast
qed

text \<open>From every node of a created route some selected terminal can be reached along the route's own
  transitions: no branch of a frozen route is a dead end.\<close>

theorem createRoute_reaches_terminal:
  assumes "createRoute document request ctx overrides = Inr r" and "n \<in> route_ids r"
  shows "\<exists>t \<in> set (route_terminals r). (n, t) \<in> (transition_edges (route_transitions r))\<^sup>*"
proof -
  from assms(1) obtain included where "route_ids r = included"
    and "included \<subseteq> canReachTerminal included (route_terminals r) (route_transitions r)"
    by (rule createRoute_InrE)
  with assms(2) have "n \<in> canReachTerminal included (route_terminals r) (route_transitions r)" by blast
  then show ?thesis by (auto simp: route_laws)
qed

theorem createRoute_reaches_terminal_witness:
  "(''plan'', ''ship'') \<in> (transition_edges (route_transitions example_route))\<^sup>*"
  using createRoute_reaches_terminal [OF example_route_created, of "''plan''"]
  by (simp add: example_route_def route_ids_def)

lemma in_includedRouteTransitions:
  "x \<in> set (includedRouteTransitions document included terminals overrides) \<longleftrightarrow>
     route_transition_from x \<in> included - terminals \<and> route_transition_to x \<in> included \<and>
     (\<exists>t \<in> set (node_transitions document (route_transition_from x)). routeTransitionEnabled t overrides \<and>
        route_transition_id x = transition_id t \<and> route_transition_to x = Target t)"
  (is "_ \<longleftrightarrow> ?rhs")
proof
  assume "x \<in> set (includedRouteTransitions document included terminals overrides)"
  then show ?rhs by (auto simp: includedRouteTransitions_def split: if_splits)
next
  assume rhs: ?rhs
  then obtain t where t: "t \<in> set (node_transitions document (route_transition_from x))"
    "routeTransitionEnabled t overrides" "route_transition_id x = transition_id t"
    "route_transition_to x = Target t" by blast
  then have "has_key (document_nodes document) (route_transition_from x)"
    by (auto simp: in_node_transitions has_key_def)
  moreover have "x \<in> (\<lambda>t. \<lparr>route_transition_id = transition_id t,
      route_transition_from = route_transition_from x, route_transition_to = Target t\<rparr>) `
      {t \<in> set (node_transitions document (route_transition_from x)).
        routeTransitionEnabled t overrides \<and> Target t \<in> included}"
    by (rule image_eqI [of _ _ t]) (use t rhs in auto)
  ultimately show "x \<in> set (includedRouteTransitions document included terminals overrides)"
    using rhs by (auto simp: includedRouteTransitions_def intro!: bexI [of _ "route_transition_from x"])
qed

text \<open>The transitions of a created route are exactly the enabled authored transitions that leave
  a node of the route other than a selected terminal and lead to a node of the document: none leaves
  a terminal, both ends lie in the route, and no enabled transition is lost.\<close>

theorem createRoute_transitions:
  assumes "createRoute document request ctx overrides = Inr r"
  shows "x \<in> set (route_transitions r) \<longleftrightarrow>
    route_transition_from x \<in> route_ids r \<and> route_transition_from x \<notin> set (route_terminals r) \<and>
    has_key (document_nodes document) (route_transition_to x) \<and>
    (\<exists>t \<in> set (node_transitions document (route_transition_from x)). routeTransitionEnabled t overrides \<and>
       route_transition_id x = transition_id t \<and> route_transition_to x = Target t)"
proof -
  from assms obtain included where
    i: "included = forwardRouteNodes document (route_entry r) (set (route_terminals r)) overrides"
    and ids: "route_ids r = included" and keys: "included \<subseteq> {n. has_key (document_nodes document) n}"
    and ts: "route_transitions r = includedRouteTransitions document included (set (route_terminals r)) overrides"
    by (rule createRoute_InrE)
  have closed: "Target t \<in> included" if "z \<in> included" "z \<notin> set (route_terminals r)"
    "t \<in> set (node_transitions document z)" "routeTransitionEnabled t overrides"
    "has_key (document_nodes document) (Target t)" for z t
  proof -
    have "(z, Target t) \<in> route_step document (set (route_terminals r)) overrides"
      using that by (auto simp: route_step_def)
    with that(1) show ?thesis unfolding i route_laws by (rule rtrancl_into_rtrancl)
  qed
  show ?thesis
    unfolding ts in_includedRouteTransitions ids using keys by (auto intro: closed)
qed

theorem createRoute_transitions_witness:
  "\<lparr>route_transition_id = ''shipped'', route_transition_from = ''ship'', route_transition_to = ''audit''\<rparr>
     \<notin> set (route_transitions example_route)"
  using createRoute_transitions [OF example_route_created,
      of "\<lparr>route_transition_id = ''shipped'', route_transition_from = ''ship'', route_transition_to = ''audit''\<rparr>"]
  by (simp add: example_route_def)

text \<open>The nodes and the excluded nodes of a created route partition the nodes of the document, and
  both lists are sorted without repetition.\<close>

theorem createRoute_partition:
  assumes "createRoute document request ctx overrides = Inr r" and "wf_document document"
  shows "route_ids r \<inter> excluded_id ` set (ExcludedNodes r) = {} \<and>
    route_ids r \<union> excluded_id ` set (ExcludedNodes r) = {n. has_key (document_nodes document) n} \<and>
    sorted (map route_node_id (route_nodes r)) \<and> distinct (map route_node_id (route_nodes r)) \<and>
    sorted (map excluded_id (ExcludedNodes r)) \<and> distinct (map excluded_id (ExcludedNodes r))"
proof -
  from assms(1) obtain included where ids: "route_ids r = included"
    and keys: "included \<subseteq> {n. has_key (document_nodes document) n}"
    and ns: "route_nodes r = projectedRouteNodes document included (route_transitions r)"
    and ex: "ExcludedNodes r = excludedRouteNodes document included (route_entry r) (route_terminals r) overrides"
    by (rule createRoute_InrE)
  have n: "map route_node_id (route_nodes r) = filter (\<lambda>n. n \<in> included) (sorted_keys (document_nodes document))"
    by (simp add: ns projectedRouteNodes_def Let_def o_def)
  have e: "map excluded_id (ExcludedNodes r) = filter (\<lambda>n. n \<notin> included) (sorted_keys (document_nodes document))"
    by (simp add: ex excludedRouteNodes_def Let_def o_def)
  have es: "excluded_id ` set (ExcludedNodes r) = {n. has_key (document_nodes document) n} - included"
    using e by (auto simp flip: set_map)
  have d: "wf_map (document_nodes document)" using assms(2) by (simp add: wf_document_def)
  show ?thesis unfolding n e es ids
    using keys d by (auto simp: sorted_wrt_filter)
qed

lemma wf_example_document: "wf_document example_document"
  by code_simp

theorem createRoute_partition_witness:
  "route_ids example_route \<union> excluded_id ` set (ExcludedNodes example_route) =
     {n. has_key (document_nodes example_document) n}"
  using createRoute_partition [OF example_route_created wf_example_document] by blast

text \<open>The transitions of a route are the steps out of its nodes.\<close>

lemma transition_edges_included:
  fixes document entry T overrides
  defines "included \<equiv> forwardRouteNodes document entry T overrides"
  assumes "has_key (document_nodes document) entry"
  shows "transition_edges (includedRouteTransitions document included T overrides) =
    {(x, y). x \<in> included \<and> (x, y) \<in> route_step document T overrides}" (is "?l = ?r")
proof
  show "?l \<subseteq> ?r"
  proof
    fix p
    assume "p \<in> ?l"
    then obtain x y t where p: "p = (x, y)" "x \<in> included" "x \<notin> T" "y \<in> included"
      "t \<in> set (node_transitions document x)" "routeTransitionEnabled t overrides" "y = Target t"
      by (auto simp: transition_edges_def in_includedRouteTransitions)
    moreover have "has_key (document_nodes document) y"
      using p forward_has_key [OF assms(2)] unfolding included_def by blast
    ultimately show "p \<in> ?r" by (auto simp: route_step_def)
  qed
  show "?r \<subseteq> ?l"
  proof
    fix p
    assume "p \<in> ?r"
    then obtain x y t where p: "p = (x, y)" "x \<in> included" "x \<notin> T" "(x, y) \<in> route_step document T overrides"
      "t \<in> set (node_transitions document x)" "routeTransitionEnabled t overrides" "y = Target t"
      by (auto simp: route_step_def)
    then have "y \<in> included" by (auto simp: included_def route_laws)
    with p have "\<lparr>route_transition_id = transition_id t, route_transition_from = x, route_transition_to = y\<rparr>
        \<in> set (includedRouteTransitions document included T overrides)"
      unfolding in_includedRouteTransitions by auto
    then show "p \<in> ?l" using p by (force simp: transition_edges_def)
  qed
qed

text \<open>C1: \<open>createRoute\<close> returns a route exactly when the selected entry is an entry-capable node, there
  is a selected terminal and all are terminal-capable nodes, every one of them is reached, every
  reached node reaches a selected terminal along steps of the route, and the route contains every
  node that project policy requires.\<close>

theorem createRoute_succeeds_iff:
  fixes document request overrides
  defines "entry \<equiv> selected_entry document request"
    and "terminals \<equiv> selected_terminals document request"
  defines "steps \<equiv> route_step document (set terminals) overrides"
  shows "(\<exists>r. createRoute document request ctx overrides = Inr r) \<longleftrightarrow>
    boundary_ok document entry terminals \<and> (\<forall>t \<in> set terminals. (entry, t) \<in> steps\<^sup>*) \<and>
    (\<forall>n. (entry, n) \<in> steps\<^sup>* \<longrightarrow> (\<exists>t \<in> set terminals. (n, t) \<in> steps\<^sup>*)) \<and>
    (\<forall>n \<in> set (RequiredNodes ctx). (entry, n) \<in> steps\<^sup>*)"
proof (cases "boundary_ok document entry terminals")
  case True
  define included where "included = forwardRouteNodes document entry (set terminals) overrides"
  define ts where "ts = includedRouteTransitions document included (set terminals) overrides"
  note k = boundary_has_key [OF True]
  have inc: "included = {n. (entry, n) \<in> steps\<^sup>*}"
    by (auto simp: included_def steps_def route_laws)
  have "transition_edges ts = {(x, y). x \<in> included \<and> (x, y) \<in> steps}"
    unfolding ts_def included_def steps_def by (rule transition_edges_included [OF k])
  then have "(n, t) \<in> (transition_edges ts)\<^sup>* \<longleftrightarrow> (n, t) \<in> steps\<^sup>*" if "n \<in> included" for n t
    using that by (simp add: rtrancl_restrict_closed) (rule rtrancl_restrict_closed, auto simp: inc)
  then have reach: "set terminals \<subseteq> included \<Longrightarrow> included \<subseteq> canReachTerminal included terminals ts \<longleftrightarrow>
      (\<forall>n \<in> included. \<exists>t \<in> set terminals. (n, t) \<in> steps\<^sup>*)"
    by (simp add: subset_iff route_laws) blast
  have "(\<exists>r. createRoute document request ctx overrides = Inr r) \<longleftrightarrow>
      set terminals \<subseteq> included \<and> included \<subseteq> canReachTerminal included terminals ts \<and>
      set (RequiredNodes ctx) \<subseteq> included"
    using createRoute_checks [of document request ctx overrides] True
    by (simp add: ts_def included_def entry_def terminals_def)
  then show ?thesis using True reach by (auto simp: inc)
next
  case False
  then show ?thesis using createRoute_checks [of document request ctx overrides]
    by (simp add: entry_def terminals_def)
qed

theorem createRoute_succeeds_iff_witness:
  "(selected_entry example_document example_request, ''build'') \<in>
     (route_step example_document (set (selected_terminals example_document example_request)) [])\<^sup>*"
proof -
  have "\<exists>r. createRoute example_document example_request example_context [] = Inr r"
    using example_route_created by blast
  then show ?thesis
    unfolding createRoute_succeeds_iff by (simp add: example_context_def)
qed

lemma split_loop_split_on:
  "split_loop parts part s = (case split_on (CHR ''.'') s of w # ws \<Rightarrow> rev parts @ (rev part @ w) # ws | [] \<Rightarrow> [])"
proof (induction s arbitrary: parts part)
  case (Cons c cs)
  then show ?case by (cases "split_on (CHR ''.'') cs") auto
qed simp

lemma splitReference_split_on: "splitReference s = split_on (CHR ''.'') s"
  by (cases "split_on (CHR ''.'') s") (simp_all add: splitReference_def split_loop_split_on)

text \<open>When the source of a required binding of a node is at hand: a run input that the context holds,
  an output that an earlier run of its node produced, or an output of a node that precedes the
  consumer on the route.\<close>

definition source_available :: "RouteTransition list \<Rightarrow> RouteContext \<Rightarrow> Identifier \<Rightarrow> string \<Rightarrow> bool" where
  "source_available ts ctx consumer source \<longleftrightarrow>
     (\<exists>i. split_on (CHR ''.'') source = [''run'', ''input'', i] \<and> has_key (RunInputs ctx) i) \<or>
     (\<exists>n output. split_on (CHR ''.'') source = [''node'', n, ''output'', output] \<and>
        ((\<exists>outputs. map_of (AcceptedOutputs ctx) n = Some outputs \<and> has_key outputs output) \<or>
         n \<noteq> consumer \<and> (n, consumer) \<in> (transition_edges ts)\<^sup>+))"

lemma list_of_three: "length xs = 3 \<longleftrightarrow> (\<exists>a b c. xs = [a, b, c])"
  by (auto simp: length_Suc_conv numeral_3_eq_3)

lemma list_of_four: "length xs = 4 \<longleftrightarrow> (\<exists>a b c d. xs = [a, b, c, d])"
  by (auto simp: length_Suc_conv numeral_eq_Suc)

lemma routeBindingAvailable_iff:
  "routeBindingAvailable source consumer (routePredecessors ts) ctx \<longleftrightarrow> source_available ts ctx consumer source"
proof -
  let ?p = "split_on (CHR ''.'') source"
  consider "length ?p = 3" | "length ?p = 4" | "length ?p \<noteq> 3" "length ?p \<noteq> 4" by blast
  then show ?thesis
  proof cases
    case 1
    then obtain a b c where "?p = [a, b, c]" by (auto simp: list_of_three)
    then show ?thesis
      by (auto simp: routeBindingAvailable_def source_available_def splitReference_split_on)
  next
    case 2
    then obtain a b c d where p: "?p = [a, b, c, d]" by (auto simp: list_of_four)
    then show ?thesis
      unfolding routeBindingAvailable_def source_available_def splitReference_split_on Let_def p predecessors_iff
      by (auto split: option.splits)
  next
    case 3
    then show ?thesis
      by (auto simp: routeBindingAvailable_def source_available_def splitReference_split_on Let_def)
  qed
qed

text \<open>C3: A created route reports a missing input for exactly the required bindings of its nodes
  whose source is not at hand. So when a route has no input requirement, every required input of every
  node is a supplied run input, an accepted output, or an output of a node before it on the route.\<close>

theorem createRoute_input_requirements:
  assumes "createRoute document request ctx overrides = Inr r"
  shows "q \<in> set (InputRequirements r) \<longleftrightarrow>
    requirement_code q = ValidationRunInputRequired \<and> requirement_node q \<in> route_ids r \<and>
    (\<exists>b. map_of (node_bindings document (requirement_node q)) (requirement_input q) = Some (RequiredBinding b) \<and>
       requirement_source q = required_from b \<and>
       \<not> source_available (route_transitions r) ctx (requirement_node q) (required_from b))"
  (is "_ \<longleftrightarrow> ?rhs")
proof -
  from assms obtain included where ids: "route_ids r = included"
    and keys: "included \<subseteq> {n. has_key (document_nodes document) n}"
    and q: "InputRequirements r = routeInputRequirements document included (route_transitions r) ctx"
    by (rule createRoute_InrE)
  have "q \<in> set (InputRequirements r) \<longleftrightarrow> (\<exists>n i b. n \<in> included \<and>
      map_of (node_bindings document n) i = Some (RequiredBinding b) \<and>
      \<not> source_available (route_transitions r) ctx n (required_from b) \<and>
      q = \<lparr>requirement_code = ValidationRunInputRequired, requirement_node = n, requirement_input = i,
           requirement_source = required_from b\<rparr>)"
    unfolding q routeInputRequirements_def Let_def routeBindingAvailable_iff using keys
    by (fastforce simp: has_key_def split: if_splits option.splits Binding.splits)
  also have "\<dots> \<longleftrightarrow> ?rhs" unfolding ids by (cases q) auto
  finally show ?thesis .
qed

theorem createRoute_input_requirements_witness:
  "\<not> source_available (route_transitions example_route) example_context ''build'' ''run.input.goal''"
  using createRoute_input_requirements [OF example_route_created,
      of "\<lparr>requirement_code = ''RUN_INPUT_REQUIRED'', requirement_node = ''build'',
           requirement_input = ''goal'', requirement_source = ''run.input.goal''\<rparr>"]
  by (auto simp: example_route_def)

lemma lookup_incoming:
  "set (lookup_list (incoming_transitions ts) n) = {route_transition_id t | t. t \<in> set ts \<and> route_transition_to t = n}"
  by (force simp: incoming_transitions_def lookup_group_by)

text \<open>A node of a created route has a join exactly when it is authored with one and a transition of
  the route leads into it; the projected join keeps the authored mode and, in authored order, exactly
  those authored incoming transitions that belong to the route, so that an \<open>all\<close> join never waits for
  a branch outside the route.\<close>

theorem createRoute_joins:
  assumes "createRoute document request ctx overrides = Inr r" and "n \<in> set (route_nodes r)"
  shows "route_node_join n =
    (case authored_join document (route_node_id n) of
       Some j \<Rightarrow> if \<exists>t \<in> set (route_transitions r). route_transition_to t = route_node_id n
         then Some \<lparr>join_mode = join_mode j, join_from = filter (\<lambda>i. \<exists>t \<in> set (route_transitions r).
           route_transition_to t = route_node_id n \<and> route_transition_id t = i) (join_from j)\<rparr>
         else None
     | None \<Rightarrow> None)"
proof -
  let ?in = "lookup_list (incoming_transitions (route_transitions r)) (route_node_id n)"
  from assms(1) obtain included where
    "route_nodes r = projectedRouteNodes document included (route_transitions r)"
    by (rule createRoute_InrE)
  then have n: "route_node_join n = (case authored_join document (route_node_id n) of
      Some j \<Rightarrow> if ?in = [] then None else Some (project_join j ?in) | None \<Rightarrow> None)"
    using assms(2) by (auto simp: projectedRouteNodes_def Let_def split: option.split)
  have "?in = [] \<longleftrightarrow> \<not> (\<exists>t \<in> set (route_transitions r). route_transition_to t = route_node_id n)"
    unfolding set_empty [symmetric] lookup_incoming by blast
  moreover have "i \<in> set ?in \<longleftrightarrow> (\<exists>t \<in> set (route_transitions r).
      route_transition_to t = route_node_id n \<and> route_transition_id t = i)" for i
    unfolding lookup_incoming by blast
  ultimately show ?thesis unfolding n project_join_def by (simp split: option.split) blast
qed

theorem createRoute_joins_witness:
  "route_node_join \<lparr>route_node_id = ''build'', route_node_join = Some \<lparr>join_mode = JoinOne, join_from = [''planned'']\<rparr>\<rparr> =
     Some \<lparr>join_mode = JoinOne, join_from = [''planned'']\<rparr>"
proof -
  let ?n = "\<lparr>route_node_id = ''build'', route_node_join = Some \<lparr>join_mode = JoinOne, join_from = [''planned'']\<rparr>\<rparr>"
  have "authored_join example_document ''build'' = Some \<lparr>join_mode = JoinOne, join_from = [''planned'', ''skipped'']\<rparr>"
    by code_simp
  then show ?thesis using createRoute_joins [OF example_route_created, of ?n]
    by (simp add: example_route_def)
qed

text \<open>The reason recorded for an excluded node is \<open>before_entry\<close> when enabled transitions lead
  from it to the entry, otherwise \<open>past_terminal\<close> when they lead to it from a selected terminal,
  and otherwise \<open>not_connected\<close>.\<close>

theorem createRoute_exclusions:
  assumes "createRoute document request ctx overrides = Inr r" and "wf_document document"
    and "x \<in> set (ExcludedNodes r)"
  shows "excluded_reason x =
    (if (excluded_id x, route_entry r) \<in> (enabled_step document overrides)\<^sup>* then ExclusionBeforeEntry
     else if \<exists>t \<in> set (route_terminals r). (t, excluded_id x) \<in> (enabled_step document overrides)\<^sup>*
       then ExclusionPastTerminal else ExclusionNotConnected)"
proof -
  from assms(1) obtain included where
    ex: "ExcludedNodes r = excludedRouteNodes document included (route_entry r) (route_terminals r) overrides"
    by (rule createRoute_InrE)
  have "wf_map (document_nodes document)" using assms(2) by (simp add: wf_document_def)
  with assms(3) show ?thesis unfolding ex excludedRouteNodes_def Let_def
    by (auto simp: route_laws)
qed

theorem createRoute_exclusions_witness:
  "(''ship'', ''audit'') \<in> (enabled_step example_document [])\<^sup>*"
  using createRoute_exclusions [OF example_route_created wf_example_document,
      of "\<lparr>excluded_id = ''audit'', excluded_reason = ExclusionPastTerminal\<rparr>"]
  by (auto simp: example_route_def split: if_splits)

section \<open>Independence of map iteration order\<close>

text \<open>Two documents that agree on everything but the order in which a range over their node map meets
  the nodes.\<close>

definition same_nodes :: "Document \<Rightarrow> Document \<Rightarrow> bool" where
  "same_nodes d d' \<longleftrightarrow> spec_defaults (document_spec d) = spec_defaults (document_spec d') \<and>
     map_of (document_nodes d) = map_of (document_nodes d')"

lemma createRoute_order_lemmas:
  assumes "same_nodes d d'" and "wf_document d" and "wf_document d'"
  shows "sorted_keys (document_nodes d) = sorted_keys (document_nodes d')"
    and "has_key (document_nodes d) = has_key (document_nodes d')"
    and "node_transitions d = node_transitions d'"
    and "node_bindings d = node_bindings d'"
    and "authored_join d = authored_join d'"
    and "forwardRouteNodes d = forwardRouteNodes d'"
    and "reverseReachable d = reverseReachable d'"
    and "forwardReachable d = forwardReachable d'"
    and "selected_entry d = selected_entry d'"
    and "selected_terminals d = selected_terminals d'"
    and "validateRouteBoundaries d = validateRouteBoundaries d'"
proof -
  note m = assms(1) [unfolded same_nodes_def]
  have wf: "wf_map (document_nodes d)" "wf_map (document_nodes d')"
    using assms(2,3) by (auto simp: wf_document_def)
  show "sorted_keys (document_nodes d) = sorted_keys (document_nodes d')"
    using wf m by (intro sorted_keys_cong) auto
  show key: "has_key (document_nodes d) = has_key (document_nodes d')"
    using m by (simp add: has_key_def fun_eq_iff)
  show ts: "node_transitions d = node_transitions d'"
    using m by (simp add: node_transitions_def fun_eq_iff)
  show "node_bindings d = node_bindings d'" "authored_join d = authored_join d'"
    using m by (simp_all add: node_bindings_def authored_join_def fun_eq_iff)
  have steps: "route_step d = route_step d'" "enabled_step d = enabled_step d'"
    using key ts by (simp_all add: route_step_def enabled_step_def fun_eq_iff)
  show "forwardRouteNodes d = forwardRouteNodes d'" "forwardReachable d = forwardReachable d'"
    "reverseReachable d = reverseReachable d'"
    using wf by (auto simp: fun_eq_iff set_eq_iff route_laws steps)
  show "selected_entry d = selected_entry d'" "selected_terminals d = selected_terminals d'"
    "validateRouteBoundaries d = validateRouteBoundaries d'"
    using m by (simp_all add: selected_entry_def selected_terminals_def validateRouteBoundaries_def fun_eq_iff)
qed

text \<open>C4: The result of \<open>createRoute\<close>, errors and their order included, does not depend on the order
  in which Go iterates over the document's node map.\<close>

theorem createRoute_order_independent:
  assumes "same_nodes d d'" and "wf_document d" and "wf_document d'"
  shows "createRoute d request ctx overrides = createRoute d' request ctx overrides"
  unfolding createRoute_def includedRouteTransitions_def validateRoutePolicy_def projectedRouteNodes_def
    excludedRouteNodes_def routeInputRequirements_def createRoute_order_lemmas [OF assms] ..

definition reordered_document :: Document where
  "reordered_document = example_document\<lparr>document_spec := (document_spec example_document)\<lparr>Nodes := rev example_nodes\<rparr>\<rparr>"

theorem createRoute_order_independent_witness:
  "createRoute reordered_document example_request example_context [] = Inr example_route"
proof -
  have "map_of (rev example_nodes) = map_of example_nodes"
    by (simp add: example_nodes_def fun_upd_twist)
  then have "same_nodes reordered_document example_document"
    by (simp add: same_nodes_def reordered_document_def) (simp add: example_document_def)
  moreover have "wf_document reordered_document" by code_simp
  ultimately show ?thesis
    using createRoute_order_independent wf_example_document example_route_created by simp
qed

section \<open>Profiles\<close>

lemma map_of_put_all: "map_of (put_all m new) k = (case map_of (rev new) k of Some v \<Rightarrow> Some v | None \<Rightarrow> map_of m k)"
  unfolding put_all_def
  by (induction new arbitrary: m) (auto simp: map_add_def split: option.splits)

lemma map_of_put_all_wf:
  "wf_map new \<Longrightarrow> map_of (put_all m new) k = (case map_of new k of Some v \<Rightarrow> Some v | None \<Rightarrow> map_of m k)"
  by (simp add: map_of_put_all map_of_rev_wf)

text \<open>A profile route is the ordinary route of the profile's entry and terminals, over a context in
  which an explicit run input wins over the profile's default of the same name and every other
  default is present.\<close>

theorem CreateProfileRoute_context:
  assumes "map_of (Profiles (document_spec document)) profileID = Some profile"
    and "wf_map (InputDefaults profile)" and "wf_map (RunInputs ctx)"
  shows "\<exists>merged. CreateProfileRoute document profileID ctx = CreateRoute document
      \<lparr>request_from = profile_entry profile, request_until = profile_terminals profile\<rparr> merged \<and>
    AcceptedOutputs merged = AcceptedOutputs ctx \<and> RequiredNodes merged = RequiredNodes ctx \<and>
    map_of (RunInputs merged) = map_of (InputDefaults profile) ++ map_of (RunInputs ctx)"
  using assms
  by (intro exI [of _ "ctx\<lparr>RunInputs := put_all (put_all [] (InputDefaults profile)) (RunInputs ctx)\<rparr>"])
     (auto simp: CreateProfileRoute_def map_of_put_all_wf map_add_def fun_eq_iff split: option.splits)

definition quick_profile :: RouteProfile where
  "quick_profile = \<lparr>profile_description = [], profile_entry = ''plan'', profile_terminals = [''ship''],
     InputDefaults = [(''goal'', ''1''), (''mode'', ''2'')]\<rparr>"

definition profile_document :: Document where
  "profile_document = example_document\<lparr>document_spec := (document_spec example_document)\<lparr>
     Profiles := [(''quick'', quick_profile)]\<rparr>\<rparr>"

theorem CreateProfileRoute_context_witness:
  "\<exists>merged. CreateProfileRoute profile_document ''quick'' (example_context\<lparr>RunInputs := [(''goal'', ''3'')]\<rparr>) =
     CreateRoute profile_document \<lparr>request_from = ''plan'', request_until = [''ship'']\<rparr> merged \<and>
   map_of (RunInputs merged) ''goal'' = Some ''3'' \<and> map_of (RunInputs merged) ''mode'' = Some ''2''"
proof -
  let ?c = "example_context\<lparr>RunInputs := [(''goal'', ''3'')]\<rparr>"
  have p: "map_of (Profiles (document_spec profile_document)) ''quick'' = Some quick_profile"
    by (simp add: profile_document_def)
  have w: "wf_map (InputDefaults quick_profile)" "wf_map (RunInputs ?c)"
    by (simp_all add: quick_profile_def wf_map_def)
  obtain merged where "CreateProfileRoute profile_document ''quick'' ?c = CreateRoute profile_document
      \<lparr>request_from = profile_entry quick_profile, request_until = profile_terminals quick_profile\<rparr> merged"
    and "map_of (RunInputs merged) = map_of (InputDefaults quick_profile) ++ map_of (RunInputs ?c)"
    using CreateProfileRoute_context [OF p w] by blast
  then show ?thesis by (intro exI [of _ merged]) (simp add: quick_profile_def map_add_def)
qed

end
