(* ===== verification/Predicates.thy ===== *)
theory Predicates
  imports Schema
begin

text \<open>
  The predicate evaluator (\<open>core/workflow/predicate.go\<close>): the closed expression language that
  gates, approval checkpoints and transitions share. Every failure carries the code
  \<open>RUN_PREDICATE_INVALID\<close> and the JSON Pointer of the operand that failed, which is the whole of a
  \<open>FrameError\<close> but for its message text.

  The last sections relate the evaluator to a reference semantics: \<open>denote\<close> maps a decoded value
  to a mathematical one (objects as finite functions, numbers as rationals), and
  \<open>equalPredicateValues\<close> decides equality of denotations whatever order Go's map iteration takes.
\<close>

record FrameError =
  frame_error_code :: string
  frame_error_location :: string
  frame_error_transition :: Identifier

definition RunPredicateInvalid :: string where
  "RunPredicateInvalid = ''RUN_PREDICATE_INVALID''"

definition predicateFailure :: "string \<Rightarrow> FrameError" where
  "predicateFailure location = \<lparr>frame_error_code = RunPredicateInvalid, frame_error_location = location,
     frame_error_transition = []\<rparr>"

definition TrimSuffixSlash :: "string \<Rightarrow> string" where
  "TrimSuffixSlash s = (if s \<noteq> [] \<and> last s = CHR ''/'' then butlast s else s)"

definition pointerChild :: "string \<Rightarrow> string \<Rightarrow> string" where
  "pointerChild location child = (if location = '''' then ''/'' @ child
     else TrimSuffixSlash location @ ''/'' @ child)"

record PredicateValues =
  pv_outputs :: "raw_message gomap"
  pv_inputs :: "raw_message gomap"
  pv_run_inputs :: "raw_message gomap"

section \<open>Values\<close>

text \<open>Decoding into \<open>any\<close> stores the members of an object in a Go map: of a repeated key the last
  value stays.\<close>

definition go_object :: "(string \<times> json) list \<Rightarrow> (string \<times> json) list" where
  "go_object ms = foldl (\<lambda>m (k, v). map_put k v m) [] ms"

primrec any_of_json :: "json \<Rightarrow> json" where
  "any_of_json JNull = JNull"
| "any_of_json (JBool b) = JBool b"
| "any_of_json (JNumber l) = JNumber l"
| "any_of_json (JString s) = JString s"
| "any_of_json (JArray vs) = JArray (map any_of_json vs)"
| "any_of_json (JObject ms) = JObject (go_object (map (map_prod id any_of_json) ms))"

definition decodePredicateValue :: "raw_message \<Rightarrow> string \<Rightarrow> FrameError + json" where
  "decodePredicateValue raw location = (case json_parse raw of
     None \<Rightarrow> Inl (predicateFailure location) | Some v \<Rightarrow> Inr (any_of_json v))"

fun predicateValueType :: "json \<Rightarrow> ValueType" where
  "predicateValueType JNull = ValueNull"
| "predicateValueType (JBool _) = ValueBoolean"
| "predicateValueType (JString _) = ValueString"
| "predicateValueType (JNumber l) = (if has_fraction_or_exponent l then ValueNumber else ValueInteger)"
| "predicateValueType (JArray _) = ValueArray"
| "predicateValueType (JObject _) = ValueObject"

text \<open>The result of a comparison is None where the code returns the error of an invalid number.\<close>

definition equalPredicateNumbers :: "string \<Rightarrow> string \<Rightarrow> bool option" where
  "equalPredicateNumbers left right =
     (if predicateValueType (JNumber left) \<noteq> predicateValueType (JNumber right) then Some False
      else case number_rat left of None \<Rightarrow> None
        | Some a \<Rightarrow> (case number_rat right of None \<Rightarrow> None | Some b \<Rightarrow> Some (a = b)))"

fun equalPredicateValues :: "json \<Rightarrow> json \<Rightarrow> bool option"
  and equal_elements :: "json list \<Rightarrow> json list \<Rightarrow> bool option"
  and equal_members :: "(string \<times> json) list \<Rightarrow> (string \<times> json) list \<Rightarrow> bool option"
where
  "equalPredicateValues left right =
     (if predicateValueType left \<noteq> predicateValueType right then Some False
      else case left of
        JNull \<Rightarrow> Some True
      | JBool a \<Rightarrow> (case right of JBool b \<Rightarrow> Some (a = b) | _ \<Rightarrow> None)
      | JString a \<Rightarrow> (case right of JString b \<Rightarrow> Some (a = b) | _ \<Rightarrow> None)
      | JNumber a \<Rightarrow> (case right of JNumber b \<Rightarrow> equalPredicateNumbers a b | _ \<Rightarrow> None)
      | JArray xs \<Rightarrow> (case right of JArray ys \<Rightarrow>
            if length xs \<noteq> length ys then Some False else equal_elements xs ys | _ \<Rightarrow> None)
      | JObject ms \<Rightarrow> (case right of JObject ns \<Rightarrow>
            if length ms \<noteq> length ns then Some False else equal_members ms ns | _ \<Rightarrow> None))"
| "equal_elements (x # xs) (y # ys) = (case equalPredicateValues x y of
     Some True \<Rightarrow> equal_elements xs ys | r \<Rightarrow> r)"
| "equal_elements _ _ = Some True"
| "equal_members [] ns = Some True"
| "equal_members ((k, v) # ms) ns = (case map_of ns k of None \<Rightarrow> Some False
     | Some w \<Rightarrow> (case equalPredicateValues v w of Some True \<Rightarrow> equal_members ms ns | r \<Rightarrow> r))"

declare equalPredicateValues.simps [simp del]

text \<open>\<open>comparePredicateValues\<close>: an invalid number, two values without an order, or the order.\<close>

datatype comparison = InvalidNumber | Incomparable | Ordered int

definition cmp :: "'a::linorder \<Rightarrow> 'a \<Rightarrow> int" where
  "cmp a b = (if a < b then -1 else if a = b then 0 else 1)"

fun comparePredicateValues :: "json \<Rightarrow> json \<Rightarrow> comparison" where
  "comparePredicateValues (JString a) (JString b) = Ordered (cmp a b)"
| "comparePredicateValues (JNumber a) (JNumber b) =
     (case number_rat a of None \<Rightarrow> InvalidNumber
      | Some x \<Rightarrow> (case number_rat b of None \<Rightarrow> InvalidNumber | Some y \<Rightarrow> Ordered (cmp x y)))"
| "comparePredicateValues _ _ = Incomparable"

section \<open>References and operands\<close>

text \<open>The inner option is the \<open>present\<close> result.\<close>

fun select_members :: "json \<Rightarrow> string list \<Rightarrow> json option" where
  "select_members current [] = Some current"
| "select_members current (member # tail) = (case current of
     JObject ms \<Rightarrow> (case map_of ms member of None \<Rightarrow> None | Some v \<Rightarrow> select_members v tail)
   | _ \<Rightarrow> None)"

definition resolve_in :: "raw_message gomap \<Rightarrow> Identifier \<Rightarrow> string list \<Rightarrow> string \<Rightarrow> FrameError + json option" where
  "resolve_in m i tail location = (case map_of m i of None \<Rightarrow> Inr None
     | Some raw \<Rightarrow> (case decodePredicateValue raw location of
          Inl e \<Rightarrow> Inl e | Inr v \<Rightarrow> Inr (select_members v tail)))"

definition resolve :: "PredicateValues \<Rightarrow> string \<Rightarrow> string \<Rightarrow> FrameError + json option" where
  "resolve vals reference location =
     (let parts = split_on (CHR ''.'') reference in
      if 2 \<le> length parts \<and> parts ! 0 = ''output''
      then resolve_in (pv_outputs vals) (parts ! 1) (drop 2 parts) location
      else if 2 \<le> length parts \<and> parts ! 0 = ''input''
      then resolve_in (pv_inputs vals) (parts ! 1) (drop 2 parts) location
      else if 3 \<le> length parts \<and> parts ! 0 = ''run'' \<and> parts ! 1 = ''input''
      then resolve_in (pv_run_inputs vals) (parts ! 2) (drop 3 parts) location
      else Inl (predicateFailure location))"

fun operand :: "PredicateValues \<Rightarrow> Operand \<Rightarrow> string \<Rightarrow> FrameError + json" where
  "operand vals (LiteralOperand raw) location = decodePredicateValue raw location"
| "operand vals (ReferenceOperand ref) location =
     (case resolve vals ref (pointerChild location ''ref'') of
        Inl e \<Rightarrow> Inl e
      | Inr None \<Rightarrow> Inl (predicateFailure (pointerChild location ''ref''))
      | Inr (Some v) \<Rightarrow> Inr v)"
| "operand vals OperandNil location = Inl (predicateFailure location)"

section \<open>Evaluation\<close>

fun validComparisonOperator :: "ComparisonOperator \<Rightarrow> bool" where
  "validComparisonOperator (CompareUnknown _) = False"
| "validComparisonOperator _ = True"

fun order_holds :: "ComparisonOperator \<Rightarrow> int \<Rightarrow> bool" where
  "order_holds CompareLess ord \<longleftrightarrow> ord < 0"
| "order_holds CompareLessOrEqual ord \<longleftrightarrow> ord \<le> 0"
| "order_holds CompareGreater ord \<longleftrightarrow> ord > 0"
| "order_holds _ ord \<longleftrightarrow> ord \<ge> 0"

definition compare_values :: "ComparisonOperator \<Rightarrow> json \<Rightarrow> json \<Rightarrow> string \<Rightarrow> FrameError + bool" where
  "compare_values op left right location =
     (if op = CompareEqual \<or> op = CompareNotEqual then
        (case equalPredicateValues left right of None \<Rightarrow> Inl (predicateFailure location)
         | Some eq \<Rightarrow> Inr (if op = CompareNotEqual then \<not> eq else eq))
      else (case comparePredicateValues left right of
          InvalidNumber \<Rightarrow> Inl (predicateFailure location)
        | Incomparable \<Rightarrow> Inl (predicateFailure location)
        | Ordered ord \<Rightarrow> Inr (order_holds op ord)))"

definition evaluateComparison ::
  "PredicateValues \<Rightarrow> ComparisonOperator \<Rightarrow> Operand \<Rightarrow> Operand \<Rightarrow> string \<Rightarrow> FrameError + bool" where
  "evaluateComparison vals op a b location =
     (if \<not> validComparisonOperator op then Inl (predicateFailure location)
      else case operand vals a (pointerChild location ''args/0'') of Inl e \<Rightarrow> Inl e
        | Inr left \<Rightarrow> (case operand vals b (pointerChild location ''args/1'') of Inl e \<Rightarrow> Inl e
            | Inr right \<Rightarrow> compare_values op left right location))"

definition arg_location :: "string \<Rightarrow> nat \<Rightarrow> string" where
  "arg_location location index = pointerChild location (''args/'' @ decimal index)"

fun evaluate :: "PredicateValues \<Rightarrow> Predicate \<Rightarrow> string \<Rightarrow> FrameError + bool"
  and evaluate_args ::
    "PredicateValues \<Rightarrow> LogicalOperator \<Rightarrow> string \<Rightarrow> nat \<Rightarrow> bool \<Rightarrow> Predicate list \<Rightarrow> FrameError + bool"
where
  "evaluate vals (ConstantPredicate b) location = Inr b"
| "evaluate vals (ComparisonPredicate op a b) location = evaluateComparison vals op a b location"
| "evaluate vals (PresentPredicate ref) location =
     (case resolve vals ref (pointerChild location ''arg/ref'') of Inl e \<Rightarrow> Inl e
      | Inr r \<Rightarrow> Inr (r \<noteq> None))"
| "evaluate vals (LogicalPredicate op args) location =
     (if op \<noteq> LogicalAll \<and> op \<noteq> LogicalAny then Inl (predicateFailure location)
      else if args = [] then Inl (predicateFailure location)
      else evaluate_args vals op location 0 (op = LogicalAll) args)"
| "evaluate vals (NotPredicate p) location =
     (case evaluate vals p (pointerChild location ''arg'') of Inl e \<Rightarrow> Inl e | Inr b \<Rightarrow> Inr (\<not> b))"
| "evaluate vals PredicateNil location = Inl (predicateFailure location)"
| "evaluate_args vals op location index result [] = Inr result"
| "evaluate_args vals op location index result (arg # args) =
     (case evaluate vals arg (arg_location location index) of Inl e \<Rightarrow> Inl e
      | Inr v \<Rightarrow> evaluate_args vals op location (Suc index)
          (if op = LogicalAll then result \<and> v else result \<or> v) args)"

definition EvaluatePredicate :: "Predicate \<Rightarrow> PredicateValues \<Rightarrow> string \<Rightarrow> FrameError + bool" where
  "EvaluatePredicate predicate vals location = evaluate vals predicate location"

section \<open>Reference semantics of values\<close>

text \<open>Values as mathematical objects. An object is a finite function from its member names, an
  integer literal and a literal with a fraction or an exponent are different kinds of number.\<close>

datatype dvalue = DNull | DBool bool | DString string | DInteger "rat option" | DNumber "rat option"
  | DArray "dvalue list" | DObject "string \<Rightarrow> dvalue option"

primrec denote :: "json \<Rightarrow> dvalue" where
  "denote JNull = DNull"
| "denote (JBool b) = DBool b"
| "denote (JString s) = DString s"
| "denote (JNumber l) =
     (if has_fraction_or_exponent l then DNumber (number_rat l) else DInteger (number_rat l))"
| "denote (JArray vs) = DArray (map denote vs)"
| "denote (JObject ms) = DObject (map_of (map (map_prod id denote) ms))"

text \<open>Every object holds a member name once, and every number is one that \<open>big.Rat\<close> represents.\<close>

primrec wf_json :: "json \<Rightarrow> bool" where
  "wf_json JNull = True"
| "wf_json (JBool b) = True"
| "wf_json (JString s) = True"
| "wf_json (JNumber l) = True"
| "wf_json (JArray vs) = list_all id (map wf_json vs)"
| "wf_json (JObject ms) = (wf_map ms \<and> list_all snd (map (map_prod id wf_json) ms))"

primrec numbers_ok :: "json \<Rightarrow> bool" where
  "numbers_ok JNull = True"
| "numbers_ok (JBool b) = True"
| "numbers_ok (JString s) = True"
| "numbers_ok (JNumber l) = (number_rat l \<noteq> None)"
| "numbers_ok (JArray vs) = list_all id (map numbers_ok vs)"
| "numbers_ok (JObject ms) = list_all snd (map (map_prod id numbers_ok) ms)"

lemma map_of_map_prod_id: "map_of (map (map_prod id f) ms) k = map_option f (map_of ms k)"
  by (induction ms) auto

lemma wf_map_foldl_put: "wf_map m \<Longrightarrow> wf_map (foldl (\<lambda>m (k, v). map_put k v m) m ms)"
  by (induction ms arbitrary: m) auto

lemma foldl_put_all:
  "list_all (\<lambda>e. P (snd e)) m \<Longrightarrow> list_all (\<lambda>e. P (snd e)) ms \<Longrightarrow>
   list_all (\<lambda>e. P (snd e)) (foldl (\<lambda>m (k, v). map_put k v m) m ms)"
proof (induction ms arbitrary: m)
  case (Cons e ms)
  obtain k v where e: "e = (k, v)" by (cases e)
  have "list_all (\<lambda>e. P (snd e)) (map_put k v m)"
    unfolding list_all_iff
  proof
    fix x
    assume "x \<in> set (map_put k v m)"
    then show "P (snd x)" using Cons.prems e by (cases rule: set_map_putE) (simp_all add: list_all_iff)
  qed
  with Cons e show ?case by simp
qed simp

lemma wf_any_of_json: "wf_json (any_of_json v)"
proof (induction v)
  case (JObject ms)
  have "list_all (\<lambda>e. wf_json (snd e)) (go_object (map (map_prod id any_of_json) ms))"
    unfolding go_object_def by (rule foldl_put_all) (use JObject in \<open>auto simp: list_all_iff\<close>)
  moreover have "wf_map (go_object (map (map_prod id any_of_json) ms))"
    unfolding go_object_def by (rule wf_map_foldl_put) simp
  ultimately show ?case by (simp add: list_all_iff split_beta)
qed (simp_all add: list_all_iff)

lemma go_object_get: "map_of (go_object ms) k = object_get ms k"
proof -
  have "map_of (foldl (\<lambda>m (k, v). map_put k v m) m ms) k =
    (case map_of (rev ms) k of None \<Rightarrow> map_of m k | Some v \<Rightarrow> Some v)" for m
    by (induction ms arbitrary: m) (auto simp: map_add_def split: option.splits)
  then show ?thesis by (simp add: go_object_def object_get_def split: option.splits)
qed

lemma denote_type: "denote v = denote w \<Longrightarrow> predicateValueType v = predicateValueType w"
  by (cases v; cases w) (auto split: if_splits)

lemma equal_elements_denote:
  "length xs = length ys \<Longrightarrow>
   (\<And>x y. x \<in> set xs \<Longrightarrow> y \<in> set ys \<Longrightarrow> equalPredicateValues x y = Some (denote x = denote y)) \<Longrightarrow>
   equal_elements xs ys = Some (map denote xs = map denote ys)"
proof (induction xs ys rule: list_induct2)
  case (Cons x xs y ys)
  then have "equal_elements xs ys = Some (map denote xs = map denote ys)" by simp
  with Cons.prems [of x y] show ?case by (cases "denote x = denote y") simp_all
qed simp

lemma equal_members_denote:
  "(\<And>k v w. (k, v) \<in> set ms \<Longrightarrow> map_of ns k = Some w \<Longrightarrow>
      equalPredicateValues v w = Some (denote v = denote w)) \<Longrightarrow>
   equal_members ms ns =
     Some (\<forall>(k, v) \<in> set ms. map_option denote (map_of ns k) = Some (denote v))"
proof (induction ms)
  case (Cons e ms)
  obtain k v where e: "e = (k, v)" by (cases e)
  have IH: "equal_members ms ns =
      Some (\<forall>(k, v) \<in> set ms. map_option denote (map_of ns k) = Some (denote v))"
    using Cons.prems by (intro Cons.IH) auto
  show ?case
  proof (cases "map_of ns k")
    case (Some w)
    with Cons.prems [of k v w] e have "equalPredicateValues v w = Some (denote v = denote w)" by simp
    with Some IH e show ?thesis by (cases "denote v = denote w") auto
  qed (simp add: e)
qed simp

lemma denote_objects:
  assumes "wf_map ms" and "wf_map ns" and "length ms = length ns"
  shows "denote (JObject ms) = denote (JObject ns) \<longleftrightarrow>
    (\<forall>(k, v) \<in> set ms. map_option denote (map_of ns k) = Some (denote v))" (is "?l \<longleftrightarrow> ?r")
proof
  assume ?l
  then have "map_option denote (map_of ns k) = map_option denote (map_of ms k)" for k
    by (simp add: map_of_map_prod_id fun_eq_iff)
  then show ?r using assms(1) by (auto simp: wf_map_map_of simp del: map_option_eq_Some)
next
  assume r: ?r
  have sub: "fst ` set ms \<subseteq> fst ` set ns"
    using r by (force simp: map_of_eq_None_iff dest: map_of_SomeD)
  have "card (fst ` set ms) = card (fst ` set ns)"
    using assms by (simp add: wf_map_def distinct_card flip: set_map)
  then have dom: "fst ` set ms = fst ` set ns" using sub by (simp add: card_subset_eq)
  have "map_option denote (map_of ms k) = map_option denote (map_of ns k)" for k
  proof (cases "map_of ms k")
    case None
    then have "map_of ns k = None" using dom by (simp add: map_of_eq_None_iff)
    with None show ?thesis by simp
  next
    case (Some v)
    then have "(k, v) \<in> set ms" by (rule map_of_SomeD)
    with r Some show ?thesis by auto
  qed
  then show ?l by (simp add: map_of_map_prod_id fun_eq_iff)
qed

lemma denote_objects_length:
  assumes "wf_map ms" and "wf_map ns" and "denote (JObject ms) = denote (JObject ns)"
  shows "length ms = length ns"
proof -
  have "has_key ms k \<longleftrightarrow> has_key ns k" for k
  proof -
    have "map_option denote (map_of ms k) = map_option denote (map_of ns k)"
      using assms(3) by (simp add: map_of_map_prod_id fun_eq_iff)
    then show ?thesis unfolding has_key_def by (metis option.map_disc_iff)
  qed
  then have "fst ` set ms = fst ` set ns" by (auto simp: has_key_fst)
  then show ?thesis
    using assms(1,2) by (simp add: wf_map_def) (metis distinct_card length_map set_map)
qed

lemma equal_array_denote:
  assumes "\<And>x y. x \<in> set xs \<Longrightarrow> y \<in> set ys \<Longrightarrow> equalPredicateValues x y = Some (denote x = denote y)"
  shows "equalPredicateValues (JArray xs) (JArray ys) = Some (denote (JArray xs) = denote (JArray ys))"
proof (cases "length xs = length ys")
  case True
  with equal_elements_denote [OF True assms] show ?thesis
    by (simp add: equalPredicateValues.simps)
next
  case False
  then have "map denote xs \<noteq> map denote ys" using map_eq_imp_length_eq by blast
  with False show ?thesis by (simp add: equalPredicateValues.simps)
qed

lemma equal_object_denote:
  assumes "wf_map ms" and "wf_map ns"
    and "\<And>k v w. (k, v) \<in> set ms \<Longrightarrow> map_of ns k = Some w \<Longrightarrow>
      equalPredicateValues v w = Some (denote v = denote w)"
  shows "equalPredicateValues (JObject ms) (JObject ns) = Some (denote (JObject ms) = denote (JObject ns))"
proof (cases "length ms = length ns")
  case True
  with equal_members_denote [of ms ns, OF assms(3)] denote_objects [OF assms(1,2) True]
  show ?thesis by (simp add: equalPredicateValues.simps del: denote.simps)
next
  case False
  with denote_objects_length [OF assms(1,2)]
  have "denote (JObject ms) \<noteq> denote (JObject ns)" by blast
  with False show ?thesis by (simp add: equalPredicateValues.simps del: denote.simps)
qed

lemma equalPredicateValues_type:
  "predicateValueType v \<noteq> predicateValueType w \<Longrightarrow> equalPredicateValues v w = Some (denote v = denote w)"
  using denote_type [of v w] by (auto simp: equalPredicateValues.simps)

lemma equal_number_denote:
  assumes "number_rat a \<noteq> None" and "number_rat b \<noteq> None"
  shows "equalPredicateValues (JNumber a) (JNumber b) = Some (denote (JNumber a) = denote (JNumber b))"
  using assms by (auto simp: equalPredicateValues.simps equalPredicateNumbers_def value_type_defs)

lemma wf_json_object [simp]:
  "wf_json (JObject ms) \<longleftrightarrow> wf_map ms \<and> (\<forall>(k, v) \<in> set ms. wf_json v)"
  by (auto simp: list_all_iff)

lemma numbers_ok_object [simp]: "numbers_ok (JObject ms) \<longleftrightarrow> (\<forall>(k, v) \<in> set ms. numbers_ok v)"
  by (auto simp: list_all_iff)

declare wf_json.simps(6) [simp del] numbers_ok.simps(6) [simp del]

lemma type_tags_distinct [simp]:
  "distinct [ValueNull, ValueBoolean, ValueInteger, ValueNumber, ValueString, ValueArray, ValueObject]"
  by (simp add: value_type_defs)

lemma same_kind_cases:
  assumes "predicateValueType v = predicateValueType w"
  obtains "v = JNull" "w = JNull" | a b where "v = JBool a" "w = JBool b"
  | a b where "v = JString a" "w = JString b" | a b where "v = JNumber a" "w = JNumber b"
  | xs ys where "v = JArray xs" "w = JArray ys" | ms ns where "v = JObject ms" "w = JObject ns"
  using assms by (cases v; cases w) (auto simp: value_type_defs split: if_splits)

text \<open>C10: On decoded values (each object holds a key once, each number is one that \<open>big.Rat\<close>
  represents) the equality test of \<open>eq\<close> and \<open>ne\<close> never fails and decides equality of the values
  as mathematical objects: objects as finite functions, so neither the order of members in the text
  nor Go's map iteration order matters, and numbers as rationals, an integer literal and a literal
  with fraction or exponent being different.\<close>

theorem equalPredicateValues_denote:
  assumes "wf_json v" and "wf_json w" and "numbers_ok v" and "numbers_ok w"
  shows "equalPredicateValues v w = Some (denote v = denote w)"
  using assms
proof (induction "size v" arbitrary: v w rule: less_induct)
  case less
  show ?case
  proof (cases "predicateValueType v = predicateValueType w")
    case True
    then show ?thesis
    proof (cases rule: same_kind_cases)
      case (4 a b)
      with less.prems show ?thesis by (simp add: equal_number_denote)
    next
      case (5 xs ys)
      have "equalPredicateValues x y = Some (denote x = denote y)" if "x \<in> set xs" "y \<in> set ys" for x y
        using that less.prems 5 size_list_estimation' [of x xs "size x" size]
        by (intro less.hyps) (auto simp: list_all_iff less_Suc_eq_le)
      then show ?thesis using 5 equal_array_denote by blast
    next
      case (6 ms ns)
      have "equalPredicateValues x y = Some (denote x = denote y)"
        if "(k, x) \<in> set ms" "map_of ns k = Some y" for k x y
        using that less.prems 6 size_list_estimation' [of "(k, x)" ms "size x" "size_prod (\<lambda>_. 0) size"]
        by (intro less.hyps) (auto simp: less_Suc_eq_le dest!: map_of_SomeD)
      with less.prems 6 show ?thesis using equal_object_denote by simp
    qed (simp_all add: equalPredicateValues.simps)
  next
    case False
    then show ?thesis by (rule equalPredicateValues_type)
  qed
qed

theorem equalPredicateValues_denote_witness:
  "equalPredicateValues (JObject [(''a'', JNumber ''1''), (''b'', JArray [JNumber ''10e-1''])])
     (JObject [(''b'', JArray [JNumber ''1.0'']), (''a'', JNumber ''1'')]) = Some True"
proof -
  have "equalPredicateValues (JObject [(''a'', JNumber ''1''), (''b'', JArray [JNumber ''10e-1''])])
     (JObject [(''b'', JArray [JNumber ''1.0'']), (''a'', JNumber ''1'')]) =
     Some (denote (JObject [(''a'', JNumber ''1''), (''b'', JArray [JNumber ''10e-1''])]) =
       denote (JObject [(''b'', JArray [JNumber ''1.0'']), (''a'', JNumber ''1'')]))"
    by (rule equalPredicateValues_denote) code_simp+
  also have "\<dots> = Some True"
  proof -
    have "number_rat ''10e-1'' = number_rat ''1.0''" by code_simp
    then show ?thesis by (simp add: has_fraction_or_exponent_def fun_upd_twist)
  qed
  finally show ?thesis .
qed

section \<open>Logical operators\<close>

fun first_error :: "('e + 'a) list \<Rightarrow> 'e option" where
  "first_error [] = None"
| "first_error (Inl e # rs) = Some e"
| "first_error (Inr _ # rs) = first_error rs"

text \<open>What each argument evaluates to, at its own location.\<close>

definition arg_results :: "PredicateValues \<Rightarrow> string \<Rightarrow> nat \<Rightarrow> Predicate list \<Rightarrow> (FrameError + bool) list" where
  "arg_results vals location index args =
     map2 (\<lambda>i a. evaluate vals a (arg_location location i)) [index..<index + length args] args"

lemma arg_results_simps [simp]:
  "arg_results vals location index [] = []"
  "arg_results vals location index (a # args) =
     evaluate vals a (arg_location location index) # arg_results vals location (Suc index) args"
  by (simp_all add: arg_results_def upt_conv_Cons del: upt_Suc)

lemma evaluate_args_results:
  assumes "op = LogicalAll \<or> op = LogicalAny"
  shows "evaluate_args vals op location index result args =
    (case first_error (arg_results vals location index args) of Some e \<Rightarrow> Inl e
     | None \<Rightarrow> Inr (if op = LogicalAll
         then result \<and> list_all (\<lambda>r. r = Inr True) (arg_results vals location index args)
         else result \<or> list_ex (\<lambda>r. r = Inr True) (arg_results vals location index args)))"
  using assms
proof (induction args arbitrary: index result)
  case (Cons a args)
  then show ?case
    by (cases "evaluate vals a (arg_location location index)") (auto split: option.splits)
qed auto

text \<open>A logical predicate evaluates all of its arguments (it does not stop at a deciding one):
  it fails with the error of the first failing argument in authored order, and otherwise \<open>all\<close> is
  the conjunction and \<open>any\<close> the disjunction of the arguments.\<close>

theorem EvaluatePredicate_logical:
  assumes "args \<noteq> []" and "op = LogicalAll \<or> op = LogicalAny"
  shows "EvaluatePredicate (LogicalPredicate op args) vals location =
    (case first_error (arg_results vals location 0 args) of Some e \<Rightarrow> Inl e
     | None \<Rightarrow> Inr (if op = LogicalAll
         then list_all (\<lambda>r. r = Inr True) (arg_results vals location 0 args)
         else list_ex (\<lambda>r. r = Inr True) (arg_results vals location 0 args)))"
  using assms by (auto simp: EvaluatePredicate_def evaluate_args_results split: option.splits)

theorem EvaluatePredicate_logical_witness:
  "EvaluatePredicate (LogicalPredicate LogicalAny [ConstantPredicate True, PredicateNil])
     \<lparr>pv_outputs = [], pv_inputs = [], pv_run_inputs = []\<rparr> ''/when'' =
   Inl \<lparr>frame_error_code = ''RUN_PREDICATE_INVALID'', frame_error_location = ''/when/args/1'',
     frame_error_transition = []\<rparr>"
proof -
  have "decimal 1 = ''1''" by code_simp
  then show ?thesis
    by (subst EvaluatePredicate_logical)
       (simp_all add: predicateFailure_def RunPredicateInvalid_def arg_location_def pointerChild_def
          TrimSuffixSlash_def)
qed

section \<open>Comparison operators\<close>

fun negated :: "ComparisonOperator \<Rightarrow> ComparisonOperator" where
  "negated CompareEqual = CompareNotEqual"
| "negated CompareNotEqual = CompareEqual"
| "negated CompareLess = CompareGreaterOrEqual"
| "negated CompareLessOrEqual = CompareGreater"
| "negated CompareGreater = CompareLessOrEqual"
| "negated CompareGreaterOrEqual = CompareLess"
| "negated (CompareUnknown s) = CompareUnknown s"

fun mirrored :: "ComparisonOperator \<Rightarrow> ComparisonOperator" where
  "mirrored CompareLess = CompareGreater"
| "mirrored CompareLessOrEqual = CompareGreaterOrEqual"
| "mirrored CompareGreater = CompareLess"
| "mirrored CompareGreaterOrEqual = CompareLessOrEqual"
| "mirrored op = op"

lemma compare_mirror:
  "comparePredicateValues w v = (case comparePredicateValues v w of Ordered k \<Rightarrow> Ordered (- k) | c \<Rightarrow> c)"
  by (cases v; cases w) (auto simp: cmp_def split: option.splits)

lemma compare_values_negated:
  "validComparisonOperator op \<Longrightarrow>
   compare_values (negated op) v w location = map_sum id Not (compare_values op v w location)"
  by (cases op) (auto simp: compare_values_def split: option.splits comparison.splits)

text \<open>The six comparison operators are complementary pairs (\<open>eq\<close>/\<open>ne\<close>, \<open>lt\<close>/\<open>gte\<close>,
  \<open>lte\<close>/\<open>gt\<close>): on the same operands the two of a pair fail with the same error or return
  opposite results.\<close>

theorem evaluateComparison_negated:
  "evaluateComparison vals (negated op) a b location =
     map_sum id Not (evaluateComparison vals op a b location)"
proof -
  have "validComparisonOperator (negated op) = validComparisonOperator op" by (cases op) simp_all
  then show ?thesis
    by (auto simp: evaluateComparison_def compare_values_negated split: sum.splits)
qed

text \<open>The order comparisons are mirror images: exchanging the two values and the direction of
  the operator gives the same result, or the same failure.\<close>

lemma compare_values_mirrored:
  assumes "op \<noteq> CompareEqual" and "op \<noteq> CompareNotEqual" and "validComparisonOperator op"
  shows "compare_values (mirrored op) w v location = compare_values op v w location"
proof -
  have m: "comparePredicateValues w v = (case comparePredicateValues v w of Ordered k \<Rightarrow> Ordered (- k) | c \<Rightarrow> c)"
    by (rule compare_mirror)
  show ?thesis using assms unfolding compare_values_def m
    by (cases op) (simp_all split: comparison.split)
qed

section \<open>Failure locations\<close>

definition below :: "string \<Rightarrow> string \<Rightarrow> bool" where
  "below location l \<longleftrightarrow> (\<exists>t. l = TrimSuffixSlash location @ t)"

lemma below_refl: "below location location"
  by (auto simp: below_def TrimSuffixSlash_def intro: exI [of _ "[CHR ''/'']"] append_butlast_last_id [symmetric])

lemma below_child: "c \<noteq> [] \<Longrightarrow> last c \<noteq> CHR ''/'' \<Longrightarrow> below (pointerChild location c) l \<Longrightarrow> below location l"
  by (auto simp: below_def pointerChild_def TrimSuffixSlash_def split: if_splits)

lemma decimal_end: "decimal n \<noteq> [] \<and> is_digit (last (decimal n))"
  by (subst decimal.simps) (auto simp: decimal.simps [of n] is_digit_def between_def)

definition failure_below :: "string \<Rightarrow> FrameError \<Rightarrow> bool" where
  "failure_below location e \<longleftrightarrow> (\<exists>l. e = predicateFailure l \<and> below location l)"

lemma failure_below_refl [simp]: "failure_below location (predicateFailure location)"
  by (auto simp: failure_below_def below_refl)

lemma failure_below_child:
  "failure_below (pointerChild location c) e \<Longrightarrow> c \<noteq> [] \<Longrightarrow> last c \<noteq> CHR ''/'' \<Longrightarrow> failure_below location e"
  by (auto simp: failure_below_def intro: below_child)

lemma failure_below_arg: "failure_below (arg_location location i) e \<Longrightarrow> failure_below location e"
proof -
  have "last (decimal i) \<noteq> CHR ''/''" using decimal_end [of i] by (auto simp: is_digit_def between_def)
  then show "failure_below (arg_location location i) e \<Longrightarrow> failure_below location e"
    using decimal_end [of i] unfolding arg_location_def by (auto intro: failure_below_child)
qed

lemma decode_failure: "decodePredicateValue raw l = Inl e \<Longrightarrow> e = predicateFailure l"
  by (auto simp: decodePredicateValue_def split: option.splits)

lemma resolve_failure: "resolve vals ref l = Inl e \<Longrightarrow> e = predicateFailure l"
  by (auto simp: resolve_def resolve_in_def Let_def
      split: if_splits option.splits sum.splits dest: decode_failure)

lemma operand_failure: "operand vals x l = Inl e \<Longrightarrow> failure_below l e"
  by (cases x) (auto split: sum.splits option.splits dest!: resolve_failure decode_failure
      intro: failure_below_child [of l "''ref''"])

lemma compare_values_failure: "compare_values op v w l = Inl e \<Longrightarrow> e = predicateFailure l"
  by (auto simp: compare_values_def split: if_splits option.splits comparison.splits)

lemma comparison_failure: "evaluateComparison vals op a b l = Inl e \<Longrightarrow> failure_below l e"
  by (auto simp: evaluateComparison_def split: if_splits sum.splits
      dest!: compare_values_failure operand_failure
      intro: failure_below_child [of l "''args/0''"] failure_below_child [of l "''args/1''"])

lemma evaluate_failure:
  "evaluate vals p l = Inl e \<Longrightarrow> failure_below l e"
  "evaluate_args vals op l i r args = Inl e \<Longrightarrow> failure_below l e"
proof (induction vals p l and vals op l i r args arbitrary: e and e
    rule: evaluate_evaluate_args.induct)
  case (3 vals ref l)
  then show ?case by (auto split: sum.splits dest!: resolve_failure
        intro!: failure_below_child [of l "''arg/ref''"])
next
  case (5 vals p l)
  then show ?case by (auto split: sum.splits intro!: failure_below_child [of l "''arg''"])
next
  case (8 vals op l i r a args)
  then show ?case by (auto split: sum.splits dest: failure_below_arg)
qed (auto split: if_splits dest: comparison_failure)

text \<open>Every failure of an evaluation carries the code \<open>RUN_PREDICATE_INVALID\<close> and a location
  that is the given JSON Pointer or lies below it.\<close>

theorem EvaluatePredicate_failure:
  assumes "EvaluatePredicate p vals location = Inl e"
  shows "frame_error_code e = RunPredicateInvalid \<and> below location (frame_error_location e)"
  using evaluate_failure(1) [of vals p location e] assms
  by (auto simp: EvaluatePredicate_def failure_below_def predicateFailure_def)

theorem EvaluatePredicate_failure_witness:
  "below ''/when'' ''/when/arg/ref''"
proof -
  let ?v = "\<lparr>pv_outputs = [], pv_inputs = [], pv_run_inputs = []\<rparr>"
  have "EvaluatePredicate (PresentPredicate ''result'') ?v ''/when'' = Inl (predicateFailure ''/when/arg/ref'')"
    by (simp add: EvaluatePredicate_def resolve_def pointerChild_def TrimSuffixSlash_def)
  then show ?thesis using EvaluatePredicate_failure by (fastforce simp: predicateFailure_def)
qed

end
