(* ===== verification/Frame.thy ===== *)
theory Frame
  imports Route Predicates
begin

text \<open>
  Execution frames (\<open>core/workflow/frame.go\<close>): the control-flow state of one workflow invocation.
  A frame holds its frozen route, its inputs, the tokens of the transitions it fired and, derived
  from them, how often each bounded transition was traversed. Tokens are keyed by source visit,
  transition and join epoch; firing with a key that has a token is a replay. \<open>Snapshot\<close> and
  \<open>RestoreFrame\<close> persist a frame, \<open>StartSubworkflow\<close> opens an isolated child frame.

  The mutex of a frame makes every operation atomic: an operation is a function from the frame to
  the new frame. \<open>uint16\<close> counters are 16-bit words. The one loop whose counter can wrap, over the
  ordinals of a restored snapshot, is a partial function into an option, where None means that it
  does not return.
\<close>

section \<open>State\<close>

record WorkflowIdentity =
  identity_name :: string
  identity_version :: string
  identity_digest :: string

datatype FrameOrigin = RootFrameOrigin string | ChildFrameOrigin string string

record TransitionTokenKey =
  SourceVisitID :: string
  token_transition_id :: Identifier
  JoinEpoch :: uint64

datatype TransitionTokenKind = TransitionTokenNormal | TransitionTokenBounded | TransitionTokenUnknown string

record TransitionToken =
  token_key :: TransitionTokenKey
  token_source :: Identifier
  token_target :: Identifier
  token_kind :: TransitionTokenKind
  Traversal :: uint16
  token_max_traversals :: uint16

record FrameSnapshot =
  snapshot_id :: string
  snapshot_workflow :: WorkflowIdentity
  snapshot_origin :: FrameOrigin
  snapshot_route :: Route
  snapshot_inputs :: "raw_message gomap"
  snapshot_tokens :: "TransitionToken list"
  snapshot_ancestry :: "WorkflowIdentity list"

record Frame =
  frame_id :: string
  frame_workflow :: WorkflowIdentity
  frame_origin :: FrameOrigin
  frame_route :: Route
  frame_inputs :: "raw_message gomap"
  frame_tokens :: "(TransitionTokenKey \<times> TransitionToken) list"
  frame_traversals :: "uint16 gomap"
  frame_ancestry :: "WorkflowIdentity list"

record LoadedDefinition =
  loaded_document :: Document
  CanonicalJSON :: raw_message
  loaded_digest :: string
  SourceScope :: string
  SourceRef :: string

text \<open>The errors: a \<open>FrameError\<close> with its code and location, or one of the plain errors.\<close>

datatype frame_failure = Failure FrameError | RunIDRequired | ParentVisitRequired | FrameIDRequired
  | IdentityInvalid | RouteInvalid | OriginInvalid | AncestryInvalid | InputInvalid
  | SourceVisitRequired | TransitionNotEnabled | TokenConflict | TokenInvalid | TokenOutsideRoute
  | TokenFieldsInvalid | OrdinalReused | LimitChanged | TokenDuplicate | OrdinalGap

definition frame_error :: "string \<Rightarrow> string \<Rightarrow> frame_failure" where
  "frame_error code location = Failure \<lparr>frame_error_code = code, frame_error_location = location,
     frame_error_transition = []\<rparr>"

definition RunLoopLimitExhausted :: string where "RunLoopLimitExhausted = ''RUN_LOOP_LIMIT_EXHAUSTED''"
definition RunInputRequired :: string where "RunInputRequired = ''RUN_INPUT_REQUIRED''"
definition RunOutputInvalid :: string where "RunOutputInvalid = ''RUN_OUTPUT_INVALID''"
definition WorkflowReferenceError :: string where "WorkflowReferenceError = ''WF_REFERENCE_MISSING''"
definition WorkflowRecursionError :: string where "WorkflowRecursionError = ''WF_SUBWORKFLOW_RECURSION''"

section \<open>Validation of a frame's parts\<close>

definition workflowIdentity :: "LoadedDefinition \<Rightarrow> WorkflowIdentity" where
  "workflowIdentity definition = \<lparr>identity_name = metadata_name (document_metadata (loaded_document definition)),
     identity_version = metadata_version (document_metadata (loaded_document definition)),
     identity_digest = loaded_digest definition\<rparr>"

definition validatePinnedReference :: "WorkflowReference \<Rightarrow> WorkflowIdentity \<Rightarrow> frame_failure option" where
  "validatePinnedReference reference identity =
     (if workflow_name reference \<noteq> identity_name identity \<or> workflow_version reference \<noteq> identity_version identity \<or>
         (workflow_digest reference \<noteq> '''' \<and> workflow_digest reference \<noteq> identity_digest identity)
      then Some (frame_error WorkflowReferenceError ''/call/workflow'') else None)"

fun validateFrameOrigin :: "FrameOrigin \<Rightarrow> frame_failure option" where
  "validateFrameOrigin (RootFrameOrigin runID) = (if blank runID then Some OriginInvalid else None)"
| "validateFrameOrigin (ChildFrameOrigin parentFrameID parentVisitID) =
     (if blank parentFrameID \<or> blank parentVisitID then Some OriginInvalid else None)"

definition installed_identity :: "WorkflowIdentity \<Rightarrow> bool" where
  "installed_identity identity \<longleftrightarrow> identity_name identity \<noteq> '''' \<and> identity_version identity \<noteq> '''' \<and>
     digestPattern (identity_digest identity)"

fun ancestry_loop :: "WorkflowIdentity set \<Rightarrow> WorkflowIdentity list \<Rightarrow> frame_failure option" where
  "ancestry_loop seen [] = None"
| "ancestry_loop seen (identity # rest) =
     (if \<not> installed_identity identity \<or> identity \<in> seen then Some AncestryInvalid
      else ancestry_loop (insert identity seen) rest)"

definition validateFrameAncestry ::
  "FrameOrigin \<Rightarrow> WorkflowIdentity \<Rightarrow> WorkflowIdentity list \<Rightarrow> frame_failure option" where
  "validateFrameAncestry origin current ancestry =
     (case origin of
        RootFrameOrigin _ \<Rightarrow> if ancestry \<noteq> [] then Some AncestryInvalid else ancestry_loop {current} ancestry
      | ChildFrameOrigin _ _ \<Rightarrow> if ancestry = [] then Some AncestryInvalid else ancestry_loop {current} ancestry)"

definition sameWorkflow :: "WorkflowIdentity \<Rightarrow> WorkflowIdentity \<Rightarrow> bool" where
  "sameWorkflow left right \<longleftrightarrow> identity_name left = identity_name right \<and>
     identity_version left = identity_version right \<and> identity_digest left = identity_digest right"

text \<open>A copy keeps every field but \<open>Assessment\<close>, which the copy leaves empty.\<close>

definition cloneRoute :: "Route \<Rightarrow> Route" where
  "cloneRoute route = \<lparr>route_assessment = [], route_entry = route_entry route,
     route_terminals = route_terminals route,
     route_nodes = map (\<lambda>node. \<lparr>route_node_id = route_node_id node,
       route_node_join = map_option (\<lambda>j. \<lparr>join_mode = join_mode j, join_from = join_from j\<rparr>) (route_node_join node)\<rparr>)
       (route_nodes route),
     route_transitions = route_transitions route, ExcludedNodes = ExcludedNodes route,
     InputRequirements = InputRequirements route\<rparr>"

fun transitions_loop :: "Identifier set \<Rightarrow> RouteTransition list \<Rightarrow> frame_failure option" where
  "transitions_loop seen [] = None"
| "transitions_loop seen (t # ts) =
     (if route_transition_id t = '''' \<or> route_transition_from t = '''' \<or> route_transition_to t = '''' \<or>
         route_transition_id t \<in> seen then Some RouteInvalid
      else transitions_loop (insert (route_transition_id t) seen) ts)"

definition validateFrozenRoute :: "Route \<Rightarrow> frame_failure option" where
  "validateFrozenRoute route = (if route_entry route = '''' \<or> route_terminals route = [] then Some RouteInvalid
     else transitions_loop {} (route_transitions route))"

definition findRouteTransition :: "RouteTransition list \<Rightarrow> Identifier \<Rightarrow> RouteTransition option" where
  "findRouteTransition transitions i = find (\<lambda>t. route_transition_id t = i) transitions"

definition sameIdentifierSet :: "Identifier list \<Rightarrow> Identifier list \<Rightarrow> bool" where
  "sameIdentifierSet left right \<longleftrightarrow> length left = length right \<and> sort left = sort right"

definition cloneRawMessages :: "raw_message gomap \<Rightarrow> frame_failure + raw_message gomap" where
  "cloneRawMessages m = (if list_all (\<lambda>(name, value). json_valid value) m then Inr m else Inl InputInvalid)"

definition mustCloneRawMessages :: "raw_message gomap \<Rightarrow> raw_message gomap" where
  "mustCloneRawMessages m = (case cloneRawMessages m of Inr r \<Rightarrow> r | Inl _ \<Rightarrow> [])"

fun tokenMatchesTransition :: "TransitionToken \<Rightarrow> Transition \<Rightarrow> bool" where
  "tokenMatchesTransition token (NormalTransition c) \<longleftrightarrow> token_kind token = TransitionTokenNormal \<and>
     Traversal token = 0 \<and> token_max_traversals token = 0"
| "tokenMatchesTransition token (BoundedTransition c maximum) \<longleftrightarrow> token_kind token = TransitionTokenBounded \<and>
     0 < Traversal token \<and> token_max_traversals token = maximum"

definition rawMessageHasType :: "raw_message \<Rightarrow> ValueType \<Rightarrow> bool" where
  "rawMessageHasType raw want = (case json_parse raw of None \<Rightarrow> False
     | Some decoded \<Rightarrow>
        (let w = StorageType want in
         if w = ValueNull then decoded = JNull
         else if w = ValueBoolean then (case decoded of JBool _ \<Rightarrow> True | _ \<Rightarrow> False)
         else if w = ValueInteger then (case decoded of JNumber n \<Rightarrow> parse_int64 n \<noteq> None | _ \<Rightarrow> False)
         else if w = ValueNumber then (case decoded of JNumber _ \<Rightarrow> True | _ \<Rightarrow> False)
         else if w = ValueString then (case decoded of JString _ \<Rightarrow> True | _ \<Rightarrow> False)
         else if w = ValueArray then (case decoded of JArray _ \<Rightarrow> True | _ \<Rightarrow> False)
         else if w = ValueObject then (case decoded of JObject _ \<Rightarrow> True | _ \<Rightarrow> False)
         else False))"

definition parseNodeOutputSource :: "string \<Rightarrow> (Identifier \<times> Identifier) option" where
  "parseNodeOutputSource source =
     (let parts = split_on (CHR ''.'') source in
      if length parts \<noteq> 4 \<or> parts ! 0 \<noteq> ''node'' \<or> parts ! 2 \<noteq> ''output'' \<or> parts ! 1 = '''' \<or> parts ! 3 = ''''
      then None else Some (parts ! 1, parts ! 3))"

section \<open>Creation\<close>

definition newFrame ::
  "string \<Rightarrow> WorkflowIdentity \<Rightarrow> FrameOrigin \<Rightarrow> Route \<Rightarrow> raw_message gomap \<Rightarrow> WorkflowIdentity list \<Rightarrow>
   frame_failure + Frame" where
  "newFrame i identity origin route inputs ancestry =
     (if blank i then Inl FrameIDRequired
      else if \<not> installed_identity identity then Inl IdentityInvalid
      else case validateFrozenRoute route of Some e \<Rightarrow> Inl e | None \<Rightarrow>
       (case validateFrameOrigin origin of Some e \<Rightarrow> Inl e | None \<Rightarrow>
       (case validateFrameAncestry origin identity ancestry of Some e \<Rightarrow> Inl e | None \<Rightarrow>
       (case cloneRawMessages inputs of Inl e \<Rightarrow> Inl e | Inr copied \<Rightarrow>
         Inr \<lparr>frame_id = i, frame_workflow = identity, frame_origin = origin, frame_route = cloneRoute route,
              frame_inputs = copied, frame_tokens = [], frame_traversals = [], frame_ancestry = ancestry\<rparr>))))"

definition NewRootFrame ::
  "string \<Rightarrow> string \<Rightarrow> LoadedDefinition \<Rightarrow> Route \<Rightarrow> raw_message gomap \<Rightarrow> frame_failure + Frame" where
  "NewRootFrame i runID definition route inputs =
     (if blank runID then Inl RunIDRequired
      else newFrame i (workflowIdentity definition) (RootFrameOrigin runID) route inputs [])"

text \<open>One pass over the call's inputs; the list is in the order in which the loop meets them.\<close>

fun child_inputs ::
  "ValueDeclaration gomap \<Rightarrow> raw_message gomap \<Rightarrow> Identifier gomap \<Rightarrow> raw_message gomap \<Rightarrow>
   frame_failure + raw_message gomap" where
  "child_inputs declared parentInputs [] acc = Inr acc"
| "child_inputs declared parentInputs ((childName, parentName) # rest) acc =
     (case map_of parentInputs parentName of
        None \<Rightarrow> Inl (frame_error RunInputRequired (''/call/inputs/'' @ childName))
      | Some v \<Rightarrow> (case map_of declared childName of
          None \<Rightarrow> Inl (frame_error WorkflowReferenceError (''/call/inputs/'' @ childName))
        | Some declaration \<Rightarrow>
            if \<not> rawMessageHasType v (input_type declaration)
            then Inl (frame_error RunInputRequired (''/call/inputs/'' @ childName))
            else child_inputs declared parentInputs rest (map_put childName v acc)))"

definition StartSubworkflow ::
  "Frame \<Rightarrow> string \<Rightarrow> string \<Rightarrow> SubworkflowCall \<Rightarrow> LoadedDefinition \<Rightarrow> Route \<Rightarrow> raw_message gomap \<Rightarrow>
   frame_failure + Frame" where
  "StartSubworkflow parent i parentVisitID call child route parentInputs =
     (let identity = workflowIdentity child; ancestry = frame_ancestry parent @ [frame_workflow parent];
          declared = spec_inputs (document_spec (loaded_document child)) in
      if blank parentVisitID then Inl ParentVisitRequired
      else case validatePinnedReference (call_workflow call) identity of Some e \<Rightarrow> Inl e | None \<Rightarrow>
       (if route_entry route \<noteq> call_entry call \<or> \<not> sameIdentifierSet (route_terminals route) (call_terminals call)
        then Inl (frame_error WorkflowReferenceError ''/call'')
        else if \<exists>ancestor \<in> set ancestry. sameWorkflow ancestor identity
        then Inl (frame_error WorkflowRecursionError ''/call/workflow'')
        else case child_inputs declared parentInputs (call_inputs call) [] of Inl e \<Rightarrow> Inl e | Inr inputs \<Rightarrow>
          (if \<exists>childName \<in> set (map fst declared). \<not> has_key inputs childName
           then Inl (frame_error RunInputRequired ''/call/inputs'')
           else newFrame i identity (ChildFrameOrigin (frame_id parent) parentVisitID) route inputs ancestry)))"

section \<open>Firing a transition\<close>

definition TraversalCount :: "Frame \<Rightarrow> Identifier \<Rightarrow> uint16" where
  "TraversalCount frame i = (case map_of (frame_traversals frame) i of None \<Rightarrow> 0 | Some n \<Rightarrow> n)"

definition new_token :: "TransitionTokenKey \<Rightarrow> Identifier \<Rightarrow> Identifier \<Rightarrow> TransitionTokenKind \<Rightarrow> uint16 \<Rightarrow> uint16 \<Rightarrow> TransitionToken" where
  "new_token key source target kind traversal maximum = \<lparr>token_key = key, token_source = source,
     token_target = target, token_kind = kind, Traversal = traversal, token_max_traversals = maximum\<rparr>"

definition FireTransition ::
  "Frame \<Rightarrow> string \<Rightarrow> Identifier \<Rightarrow> uint64 \<Rightarrow> Transition \<Rightarrow> frame_failure + (TransitionToken \<times> bool \<times> Frame)" where
  "FireTransition frame sourceVisitID sourceNodeID joinEpoch transition =
     (if blank sourceVisitID then Inl SourceVisitRequired
      else case findRouteTransition (route_transitions (frame_route frame)) (transition_id transition) of
        None \<Rightarrow> Inl TransitionNotEnabled
      | Some rt \<Rightarrow>
          if route_transition_from rt \<noteq> sourceNodeID \<or> route_transition_to rt \<noteq> Target transition
          then Inl TransitionNotEnabled
          else let key = \<lparr>SourceVisitID = sourceVisitID, token_transition_id = transition_id transition,
                          JoinEpoch = joinEpoch\<rparr> in
            case map_of (frame_tokens frame) key of
              Some token \<Rightarrow>
                if token_source token \<noteq> sourceNodeID \<or> token_target token \<noteq> Target transition \<or>
                   \<not> tokenMatchesTransition token transition
                then Inl TokenConflict else Inr (token, True, frame)
            | None \<Rightarrow>
                (case transition of
                   NormalTransition _ \<Rightarrow>
                     let token = new_token key sourceNodeID (Target transition) TransitionTokenNormal 0 0 in
                     Inr (token, False, frame\<lparr>frame_tokens := map_put key token (frame_tokens frame)\<rparr>)
                 | BoundedTransition _ maximum \<Rightarrow>
                     let used = TraversalCount frame (transition_id transition) in
                     if used \<ge> maximum
                     then Inl (Failure \<lparr>frame_error_code = RunLoopLimitExhausted,
                       frame_error_location = ''/transitions'', frame_error_transition = transition_id transition\<rparr>)
                     else let token = new_token key sourceNodeID (Target transition) TransitionTokenBounded
                                (used + 1) maximum in
                       Inr (token, False, frame\<lparr>frame_tokens := map_put key token (frame_tokens frame),
                         frame_traversals := map_put (transition_id transition) (used + 1) (frame_traversals frame)\<rparr>)))"

section \<open>Snapshots\<close>

definition token_order :: "TransitionToken \<Rightarrow> string \<times> Identifier \<times> uint64" where
  "token_order t = (SourceVisitID (token_key t), token_transition_id (token_key t), JoinEpoch (token_key t))"

definition Snapshot :: "Frame \<Rightarrow> FrameSnapshot" where
  "Snapshot frame = \<lparr>snapshot_id = frame_id frame, snapshot_workflow = frame_workflow frame,
     snapshot_origin = frame_origin frame, snapshot_route = cloneRoute (frame_route frame),
     snapshot_inputs = mustCloneRawMessages (frame_inputs frame),
     snapshot_tokens = sort_key token_order (map snd (frame_tokens frame)),
     snapshot_ancestry = frame_ancestry frame\<rparr>"

text \<open>The state of the loop over the tokens of a snapshot: the tokens restored so far, the ordinals
  seen of each bounded transition, its limit and its highest ordinal.\<close>

record restore_state =
  restored_tokens :: "(TransitionTokenKey \<times> TransitionToken) list"
  seenTraversals :: "(Identifier \<times> uint16) set"
  limits :: "uint16 gomap"
  derived :: "uint16 gomap"

definition count_of :: "uint16 gomap \<Rightarrow> Identifier \<Rightarrow> uint16" where
  "count_of m i = (case map_of m i of None \<Rightarrow> 0 | Some n \<Rightarrow> n)"

definition restore_bounded :: "TransitionToken \<Rightarrow> restore_state \<Rightarrow> frame_failure + restore_state" where
  "restore_bounded token s =
     (let i = token_transition_id (token_key token) in
      if Traversal token = 0 \<or> token_max_traversals token = 0 \<or> Traversal token > token_max_traversals token
      then Inl TokenFieldsInvalid
      else if (i, Traversal token) \<in> seenTraversals s then Inl OrdinalReused
      else if count_of (limits s) i \<noteq> 0 \<and> count_of (limits s) i \<noteq> token_max_traversals token
      then Inl LimitChanged
      else Inr (s\<lparr>seenTraversals := insert (i, Traversal token) (seenTraversals s),
                  limits := map_put i (token_max_traversals token) (limits s)\<rparr>))"

definition commit_token :: "TransitionToken \<Rightarrow> restore_state \<Rightarrow> frame_failure + restore_state" where
  "commit_token token s =
     (let i = token_transition_id (token_key token) in
      if has_key (restored_tokens s) (token_key token) then Inl TokenDuplicate
      else Inr (s\<lparr>restored_tokens := map_put (token_key token) token (restored_tokens s),
        derived := (if Traversal token > count_of (derived s) i then map_put i (Traversal token) (derived s)
                    else derived s)\<rparr>))"

definition restore_token :: "Route \<Rightarrow> TransitionToken \<Rightarrow> restore_state \<Rightarrow> frame_failure + restore_state" where
  "restore_token route token s =
     (if SourceVisitID (token_key token) = '''' \<or> token_transition_id (token_key token) = '''' \<or>
         token_source token = '''' \<or> token_target token = '''' then Inl TokenInvalid
      else case findRouteTransition (route_transitions route) (token_transition_id (token_key token)) of
        None \<Rightarrow> Inl TokenOutsideRoute
      | Some rt \<Rightarrow>
          if route_transition_from rt \<noteq> token_source token \<or> route_transition_to rt \<noteq> token_target token
          then Inl TokenOutsideRoute
          else (case token_kind token of
              TransitionTokenNormal \<Rightarrow>
                if Traversal token \<noteq> 0 \<or> token_max_traversals token \<noteq> 0 then Inl TokenFieldsInvalid
                else commit_token token s
            | TransitionTokenBounded \<Rightarrow> result_bind (restore_bounded token s) (commit_token token)
            | TransitionTokenUnknown _ \<Rightarrow> Inl TokenFieldsInvalid))"

fun restore_tokens :: "Route \<Rightarrow> TransitionToken list \<Rightarrow> restore_state \<Rightarrow> frame_failure + restore_state" where
  "restore_tokens route [] s = Inr s"
| "restore_tokens route (token # tokens) s = result_bind (restore_token route token s) (restore_tokens route tokens)"

text \<open>\<open>for ordinal := uint16(1); ordinal <= count; ordinal++\<close>: the counter wraps from 65535 to 0.\<close>

partial_function (option) ordinal_loop :: "uint16 set \<Rightarrow> uint16 \<Rightarrow> uint16 \<Rightarrow> bool option" where
  "ordinal_loop seen count ordinal =
     (if ordinal \<le> count then if ordinal \<notin> seen then Some False else ordinal_loop seen count (ordinal + 1)
      else Some True)"

declare ordinal_loop.simps [code]

text \<open>The ordinals seen of one transition.\<close>

definition seen_ordinals :: "(Identifier \<times> uint16) set \<Rightarrow> Identifier \<Rightarrow> uint16 set" where
  "seen_ordinals seen i = snd ` {p \<in> seen. fst p = i}"

fun check_derived :: "(Identifier \<times> uint16) set \<Rightarrow> uint16 gomap \<Rightarrow> bool option" where
  "check_derived seen [] = Some True"
| "check_derived seen ((i, count) # rest) =
     (case ordinal_loop (seen_ordinals seen i) count 1 of
        None \<Rightarrow> None | Some False \<Rightarrow> Some False | Some True \<Rightarrow> check_derived seen rest)"

definition RestoreFrame :: "FrameSnapshot \<Rightarrow> (frame_failure + Frame) option" where
  "RestoreFrame snapshot =
     (let route = cloneRoute (snapshot_route snapshot) in
      case validateFrameOrigin (snapshot_origin snapshot) of Some e \<Rightarrow> Some (Inl e) | None \<Rightarrow>
      (case cloneRawMessages (snapshot_inputs snapshot) of Inl e \<Rightarrow> Some (Inl e) | Inr inputs \<Rightarrow>
       (if snapshot_id snapshot = '''' \<or> \<not> installed_identity (snapshot_workflow snapshot) then Some (Inl IdentityInvalid)
        else case validateFrozenRoute route of Some e \<Rightarrow> Some (Inl e) | None \<Rightarrow>
        (case validateFrameAncestry (snapshot_origin snapshot) (snapshot_workflow snapshot) (snapshot_ancestry snapshot) of
           Some e \<Rightarrow> Some (Inl e) | None \<Rightarrow>
        (case restore_tokens route (snapshot_tokens snapshot)
            \<lparr>restored_tokens = [], seenTraversals = {}, limits = [], derived = []\<rparr> of
           Inl e \<Rightarrow> Some (Inl e)
         | Inr s \<Rightarrow> (case check_derived (seenTraversals s) (derived s) of
              None \<Rightarrow> None
            | Some False \<Rightarrow> Some (Inl OrdinalGap)
            | Some True \<Rightarrow> Some (Inr \<lparr>frame_id = snapshot_id snapshot, frame_workflow = snapshot_workflow snapshot,
                frame_origin = snapshot_origin snapshot, frame_route = route, frame_inputs = inputs,
                frame_tokens = restored_tokens s, frame_traversals = derived s,
                frame_ancestry = snapshot_ancestry snapshot\<rparr>)))))))"

section \<open>The wire form of a snapshot\<close>

datatype frameOriginKind = frameOriginRoot | frameOriginChild | frameOriginUnknown string

record frameSnapshotWire =
  wire_id :: string
  wire_workflow :: WorkflowIdentity
  wire_origin :: frameOriginKind
  wire_run_id :: string
  wire_parent_frame_id :: string
  wire_parent_visit_id :: string
  wire_route :: Route
  wire_inputs :: "raw_message gomap"
  wire_tokens :: "TransitionToken list"
  wire_ancestry :: "WorkflowIdentity list"

definition snapshot_to_wire :: "FrameSnapshot \<Rightarrow> frameSnapshotWire" where
  "snapshot_to_wire s = \<lparr>wire_id = snapshot_id s, wire_workflow = snapshot_workflow s,
     wire_origin = (case snapshot_origin s of RootFrameOrigin _ \<Rightarrow> frameOriginRoot | ChildFrameOrigin _ _ \<Rightarrow> frameOriginChild),
     wire_run_id = (case snapshot_origin s of RootFrameOrigin r \<Rightarrow> r | ChildFrameOrigin _ _ \<Rightarrow> ''''),
     wire_parent_frame_id = (case snapshot_origin s of RootFrameOrigin _ \<Rightarrow> '''' | ChildFrameOrigin f _ \<Rightarrow> f),
     wire_parent_visit_id = (case snapshot_origin s of RootFrameOrigin _ \<Rightarrow> '''' | ChildFrameOrigin _ v \<Rightarrow> v),
     wire_route = snapshot_route s, wire_inputs = snapshot_inputs s, wire_tokens = snapshot_tokens s,
     wire_ancestry = snapshot_ancestry s\<rparr>"

definition wire_origin_of :: "frameSnapshotWire \<Rightarrow> FrameOrigin option" where
  "wire_origin_of w = (case wire_origin w of
     frameOriginRoot \<Rightarrow>
       if wire_run_id w = '''' \<or> wire_parent_frame_id w \<noteq> '''' \<or> wire_parent_visit_id w \<noteq> '''' then None
       else Some (RootFrameOrigin (wire_run_id w))
   | frameOriginChild \<Rightarrow>
       if wire_run_id w \<noteq> '''' \<or> wire_parent_frame_id w = '''' \<or> wire_parent_visit_id w = '''' then None
       else Some (ChildFrameOrigin (wire_parent_frame_id w) (wire_parent_visit_id w))
   | frameOriginUnknown _ \<Rightarrow> None)"

definition wire_to_snapshot :: "frameSnapshotWire \<Rightarrow> FrameSnapshot option" where
  "wire_to_snapshot w = map_option (\<lambda>origin. \<lparr>snapshot_id = wire_id w, snapshot_workflow = wire_workflow w,
     snapshot_origin = origin, snapshot_route = wire_route w, snapshot_inputs = wire_inputs w,
     snapshot_tokens = wire_tokens w, snapshot_ancestry = wire_ancestry w\<rparr>) (wire_origin_of w)"

section \<open>Outputs of a sub-workflow\<close>

definition map_output ::
  "NodeFields \<Rightarrow> Document \<Rightarrow> raw_message gomap gomap \<Rightarrow> Identifier \<Rightarrow> string \<Rightarrow> frame_failure + raw_message" where
  "map_output common child outputs parentName source =
     (let location = ''/call/outputs/'' @ parentName in
      case parseNodeOutputSource source of None \<Rightarrow> Inl (frame_error RunOutputInvalid location)
      | Some (childNode, childOutput) \<Rightarrow>
      (case map_of (document_nodes child) childNode of None \<Rightarrow> Inl (frame_error WorkflowReferenceError location)
       | Some declaredNode \<Rightarrow>
      (case map_of (node_outputs (Fields declaredNode)) childOutput of
         None \<Rightarrow> Inl (frame_error WorkflowReferenceError location)
       | Some declaration \<Rightarrow>
      (case Option.bind (map_of outputs childNode) (\<lambda>m. map_of m childOutput) of
         None \<Rightarrow> Inl (frame_error RunOutputInvalid location)
       | Some v \<Rightarrow>
          if \<not> rawMessageHasType v (output_type declaration) then Inl (frame_error RunOutputInvalid location)
          else (case map_of (node_outputs common) parentName of
              None \<Rightarrow> Inl (frame_error RunOutputInvalid location)
            | Some parentDeclaration \<Rightarrow>
                if output_type parentDeclaration \<noteq> output_type declaration
                then Inl (frame_error RunOutputInvalid location) else Inr v)))))"

fun map_outputs ::
  "NodeFields \<Rightarrow> Document \<Rightarrow> raw_message gomap gomap \<Rightarrow> string gomap \<Rightarrow> raw_message gomap \<Rightarrow>
   frame_failure + raw_message gomap" where
  "map_outputs common child outputs [] candidate = Inr candidate"
| "map_outputs common child outputs ((parentName, source) # rest) candidate =
     result_bind (map_output common child outputs parentName source)
       (\<lambda>v. map_outputs common child outputs rest (map_put parentName v candidate))"

definition MapSubworkflowOutputs ::
  "NodeFields \<Rightarrow> SubworkflowCall \<Rightarrow> Document \<Rightarrow> raw_message gomap gomap \<Rightarrow> frame_failure + raw_message gomap" where
  "MapSubworkflowOutputs common call child outputs = map_outputs common child outputs (call_outputs call) []"

section \<open>The invariant of a frame\<close>

abbreviation token_id :: "TransitionToken \<Rightarrow> Identifier" where
  "token_id t \<equiv> token_transition_id (token_key t)"

abbreviation bounded :: "TransitionToken \<Rightarrow> bool" where
  "bounded t \<equiv> token_kind t = TransitionTokenBounded"

definition token_ok :: "Route \<Rightarrow> TransitionToken \<Rightarrow> bool" where
  "token_ok route t \<longleftrightarrow> SourceVisitID (token_key t) \<noteq> '''' \<and> token_id t \<noteq> '''' \<and> token_source t \<noteq> '''' \<and>
     token_target t \<noteq> '''' \<and>
     (\<exists>rt. findRouteTransition (route_transitions route) (token_id t) = Some rt \<and>
        route_transition_from rt = token_source t \<and> route_transition_to rt = token_target t) \<and>
     (token_kind t = TransitionTokenNormal \<and> Traversal t = 0 \<and> token_max_traversals t = 0 \<or>
      bounded t \<and> 0 < Traversal t \<and> Traversal t \<le> token_max_traversals t)"

definition tokens_agree :: "TransitionToken \<Rightarrow> TransitionToken \<Rightarrow> bool" where
  "tokens_agree t u \<longleftrightarrow> (bounded t \<and> bounded u \<and> token_id t = token_id u \<longrightarrow>
     token_max_traversals t = token_max_traversals u \<and> Traversal t \<noteq> Traversal u)"

definition tokens_ok :: "Route \<Rightarrow> TransitionToken list \<Rightarrow> bool" where
  "tokens_ok route ts \<longleftrightarrow> (\<forall>t \<in> set ts. token_ok route t) \<and> distinct (map token_key ts) \<and>
     (\<forall>t \<in> set ts. \<forall>u \<in> set ts. t \<noteq> u \<longrightarrow> tokens_agree t u)"

definition ordinals :: "TransitionToken set \<Rightarrow> Identifier \<Rightarrow> uint16 set" where
  "ordinals T i = Traversal ` {t \<in> T. bounded t \<and> token_id t = i}"

definition frame_parts_ok :: "string \<Rightarrow> WorkflowIdentity \<Rightarrow> FrameOrigin \<Rightarrow> Route \<Rightarrow> raw_message gomap \<Rightarrow>
    WorkflowIdentity list \<Rightarrow> bool" where
  "frame_parts_ok i identity origin route inputs ancestry \<longleftrightarrow> i \<noteq> '''' \<and> installed_identity identity \<and>
     validateFrozenRoute route = None \<and> validateFrameOrigin origin = None \<and>
     validateFrameAncestry origin identity ancestry = None \<and> list_all (\<lambda>(_, v). json_valid v) inputs"

definition frame_ok :: "Frame \<Rightarrow> bool" where
  "frame_ok f \<longleftrightarrow> frame_parts_ok (frame_id f) (frame_workflow f) (frame_origin f) (frame_route f)
       (frame_inputs f) (frame_ancestry f) \<and>
     cloneRoute (frame_route f) = frame_route f \<and>
     (\<forall>(k, t) \<in> set (frame_tokens f). token_key t = k) \<and>
     tokens_ok (frame_route f) (map snd (frame_tokens f)) \<and>
     (\<forall>i. ordinals (snd ` set (frame_tokens f)) i = {1..TraversalCount f i})"

lemma cloneRoute_idem [simp]: "cloneRoute (cloneRoute r) = cloneRoute r"
  by (simp add: cloneRoute_def option.map_comp o_def)

lemma cloneRoute_sel [simp]:
  "route_transitions (cloneRoute r) = route_transitions r" "route_entry (cloneRoute r) = route_entry r"
  "route_terminals (cloneRoute r) = route_terminals r"
  by (simp_all add: cloneRoute_def)

lemma validateFrozenRoute_clone [simp]: "validateFrozenRoute (cloneRoute r) = validateFrozenRoute r"
  by (simp add: validateFrozenRoute_def)

lemma frame_keys: "\<forall>(k, t) \<in> set m. token_key t = k \<Longrightarrow> map token_key (map snd m) = map fst m"
  by (induction m) auto

lemma frame_token_iff:
  assumes "frame_ok f"
  shows "map_of (frame_tokens f) k = Some t \<longleftrightarrow> (k, t) \<in> set (frame_tokens f)"
proof -
  have "distinct (map token_key (map snd (frame_tokens f)))"
    using assms unfolding frame_ok_def tokens_ok_def by blast
  moreover have "map token_key (map snd (frame_tokens f)) = map fst (frame_tokens f)"
    using assms unfolding frame_ok_def by (intro frame_keys) blast
  ultimately have "distinct (map fst (frame_tokens f))" by (simp only:)
  then show ?thesis by simp
qed

lemma ordinals_insert:
  "ordinals (insert t T) i = (if bounded t \<and> token_id t = i then insert (Traversal t) (ordinals T i) else ordinals T i)"
  by (auto simp: ordinals_def)

text \<open>Word intervals: the next ordinal extends the interval, unless the counter wraps.\<close>

lemma word_Suc_atMost:
  fixes n m :: "'a::len word"
  assumes "n < m"
  shows "{1..n + 1} = insert (n + 1) {1..n}" and "n < n + 1" and "n + 1 \<le> m" and "n + 1 \<noteq> 0"
    and "unat (n + 1) = Suc (unat n)"
proof -
  have nz: "n + 1 \<noteq> 0"
  proof
    assume "n + 1 = 0"
    then have "n = - 1" by (simp add: eq_neg_iff_add_eq_0)
    with assms word_n1_ge [of m] show False by simp
  qed
  then have u: "unat (n + 1) = Suc (unat n)" using unatSuc [of n] by (simp add: add.commute)
  show "n + 1 \<noteq> 0" "unat (n + 1) = Suc (unat n)" by (rule nz, rule u)
  show lt: "n < n + 1" by (simp add: word_less_nat_alt u)
  show "n + 1 \<le> m" using assms by (simp add: word_le_nat_alt word_less_nat_alt u)
  have "x \<le> n + 1 \<longleftrightarrow> x = n + 1 \<or> x \<le> n" for x
    by (auto simp: word_le_nat_alt word_unat_eq_iff u le_Suc_eq)
  moreover have "1 \<le> n + 1" using nz by (simp add: word_le_nat_alt u)
  ultimately show "{1..n + 1} = insert (n + 1) {1..n}" by auto
qed

section \<open>Firing\<close>

text \<open>The token and the frame after a first firing, for the two kinds of transition.\<close>

definition fired_frame :: "Frame \<Rightarrow> TransitionToken \<Rightarrow> Frame \<Rightarrow> bool" where
  "fired_frame f token f' \<longleftrightarrow>
     (token_kind token = TransitionTokenNormal \<and> f' = f\<lparr>frame_tokens := frame_tokens f @ [(token_key token, token)]\<rparr> \<or>
      bounded token \<and> f' = f\<lparr>frame_tokens := frame_tokens f @ [(token_key token, token)],
        frame_traversals := map_put (token_id token) (Traversal token) (frame_traversals f)\<rparr>)"

lemma findRouteTransition_Some:
  "findRouteTransition ts i = Some t \<Longrightarrow> t \<in> set ts \<and> route_transition_id t = i"
  by (auto simp: findRouteTransition_def find_Some_iff)

lemma FireTransition_cases:
  assumes "FireTransition f visit node epoch tr = Inr (token, replayed, f')"
  obtains (replay) "replayed" "f' = f" "map_of (frame_tokens f) (token_key token) = Some token \<or>
      map_of (frame_tokens f) \<lparr>SourceVisitID = visit, token_transition_id = transition_id tr, JoinEpoch = epoch\<rparr> = Some token"
      "token_source token = node" "token_target token = Target tr" "tokenMatchesTransition token tr"
  | (first) rt where "\<not> replayed" "\<not> blank visit"
      "findRouteTransition (route_transitions (frame_route f)) (transition_id tr) = Some rt"
      "route_transition_from rt = node" "route_transition_to rt = Target tr"
      "token_key token = \<lparr>SourceVisitID = visit, token_transition_id = transition_id tr, JoinEpoch = epoch\<rparr>"
      "map_of (frame_tokens f) (token_key token) = None"
      "token_source token = node" "token_target token = Target tr" "tokenMatchesTransition token tr"
      "fired_frame f token f'"
      "bounded token \<Longrightarrow> TraversalCount f (token_id token) < token_max_traversals token \<and>
         Traversal token = TraversalCount f (token_id token) + 1"
proof -
  let ?key = "\<lparr>SourceVisitID = visit, token_transition_id = transition_id tr, JoinEpoch = epoch\<rparr>"
  from assms obtain rt where v: "\<not> blank visit"
    and rt: "findRouteTransition (route_transitions (frame_route f)) (transition_id tr) = Some rt"
      "route_transition_from rt = node" "route_transition_to rt = Target tr"
    by (auto simp: FireTransition_def split: if_splits option.splits)
  show ?thesis
  proof (cases "map_of (frame_tokens f) ?key")
    case (Some old)
    with assms v rt show ?thesis
      by (intro replay) (auto simp: FireTransition_def Let_def split: if_splits)
  next
    case None
    show ?thesis
    proof (cases tr)
      case (NormalTransition c)
      with assms v rt None show ?thesis
        by (intro first) (auto simp: FireTransition_def Let_def new_token_def map_put_fresh fired_frame_def)
    next
      case (BoundedTransition c m)
      have used: "TraversalCount f (transition_id tr) < m"
        using assms v rt None BoundedTransition
        by (auto simp: FireTransition_def Let_def not_le split: if_splits)
      then have "0 < TraversalCount f (transition_id tr) + 1"
        using word_Suc_atMost(4) [OF used] by (simp add: word_gt_0)
      with assms v rt None BoundedTransition used show ?thesis
        by (intro first) (auto simp: FireTransition_def Let_def new_token_def map_put_fresh fired_frame_def split: if_splits)
    qed
  qed
qed

text \<open>The tokens of a frame come from the transitions of one authored workflow, which names each
  transition once.\<close>

definition table_ok :: "(Identifier \<Rightarrow> Transition option) \<Rightarrow> Frame \<Rightarrow> bool" where
  "table_ok authored f \<longleftrightarrow> (\<forall>(k, t) \<in> set (frame_tokens f).
     \<exists>tr. authored (token_id t) = Some tr \<and> tokenMatchesTransition t tr)"

inductive frame_run :: "(Identifier \<Rightarrow> Transition option) \<Rightarrow> Frame \<Rightarrow> Frame \<Rightarrow> bool"
  for authored where
  start: "frame_run authored f f"
| fire: "frame_run authored f g \<Longrightarrow> authored (transition_id tr) = Some tr \<Longrightarrow>
    FireTransition g visit node epoch tr = Inr (token, replayed, h) \<Longrightarrow> frame_run authored f h"

inductive_cases frame_runE: "frame_run authored f h"

lemma transitions_loop_None:
  "transitions_loop seen ts = None \<longleftrightarrow> distinct (map route_transition_id ts) \<and>
     (\<forall>t \<in> set ts. route_transition_id t \<notin> seen \<and> route_transition_id t \<noteq> '''' \<and>
        route_transition_from t \<noteq> '''' \<and> route_transition_to t \<noteq> '''')"
  by (induction ts arbitrary: seen) (auto simp: image_iff)

lemma newFrame_ok:
  assumes "newFrame i identity origin route inputs ancestry = Inr f"
  shows "frame_ok f \<and> frame_tokens f = []"
proof -
  from assms have c: "cloneRawMessages inputs = Inr (frame_inputs f)" "\<not> blank i" "installed_identity identity"
      "validateFrozenRoute route = None" "validateFrameOrigin origin = None"
      "validateFrameAncestry origin identity ancestry = None"
    and f: "f = \<lparr>frame_id = i, frame_workflow = identity, frame_origin = origin, frame_route = cloneRoute route,
              frame_inputs = frame_inputs f, frame_tokens = [], frame_traversals = [], frame_ancestry = ancestry\<rparr>"
    by (auto simp: newFrame_def split: if_splits option.splits sum.splits)
  have "list_all (\<lambda>(_, v). json_valid v) (frame_inputs f)"
    using c(1) by (auto simp: cloneRawMessages_def split: if_splits)
  with c not_blank_not_Nil have "frame_parts_ok i identity origin (cloneRoute route) (frame_inputs f) ancestry"
    by (simp add: frame_parts_ok_def)
  then show ?thesis
    by (subst (1 2) f) (simp add: frame_ok_def tokens_ok_def ordinals_def TraversalCount_def)
qed

lemma fired_token_ok:
  assumes "frame_ok f" and "\<not> blank visit"
    and "findRouteTransition (route_transitions (frame_route f)) (transition_id tr) = Some rt"
    and "route_transition_from rt = node" "route_transition_to rt = Target tr"
    and "token_key token = \<lparr>SourceVisitID = visit, token_transition_id = transition_id tr, JoinEpoch = epoch\<rparr>"
    and "token_source token = node" "token_target token = Target tr" "tokenMatchesTransition token tr"
    and "bounded token \<Longrightarrow> TraversalCount f (token_id token) < token_max_traversals token \<and>
         Traversal token = TraversalCount f (token_id token) + 1"
  shows "token_ok (frame_route f) token"
proof -
  have rt: "rt \<in> set (route_transitions (frame_route f))" "route_transition_id rt = transition_id tr"
    using findRouteTransition_Some assms(3) by auto
  moreover have "transitions_loop {} (route_transitions (frame_route f)) = None"
    using assms(1) by (auto simp: frame_ok_def frame_parts_ok_def validateFrozenRoute_def split: if_splits)
  ultimately have "route_transition_id rt \<noteq> ''''" "route_transition_from rt \<noteq> ''''" "route_transition_to rt \<noteq> ''''"
    by (auto simp: transitions_loop_None)
  moreover have "0 < Traversal token \<and> Traversal token \<le> token_max_traversals token" if "bounded token"
    using assms(10) [OF that] word_Suc_atMost(3,4) by (auto simp: word_gt_0)
  ultimately show ?thesis
    using assms(2-9) rt not_blank_not_Nil by (cases tr) (auto simp: token_ok_def)
qed

lemma fired_agree:
  assumes ok: "frame_ok f" and table: "table_ok authored f" "authored (transition_id tr) = Some tr"
    and t: "(k, t) \<in> set (frame_tokens f)" and id: "token_id token = transition_id tr"
    and m: "tokenMatchesTransition token tr"
    and new: "bounded token \<Longrightarrow> TraversalCount f (token_id token) < token_max_traversals token \<and>
         Traversal token = TraversalCount f (token_id token) + 1"
  shows "tokens_agree t token \<and> tokens_agree token t"
proof -
  have "token_max_traversals t = token_max_traversals token \<and> Traversal t \<noteq> Traversal token"
    if b: "bounded t" "bounded token" "token_id t = token_id token"
  proof
    from table t obtain tr' where "authored (token_id t) = Some tr'" "tokenMatchesTransition t tr'"
      by (auto simp: table_ok_def)
    with table(2) id b m show "token_max_traversals t = token_max_traversals token"
      by (cases tr) auto
    have "Traversal t \<in> ordinals (snd ` set (frame_tokens f)) (token_id token)"
      using t b by (force simp: ordinals_def)
    then have "Traversal t \<le> TraversalCount f (token_id token)"
      using ok by (simp add: frame_ok_def)
    moreover have "TraversalCount f (token_id token) < Traversal token"
      using new [OF b(2)] word_Suc_atMost(2) by auto
    ultimately show "Traversal t \<noteq> Traversal token" by auto
  qed
  then show ?thesis by (auto simp: tokens_agree_def)
qed

lemma TraversalCount_fired:
  assumes "fired_frame f token f'"
  shows "TraversalCount f' i = (if bounded token \<and> i = token_id token then Traversal token else TraversalCount f i)"
  using assms by (auto simp: fired_frame_def TraversalCount_def)

lemma tokens_ok_snoc:
  "tokens_ok route (ts @ [t]) \<longleftrightarrow> tokens_ok route ts \<and> token_ok route t \<and> token_key t \<notin> token_key ` set ts \<and>
     (\<forall>u \<in> set ts. tokens_agree u t \<and> tokens_agree t u)"
proof -
  have "t \<notin> set ts" if "token_key t \<notin> token_key ` set ts" using that by blast
  then show ?thesis by (auto simp: tokens_ok_def)
qed

lemma FireTransition_ok [frame_laws]:
  assumes ok: "frame_ok f" "table_ok authored f" and tr: "authored (transition_id tr) = Some tr"
    and fire: "FireTransition f visit node epoch tr = Inr (token, replayed, f')"
  shows "frame_ok f' \<and> table_ok authored f'"
  using fire
proof (cases rule: FireTransition_cases)
  case replay
  with ok show ?thesis by simp
next
  case (first rt)
  have id: "token_id token = transition_id tr" using first by simp
  have tokens: "frame_tokens f' = frame_tokens f @ [(token_key token, token)]"
    and same: "frame_route f' = frame_route f" "frame_id f' = frame_id f" "frame_workflow f' = frame_workflow f"
      "frame_origin f' = frame_origin f" "frame_inputs f' = frame_inputs f" "frame_ancestry f' = frame_ancestry f"
    using first(11) by (auto simp: fired_frame_def)
  have "token_ok (frame_route f) token"
    using ok(1) first(2-6,8-10,12) by (rule fired_token_ok)
  moreover have "token_key token \<notin> token_key ` set (map snd (frame_tokens f))"
  proof
    assume "token_key token \<in> token_key ` set (map snd (frame_tokens f))"
    then obtain k t where kt: "(k, t) \<in> set (frame_tokens f)" "token_key token = token_key t" by auto
    moreover from kt ok(1) have "token_key t = k" by (auto simp: frame_ok_def)
    ultimately have "map_of (frame_tokens f) (token_key token) = Some t"
      using frame_token_iff [OF ok(1)] by simp
    with first(7) show False by simp
  qed
  moreover have "\<forall>u \<in> set (map snd (frame_tokens f)). tokens_agree u token \<and> tokens_agree token u"
    using fired_agree [OF ok tr _ id first(10) first(12)] by auto
  ultimately have t: "tokens_ok (frame_route f') (map snd (frame_tokens f'))"
    using ok(1) by (simp add: tokens same tokens_ok_snoc frame_ok_def)
  have "ordinals (snd ` set (frame_tokens f')) i = {1..TraversalCount f' i}" for i
  proof (cases "bounded token \<and> i = token_id token")
    case True
    then have "{1..Traversal token} = insert (Traversal token) {1..TraversalCount f i}"
      using first(12) word_Suc_atMost(1) by auto
    with True ok(1) show ?thesis
      by (simp add: tokens ordinals_insert TraversalCount_fired [OF first(11)] frame_ok_def)
  next
    case False
    with ok(1) show ?thesis
      by (auto simp: tokens ordinals_insert TraversalCount_fired [OF first(11)] frame_ok_def)
  qed
  with t ok(1) have "frame_ok f'" by (auto simp: frame_ok_def same tokens)
  moreover have "table_ok authored f'"
    using ok(2) tr id first(10) by (auto simp: table_ok_def tokens)
  ultimately show ?thesis ..
qed

lemma frame_run_ok [frame_laws]:
  "frame_run authored f g \<Longrightarrow> frame_ok f \<Longrightarrow> table_ok authored f \<Longrightarrow> frame_ok g \<and> table_ok authored g"
proof (induction rule: frame_run.induct)
  case (fire f g tr visit node epoch token replayed h)
  then show ?case using FireTransition_ok by blast
qed simp

lemma frame_run_kept:
  "frame_run authored f g \<Longrightarrow> map_of (frame_tokens f) k = Some t \<Longrightarrow> map_of (frame_tokens g) k = Some t"
proof (induction rule: frame_run.induct)
  case (fire f g tr visit node epoch token replayed h)
  then have "map_of (frame_tokens g) k = Some t" by blast
  with fire.hyps(3) show ?case
    by (cases rule: FireTransition_cases) (auto simp: fired_frame_def map_add_def)
qed

text \<open>Firing the same transition again for the same visit and join epoch is a replay: it
  returns the token of the first firing, marks it as replayed and leaves the frame as it is, so that it
  consumes no traversal.\<close>

theorem FireTransition_replay:
  assumes "FireTransition f visit node epoch tr = Inr (token, replayed, f')"
  shows "FireTransition f' visit node epoch tr = Inr (token, True, f')"
  using assms
proof (cases rule: FireTransition_cases)
  case replay
  with assms show ?thesis by (auto simp: FireTransition_def Let_def split: if_splits option.splits Transition.splits)
next
  case (first rt)
  then have "frame_route f' = frame_route f" "map_of (frame_tokens f') (token_key token) = Some token"
    by (auto simp: fired_frame_def map_add_def)
  with first show ?thesis by (simp add: FireTransition_def Let_def)
qed

section \<open>Budgets\<close>

lemma card_word_interval: "card {1..n :: 'a::len word} = unat n"
proof -
  have "unat ` {1..n} = {1..unat n}"
  proof
    show "unat ` {1..n} \<subseteq> {1..unat n}"
      by (auto simp: word_le_nat_alt)
    show "{1..unat n} \<subseteq> unat ` {1..n}"
    proof
      fix k
      assume k: "k \<in> {1..unat n}"
      then have "k \<le> unat n" by simp
      then have "k < 2 ^ LENGTH('a)" by (rule le_less_trans) (rule unsigned_less)
      then have "unat (of_nat k :: 'a word) = k" by (simp add: unat_of_nat)
      moreover from this k have "of_nat k \<in> {1..n}" by (simp add: word_le_nat_alt)
      ultimately show "k \<in> unat ` {1..n}" by (metis imageI)
    qed
  qed
  moreover have "inj_on unat {1..n}" by (simp add: inj_on_def word_unat_eq_iff)
  ultimately show ?thesis by (metis card_atLeastAtMost card_image diff_Suc_1)
qed

definition tokens_of :: "Frame \<Rightarrow> Identifier \<Rightarrow> TransitionToken set" where
  "tokens_of f i = {t \<in> snd ` set (frame_tokens f). token_id t = i}"

lemma card_tokens_of:
  assumes ok: "frame_ok f" "table_ok authored f" and i: "authored i = Some (BoundedTransition c m)"
  shows "card (tokens_of f i) = unat (TraversalCount f i) \<and> TraversalCount f i \<le> m"
proof
  have b: "bounded t \<and> token_max_traversals t = m" if "t \<in> tokens_of f i" for t
    using that ok(2) i by (auto simp: tokens_of_def table_ok_def)
  then have T: "tokens_of f i = {t \<in> snd ` set (frame_tokens f). bounded t \<and> token_id t = i}"
    by (auto simp: tokens_of_def)
  have ords: "Traversal ` tokens_of f i = {1..TraversalCount f i}"
    using ok(1) unfolding T frame_ok_def ordinals_def by blast
  have "inj_on Traversal (tokens_of f i)"
  proof (rule inj_onI)
    fix t u
    assume tu: "t \<in> tokens_of f i" "u \<in> tokens_of f i" "Traversal t = Traversal u"
    moreover have "t \<noteq> u \<longrightarrow> tokens_agree t u"
      using tu ok(1) by (auto simp: frame_ok_def tokens_ok_def tokens_of_def)
    ultimately show "t = u" using b by (auto simp: tokens_agree_def tokens_of_def)
  qed
  then show "card (tokens_of f i) = unat (TraversalCount f i)"
    using ords card_image card_word_interval by metis
  show "TraversalCount f i \<le> m"
  proof (cases "TraversalCount f i = 0")
    case False
    then have "TraversalCount f i \<in> {1..TraversalCount f i}" by (simp add: word_le_nat_alt Suc_le_eq unat_gt_0)
    then obtain t where "t \<in> tokens_of f i" "Traversal t = TraversalCount f i" using ords by force
    moreover from this have "token_ok (frame_route f) t"
      using ok(1) by (auto simp: frame_ok_def tokens_ok_def tokens_of_def)
    ultimately show ?thesis using b [of t] by (auto simp: token_ok_def)
  qed simp
qed

text \<open>C11: In every frame that firings of an authored workflow's transitions lead to, the number of
  tokens of a bounded transition is its traversal count, and it never exceeds the authored
  \<open>maxTraversals\<close>.\<close>

theorem traversal_budget:
  assumes "newFrame fid identity origin route inputs ancestry = Inr f0" and "frame_run authored f0 f"
    and "authored i = Some (BoundedTransition c m)"
  shows "card (tokens_of f i) = unat (TraversalCount f i) \<and> unat (TraversalCount f i) \<le> unat m"
proof -
  have "frame_ok f0 \<and> table_ok authored f0"
    using newFrame_ok [OF assms(1)] by (simp add: table_ok_def)
  then have "frame_ok f \<and> table_ok authored f" using frame_run_ok [OF assms(2)] by blast
  then show ?thesis using card_tokens_of assms(3) by (auto simp: word_le_nat_alt)
qed

text \<open>A first firing of an enabled bounded transition succeeds exactly while its count is below
  the limit; it then raises the count by one without wrap-around and records the new count in the
  token, and otherwise it fails with \<open>RUN_LOOP_LIMIT_EXHAUSTED\<close> naming the transition.\<close>

theorem FireTransition_bounded:
  fixes f c m visit epoch
  defines "tr \<equiv> BoundedTransition c m"
  defines "count \<equiv> TraversalCount f (transition_id tr)"
  assumes "\<not> blank visit"
    and "findRouteTransition (route_transitions (frame_route f)) (transition_id tr) = Some rt"
    and "route_transition_from rt = node" and "route_transition_to rt = Target tr"
    and "map_of (frame_tokens f)
      \<lparr>SourceVisitID = visit, token_transition_id = transition_id tr, JoinEpoch = epoch\<rparr> = None"
  shows "if count < m
    then \<exists>token f'. FireTransition f visit node epoch tr = Inr (token, False, f') \<and>
      Traversal token = count + 1 \<and> TraversalCount f' (transition_id tr) = count + 1 \<and>
      unat (count + 1) = Suc (unat count)
    else FireTransition f visit node epoch tr = Inl (Failure \<lparr>frame_error_code = RunLoopLimitExhausted,
      frame_error_location = ''/transitions'', frame_error_transition = transition_id tr\<rparr>)"
proof (cases "count < m")
  case True
  have "unat (count + 1) = Suc (unat count)"
    using True by (rule word_Suc_atMost(5))
  with True assms(3-7) show ?thesis
    by (auto simp: FireTransition_def Let_def tr_def count_def new_token_def TraversalCount_def not_le)
next
  case False
  with assms(3-7) show ?thesis by (simp add: FireTransition_def Let_def tr_def count_def not_less)
qed

section \<open>Restoring a snapshot\<close>

text \<open>The loop over the ordinals returns, because 0 is never a seen ordinal; it accepts when all
  ordinals up to the count were seen, and never when the count is the largest 16-bit number.\<close>

lemma ordinal_loop_result:
  assumes "0 \<notin> seen" and "1 \<le> i"
  shows "ordinal_loop seen count i = Some ((i \<le> count \<longrightarrow> count \<noteq> - 1) \<and> {i..count} \<subseteq> seen)"
  using assms(2)
proof (induction "unat count - unat i" arbitrary: i rule: less_induct)
  case less
  show ?case
  proof (cases "i \<le> count \<and> i \<in> seen")
    case True
    then have unfold: "ordinal_loop seen count i = ordinal_loop seen count (i + 1)"
      by (subst ordinal_loop.simps) simp
    show ?thesis
    proof (cases "i = count")
      case i: True
      show ?thesis
      proof (cases "count = - 1")
        case minus: True
        then have "ordinal_loop seen count (i + 1) = Some False"
          using assms(1) i by (subst ordinal_loop.simps) simp
        with unfold minus True show ?thesis by simp
      next
        case False
        then have "count < - 1" using word_n1_ge [of count] by (simp add: less_le)
        then have "\<not> i + 1 \<le> count" using word_Suc_atMost(2) i by (auto simp: not_le)
        then have "ordinal_loop seen count (i + 1) = Some True" by (subst ordinal_loop.simps) simp
        with unfold False i True show ?thesis by simp
      qed
    next
      case False
      then have lt: "i < count" using True by (simp add: less_le)
      note w = word_Suc_atMost [OF lt]
      have "unat count - unat (i + 1) < unat count - unat i"
        using lt w(2) by (simp add: word_less_nat_alt)
      moreover have "1 \<le> i + 1" using w(2) less.prems by simp
      ultimately have "ordinal_loop seen count (i + 1) =
          Some ((i + 1 \<le> count \<longrightarrow> count \<noteq> - 1) \<and> {i + 1..count} \<subseteq> seen)"
        by (rule less.hyps)
      moreover have "{i..count} = insert i {i + 1..count}"
        using lt w(5) by (auto simp: word_le_nat_alt word_less_nat_alt word_unat_eq_iff)
      ultimately show ?thesis using unfold True w(3) by simp
    qed
  next
    case False
    then show ?thesis by (subst ordinal_loop.simps) auto
  qed
qed

text \<open>What the loop over the tokens has established after it accepted the tokens \<open>ts\<close>.\<close>

definition restored :: "TransitionToken list \<Rightarrow> restore_state \<Rightarrow> bool" where
  "restored ts s \<longleftrightarrow> restored_tokens s = map (\<lambda>t. (token_key t, t)) ts \<and>
     seenTraversals s = (\<lambda>t. (token_id t, Traversal t)) ` {t \<in> set ts. bounded t} \<and>
     (\<forall>i. count_of (limits s) i \<noteq> 0 \<longrightarrow> (\<exists>t \<in> set ts. bounded t \<and> token_id t = i)) \<and>
     (\<forall>t \<in> set ts. bounded t \<longrightarrow> count_of (limits s) (token_id t) = token_max_traversals t) \<and>
     wf_map (derived s) \<and> (\<forall>i. has_key (derived s) i \<longrightarrow> count_of (derived s) i \<in> ordinals (set ts) i) \<and>
     (\<forall>t \<in> set ts. bounded t \<longrightarrow> Traversal t \<le> count_of (derived s) (token_id t))"

lemma restored_Nil: "restored [] \<lparr>restored_tokens = [], seenTraversals = {}, limits = [], derived = []\<rparr>"
  by (simp add: restored_def count_of_def has_key_def)

lemma count_of_put [simp]: "count_of (map_put i n m) j = (if j = i then n else count_of m j)"
  by (simp add: count_of_def)

lemma restored_has_key:
  "restored ts s \<Longrightarrow> has_key (restored_tokens s) k \<longleftrightarrow> k \<in> token_key ` set ts"
  by (simp add: restored_def has_key_fst image_image)

lemma restored_seen:
  "restored ts s \<Longrightarrow> (i, n) \<in> seenTraversals s \<longleftrightarrow> (\<exists>t \<in> set ts. bounded t \<and> token_id t = i \<and> Traversal t = n)"
  by (auto simp: restored_def)

lemma has_key_put: "has_key (map_put k v m) x \<longleftrightarrow> x = k \<or> has_key m x"
  by (simp add: has_key_def)

lemma ordinals_snoc: "ordinals (set (ts @ [t])) i = ordinals (insert t (set ts)) i"
  by simp

lemma commit_token_restored:
  assumes r: "restored ts s" and "commit_token t s' = Inr s''" and ok: "token_ok route t"
    and s': "restored_tokens s' = restored_tokens s" "derived s' = derived s"
      "if bounded t then seenTraversals s' = insert (token_id t, Traversal t) (seenTraversals s) \<and>
         limits s' = map_put (token_id t) (token_max_traversals t) (limits s) \<and>
         (\<forall>u \<in> set ts. bounded u \<and> token_id u = token_id t \<longrightarrow> token_max_traversals u = token_max_traversals t)
       else seenTraversals s' = seenTraversals s \<and> limits s' = limits s"
  shows "restored (ts @ [t]) s''"
proof -
  let ?i = "token_id t"
  have fresh: "\<not> has_key (restored_tokens s') (token_key t)"
    and s'': "s'' = s'\<lparr>restored_tokens := map_put (token_key t) t (restored_tokens s'),
        derived := (if Traversal t > count_of (derived s') ?i then map_put ?i (Traversal t) (derived s') else derived s')\<rparr>"
    using assms(2) by (auto simp: commit_token_def Let_def split: if_splits)
  have put: "map_put (token_key t) t (restored_tokens s') = restored_tokens s' @ [(token_key t, t)]"
    using fresh by (simp add: map_put_fresh has_key_def)
  have zero: "Traversal t = 0" if "\<not> bounded t" using ok that by (auto simp: token_ok_def)
  have d: "wf_map (derived s'')" "\<forall>i. has_key (derived s'') i \<longrightarrow> count_of (derived s'') i \<in> ordinals (set (ts @ [t])) i"
    "\<forall>u \<in> set (ts @ [t]). bounded u \<longrightarrow> Traversal u \<le> count_of (derived s'') (token_id u)"
    using r zero unfolding restored_def s'' s' ordinals_snoc ordinals_insert
    by (auto simp: has_key_put word_not_simps(1) not_less split: if_splits)
  have l: "\<forall>i. count_of (limits s'') i \<noteq> 0 \<longrightarrow> (\<exists>u \<in> set (ts @ [t]). bounded u \<and> token_id u = i)"
    "\<forall>u \<in> set (ts @ [t]). bounded u \<longrightarrow> count_of (limits s'') (token_id u) = token_max_traversals u"
    using r s'(3) unfolding restored_def s'' by (auto split: if_splits)
  have "seenTraversals s'' = (\<lambda>t. (token_id t, Traversal t)) ` {u \<in> set (ts @ [t]). bounded u}"
    using r s'(3) unfolding restored_def s'' by (auto split: if_splits)
  moreover have "restored_tokens s'' = map (\<lambda>t. (token_key t, t)) (ts @ [t])"
    using r put by (simp add: s'' restored_def s')
  ultimately show ?thesis using d l unfolding restored_def by blast
qed

lemma restored_limit:
  assumes "restored ts s" and "tokens_ok route ts"
  shows "count_of (limits s) i = 0 \<or> count_of (limits s) i = n \<longleftrightarrow>
    (\<forall>u \<in> set ts. bounded u \<and> token_id u = i \<longrightarrow> token_max_traversals u = n)"
proof (cases "\<exists>u \<in> set ts. bounded u \<and> token_id u = i")
  case True
  then obtain u where u: "u \<in> set ts" "bounded u" "token_id u = i" by blast
  have c: "token_max_traversals v = count_of (limits s) i" if "v \<in> set ts" "bounded v" "token_id v = i" for v
    using assms(1) that unfolding restored_def by auto
  have "token_ok route u" using assms(2) u by (auto simp: tokens_ok_def)
  then have "0 < token_max_traversals u" using u by (auto simp: token_ok_def)
  then show ?thesis using c u by auto
next
  case False
  then have "count_of (limits s) i = 0" using assms(1) unfolding restored_def by blast
  with False show ?thesis by auto
qed

lemma restore_bounded_Inr:
  assumes "restored ts s" and "tokens_ok route ts" and "bounded t"
  shows "restore_bounded t s = Inr s' \<longleftrightarrow> 0 < Traversal t \<and> Traversal t \<le> token_max_traversals t \<and>
    (\<forall>u \<in> set ts. tokens_agree u t \<and> tokens_agree t u) \<and>
    s' = s\<lparr>seenTraversals := insert (token_id t, Traversal t) (seenTraversals s),
           limits := map_put (token_id t) (token_max_traversals t) (limits s)\<rparr>"
proof -
  have agree: "(\<forall>u \<in> set ts. tokens_agree u t \<and> tokens_agree t u) \<longleftrightarrow>
      (token_id t, Traversal t) \<notin> seenTraversals s \<and>
      (count_of (limits s) (token_id t) = 0 \<or> count_of (limits s) (token_id t) = token_max_traversals t)"
    unfolding restored_limit [OF assms(1,2)] restored_seen [OF assms(1)] tokens_agree_def
    using assms(3) by (auto 0 4)
  show ?thesis unfolding agree restore_bounded_def Let_def by (auto simp: word_gt_0 not_less)
qed

lemma restore_token_sound:
  assumes r: "restored ts s" and ok: "tokens_ok route ts" and t: "restore_token route t s = Inr s'"
  shows "tokens_ok route (ts @ [t]) \<and> restored (ts @ [t]) s'"
proof -
  from t obtain rt where ids: "SourceVisitID (token_key t) \<noteq> ''''" "token_id t \<noteq> ''''"
      "token_source t \<noteq> ''''" "token_target t \<noteq> ''''"
    and rt: "findRouteTransition (route_transitions route) (token_id t) = Some rt"
      "route_transition_from rt = token_source t" "route_transition_to rt = token_target t"
    by (auto simp: restore_token_def split: if_splits option.splits)
  consider (normal) "token_kind t = TransitionTokenNormal" "Traversal t = 0" "token_max_traversals t = 0"
      "commit_token t s = Inr s'"
    | (bound) u where "bounded t" "restore_bounded t s = Inr u" "commit_token t u = Inr s'"
    using t ids rt by (auto simp: restore_token_def split: if_splits TransitionTokenKind.splits)
  then show ?thesis
  proof cases
    case normal
    then have tok: "token_ok route t" using ids rt by (auto simp: token_ok_def)
    have "token_key t \<notin> token_key ` set ts"
      using normal(4) restored_has_key [OF r] by (auto simp: commit_token_def Let_def split: if_splits)
    moreover have "restored (ts @ [t]) s'" using r normal(4) tok by (rule commit_token_restored) (use normal in auto)
    ultimately show ?thesis using tok ok normal by (auto simp: tokens_ok_snoc tokens_agree_def)
  next
    case bound
    note b = bound(2) [unfolded restore_bounded_Inr [OF r ok bound(1)]]
    then have tok: "token_ok route t" using ids rt bound(1) by (auto simp: token_ok_def)
    have "token_key t \<notin> token_key ` set ts"
      using bound(3) b restored_has_key [OF r] by (auto simp: commit_token_def Let_def split: if_splits)
    moreover have "\<forall>v \<in> set ts. bounded v \<and> token_id v = token_id t \<longrightarrow>
        token_max_traversals v = token_max_traversals t"
      using b bound(1) unfolding tokens_agree_def by blast
    then have "restored (ts @ [t]) s'" using r bound(3) tok
      by (intro commit_token_restored [of ts s t u s']) (simp_all add: b bound(1))
    ultimately show ?thesis using tok ok b by (simp add: tokens_ok_snoc)
  qed
qed

lemma restore_token_complete:
  assumes r: "restored ts s" and ok: "tokens_ok route (ts @ [t])"
  shows "\<exists>s'. restore_token route t s = Inr s'"
proof -
  have ok': "tokens_ok route ts" "token_ok route t" "token_key t \<notin> token_key ` set ts"
    "\<forall>u \<in> set ts. tokens_agree u t \<and> tokens_agree t u"
    using ok by (auto simp: tokens_ok_snoc)
  have commit: "\<exists>s'. commit_token t u = Inr s'" if "restored_tokens u = restored_tokens s" for u
    using that ok'(3) restored_has_key [OF r] by (simp add: commit_token_def Let_def)
  show ?thesis
  proof (cases "bounded t")
    case True
    then obtain u where "restore_bounded t s = Inr u" "restored_tokens u = restored_tokens s"
      using ok'(2,4) restore_bounded_Inr [OF r ok'(1) True] by (fastforce simp: token_ok_def)
    with True commit [of u] ok'(2) show ?thesis
      by (auto simp: restore_token_def token_ok_def)
  next
    case False
    with commit [of s] ok'(2) show ?thesis by (auto simp: restore_token_def token_ok_def)
  qed
qed

lemma restore_tokens_snoc:
  "restore_tokens route (ts @ [t]) s = result_bind (restore_tokens route ts s) (restore_token route t)"
proof (induction ts arbitrary: s)
  case Nil
  then show ?case by (cases "restore_token route t s") simp_all
next
  case (Cons u ts)
  then show ?case by (cases "restore_token route u s") simp_all
qed

abbreviation restore_start :: restore_state where
  "restore_start \<equiv> \<lparr>restored_tokens = [], seenTraversals = {}, limits = [], derived = []\<rparr>"

lemma restore_tokens_result:
  "(\<forall>s. restore_tokens route ts restore_start = Inr s \<longrightarrow> tokens_ok route ts \<and> restored ts s) \<and>
   (tokens_ok route ts \<longrightarrow> (\<exists>s. restore_tokens route ts restore_start = Inr s))"
proof (induction ts rule: rev_induct)
  case Nil
  then show ?case by (simp add: restored_Nil tokens_ok_def)
next
  case (snoc t ts)
  show ?case
  proof (intro conjI allI impI)
    fix s
    assume "restore_tokens route (ts @ [t]) restore_start = Inr s"
    then obtain u where "restore_tokens route ts restore_start = Inr u" "restore_token route t u = Inr s"
      by (auto simp: restore_tokens_snoc)
    with snoc restore_token_sound [of ts u route t s]
    show "tokens_ok route (ts @ [t])" "restored (ts @ [t]) s" by auto
  next
    assume a: "tokens_ok route (ts @ [t])"
    then have "tokens_ok route ts" by (simp add: tokens_ok_snoc)
    with snoc obtain u where u: "restore_tokens route ts restore_start = Inr u" "restored ts u" by blast
    with restore_token_complete [OF u(2) a]
    show "\<exists>s. restore_tokens route (ts @ [t]) restore_start = Inr s" by (auto simp: restore_tokens_snoc)
  qed
qed

lemma seen_ordinals_restored: "restored ts s \<Longrightarrow> seen_ordinals (seenTraversals s) i = ordinals (set ts) i"
proof (rule set_eqI)
  fix n
  have "n \<in> seen_ordinals (seenTraversals s) i \<longleftrightarrow> (i, n) \<in> seenTraversals s"
    by (force simp: seen_ordinals_def)
  moreover assume "restored ts s"
  ultimately show "n \<in> seen_ordinals (seenTraversals s) i \<longleftrightarrow> n \<in> ordinals (set ts) i"
    by (auto simp: restored_seen ordinals_def)
qed

lemma ordinals_positive: "tokens_ok route ts \<Longrightarrow> n \<in> ordinals (set ts) i \<Longrightarrow> 0 < n"
  by (auto simp: tokens_ok_def token_ok_def ordinals_def)

lemma check_derived_result:
  assumes "\<And>i. 0 \<notin> seen_ordinals seen i" and "\<forall>(i, c) \<in> set d. 0 < c"
  shows "check_derived seen d = Some (\<forall>(i, c) \<in> set d. c \<noteq> - 1 \<and> {1..c} \<subseteq> seen_ordinals seen i)"
  using assms(2)
proof (induction d)
  case (Cons e d)
  obtain i c where e: "e = (i, c)" by (cases e)
  have "1 \<le> c" using Cons.prems e by (simp add: word_le_nat_alt word_less_nat_alt Suc_le_eq)
  then have "ordinal_loop (seen_ordinals seen i) c 1 = Some (c \<noteq> - 1 \<and> {1..c} \<subseteq> seen_ordinals seen i)"
    using assms(1) by (simp add: ordinal_loop_result)
  with Cons e show ?case by (auto split: bool.splits)
qed simp

lemma restored_counts:
  assumes r: "restored ts s" and ok: "tokens_ok route ts"
  shows "check_derived (seenTraversals s) (derived s) =
    Some (\<forall>i. count_of (derived s) i \<noteq> - 1 \<and> ordinals (set ts) i = {1..count_of (derived s) i})"
proof -
  have d: "wf_map (derived s)" and in_ords: "\<And>i. has_key (derived s) i \<Longrightarrow> count_of (derived s) i \<in> ordinals (set ts) i"
    and upper: "\<And>i. \<forall>n \<in> ordinals (set ts) i. n \<le> count_of (derived s) i"
    using r unfolding restored_def ordinals_def by blast+
  have key: "(i, c) \<in> set (derived s) \<longleftrightarrow> has_key (derived s) i \<and> count_of (derived s) i = c" for i c
    using d by (auto simp: wf_map_map_of has_key_def count_of_def split: option.splits)
  have all: "(\<forall>(i, c) \<in> set (derived s). P i c) \<longleftrightarrow>
      (\<forall>i. has_key (derived s) i \<longrightarrow> P i (count_of (derived s) i))" for P
    unfolding Ball_def split_paired_All by (simp add: key)
  have pos: "\<forall>(i, c) \<in> set (derived s). 0 < c"
  proof clarify
    fix i c
    assume "(i, c) \<in> set (derived s)"
    then have k: "has_key (derived s) i" "count_of (derived s) i = c" by (simp_all add: key)
    from in_ords [OF k(1)] have "c \<in> ordinals (set ts) i" unfolding k(2) .
    then show "0 < c" by (rule ordinals_positive [OF ok])
  qed
  have sub: "ordinals (set ts) i \<subseteq> {1..count_of (derived s) i}" for i
  proof
    fix n
    assume n: "n \<in> ordinals (set ts) i"
    then have "1 \<le> n" using ordinals_positive [OF ok n]
      by (simp add: word_le_nat_alt word_less_nat_alt Suc_le_eq)
    with n upper show "n \<in> {1..count_of (derived s) i}" by simp
  qed
  have "\<not> has_key (derived s) i \<Longrightarrow> count_of (derived s) i = 0" for i
    by (simp add: has_key_def count_of_def split: option.splits)
  moreover have "ordinals (set ts) i = {}" if "count_of (derived s) i = 0" for i
    using sub [of i] that by (auto simp: word_le_nat_alt)
  moreover have "{1..0 :: uint16} = {}" and "(0 :: uint16) \<noteq> - 1" by (simp_all add: word_le_nat_alt)
  ultimately have none: "\<not> has_key (derived s) i \<Longrightarrow> count_of (derived s) i \<noteq> - 1 \<and>
      ordinals (set ts) i = {1..count_of (derived s) i}" for i by metis
  have "0 \<notin> ordinals (set ts) i" for i using ordinals_positive [OF ok, of 0 i] by auto
  then have "check_derived (seenTraversals s) (derived s) =
      Some (\<forall>(i, c) \<in> set (derived s). c \<noteq> - 1 \<and> {1..c} \<subseteq> ordinals (set ts) i)"
    using check_derived_result [of "seenTraversals s" "derived s"] pos
    unfolding seen_ordinals_restored [OF r] by simp
  also have "(\<forall>(i, c) \<in> set (derived s). c \<noteq> - 1 \<and> {1..c} \<subseteq> ordinals (set ts) i) \<longleftrightarrow>
      (\<forall>i. has_key (derived s) i \<longrightarrow>
        count_of (derived s) i \<noteq> - 1 \<and> {1..count_of (derived s) i} \<subseteq> ordinals (set ts) i)"
    by (rule all)
  also have "\<dots> \<longleftrightarrow> (\<forall>i. count_of (derived s) i \<noteq> - 1 \<and> ordinals (set ts) i = {1..count_of (derived s) i})"
  proof (rule arg_cong [where f = All], rule ext)
    fix i
    show "(has_key (derived s) i \<longrightarrow>
        count_of (derived s) i \<noteq> - 1 \<and> {1..count_of (derived s) i} \<subseteq> ordinals (set ts) i) \<longleftrightarrow>
      (count_of (derived s) i \<noteq> - 1 \<and> ordinals (set ts) i = {1..count_of (derived s) i})"
      using none [of i] sub [of i] by (cases "has_key (derived s) i") (simp_all only: set_eq_subset simp_thms)
  qed
  finally show ?thesis .
qed

lemma TraversalCount_count_of: "TraversalCount f i = count_of (frame_traversals f) i"
  by (simp add: TraversalCount_def count_of_def)

definition restored_frame :: "FrameSnapshot \<Rightarrow> restore_state \<Rightarrow> Frame" where
  "restored_frame s st = \<lparr>frame_id = snapshot_id s, frame_workflow = snapshot_workflow s,
     frame_origin = snapshot_origin s, frame_route = cloneRoute (snapshot_route s),
     frame_inputs = snapshot_inputs s, frame_tokens = restored_tokens st, frame_traversals = derived st,
     frame_ancestry = snapshot_ancestry s\<rparr>"

lemma restored_frame_ok:
  assumes "frame_parts_ok (snapshot_id s) (snapshot_workflow s) (snapshot_origin s) (snapshot_route s)
      (snapshot_inputs s) (snapshot_ancestry s)"
    and "tokens_ok (cloneRoute (snapshot_route s)) (snapshot_tokens s)" and "restored (snapshot_tokens s) st"
    and "\<forall>i. ordinals (set (snapshot_tokens s)) i = {1..count_of (derived st) i}"
  shows "frame_ok (restored_frame s st)"
proof -
  have "restored_tokens st = map (\<lambda>t. (token_key t, t)) (snapshot_tokens s)"
    using assms(3) by (simp add: restored_def)
  with assms show ?thesis
    by (auto simp: frame_ok_def restored_frame_def frame_parts_ok_def TraversalCount_count_of o_def image_image)
qed

text \<open>Once the parts of a snapshot are valid, what \<open>RestoreFrame\<close> does depends on its tokens.\<close>

lemma RestoreFrame_parts:
  fixes s
  defines "parts \<equiv> frame_parts_ok (snapshot_id s) (snapshot_workflow s) (snapshot_origin s) (snapshot_route s)
      (snapshot_inputs s) (snapshot_ancestry s)"
  shows "parts \<Longrightarrow> RestoreFrame s = (case restore_tokens (cloneRoute (snapshot_route s)) (snapshot_tokens s) restore_start of
      Inl e \<Rightarrow> Some (Inl e)
    | Inr st \<Rightarrow> (case check_derived (seenTraversals st) (derived st) of None \<Rightarrow> None
        | Some False \<Rightarrow> Some (Inl OrdinalGap) | Some True \<Rightarrow> Some (Inr (restored_frame s st))))"
    and "\<not> parts \<Longrightarrow> \<exists>e. RestoreFrame s = Some (Inl e)"
  unfolding RestoreFrame_def parts_def frame_parts_ok_def restored_frame_def Let_def cloneRawMessages_def
    validateFrozenRoute_clone
  by (auto split: option.split sum.split)

lemma RestoreFrame_tokens:
  assumes p: "frame_parts_ok (snapshot_id s) (snapshot_workflow s) (snapshot_origin s) (snapshot_route s)
      (snapshot_inputs s) (snapshot_ancestry s)"
    and t: "tokens_ok (cloneRoute (snapshot_route s)) (snapshot_tokens s)"
  obtains st where "restored (snapshot_tokens s) st"
    "RestoreFrame s = Some (if \<forall>i. count_of (derived st) i \<noteq> - 1 \<and>
        ordinals (set (snapshot_tokens s)) i = {1..count_of (derived st) i}
      then Inr (restored_frame s st) else Inl OrdinalGap)"
proof -
  from restore_tokens_result t obtain st where
    st: "restore_tokens (cloneRoute (snapshot_route s)) (snapshot_tokens s) restore_start = Inr st"
    and r: "restored (snapshot_tokens s) st" by blast
  from r show ?thesis
    by (rule that) (auto simp: RestoreFrame_parts(1) [OF p] st restored_counts [OF r t] split: bool.split)
qed

lemma RestoreFrame_result: "\<exists>r. RestoreFrame s = Some r \<and> (\<forall>f. r = Inr f \<longrightarrow> frame_ok f)"
proof (cases "frame_parts_ok (snapshot_id s) (snapshot_workflow s) (snapshot_origin s) (snapshot_route s)
      (snapshot_inputs s) (snapshot_ancestry s)")
  case p: True
  show ?thesis
  proof (cases "tokens_ok (cloneRoute (snapshot_route s)) (snapshot_tokens s)")
    case True
    obtain st where st: "restored (snapshot_tokens s) st"
      and f: "RestoreFrame s = Some (if \<forall>i. count_of (derived st) i \<noteq> - 1 \<and>
        ordinals (set (snapshot_tokens s)) i = {1..count_of (derived st) i}
      then Inr (restored_frame s st) else Inl OrdinalGap)" by (rule RestoreFrame_tokens [OF p True])
    show ?thesis unfolding f using restored_frame_ok [OF p True st] by simp
  next
    case False
    with restore_tokens_result obtain e where
      "restore_tokens (cloneRoute (snapshot_route s)) (snapshot_tokens s) restore_start = Inl e"
      by (metis sum.exhaust)
    then show ?thesis by (simp add: RestoreFrame_parts(1) [OF p])
  qed
next
  case False
  then show ?thesis using RestoreFrame_parts(2) by fastforce
qed

text \<open>C12: \<open>RestoreFrame\<close> returns on every snapshot, also on one with contradictory tokens, and every
  frame that it returns satisfies the frame invariant: its tokens lie on its route, are keyed
  consistently, and the ordinals of each bounded transition are exactly 1 up to its count.\<close>

theorem RestoreFrame_ok: "\<exists>r. RestoreFrame s = Some r \<and> (\<forall>f. r = Inr f \<longrightarrow> frame_ok f)"
  by (rule RestoreFrame_result)

section \<open>Round trip\<close>

lemma tokens_ok_sort: "tokens_ok route (sort_key g ts) = tokens_ok route ts"
  by (simp add: tokens_ok_def distinct_map)

lemma Snapshot_parts:
  assumes "frame_ok f"
  shows "frame_parts_ok (snapshot_id (Snapshot f)) (snapshot_workflow (Snapshot f)) (snapshot_origin (Snapshot f))
      (snapshot_route (Snapshot f)) (snapshot_inputs (Snapshot f)) (snapshot_ancestry (Snapshot f))"
    and "tokens_ok (cloneRoute (snapshot_route (Snapshot f))) (snapshot_tokens (Snapshot f))"
    and "set (snapshot_tokens (Snapshot f)) = snd ` set (frame_tokens f)"
    and "snapshot_route (Snapshot f) = frame_route f" "snapshot_inputs (Snapshot f) = frame_inputs f"
proof -
  show "tokens_ok (cloneRoute (snapshot_route (Snapshot f))) (snapshot_tokens (Snapshot f))"
    using assms by (simp add: frame_ok_def Snapshot_def tokens_ok_sort)
qed (use assms in \<open>auto simp: frame_ok_def frame_parts_ok_def Snapshot_def mustCloneRawMessages_def cloneRawMessages_def\<close>)

lemma restored_lookup:
  assumes "frame_ok f" and "restored_tokens st = map (\<lambda>t. (token_key t, t)) ts" and "tokens_ok route ts"
    and "set ts = snd ` set (frame_tokens f)"
  shows "map_of (restored_tokens st) = map_of (frame_tokens f)"
proof (rule ext)
  fix k
  have "distinct (map fst (restored_tokens st))"
    using assms(2,3) by (simp add: tokens_ok_def o_def)
  then have "map_of (restored_tokens st) k = Some t \<longleftrightarrow> t \<in> set ts \<and> token_key t = k" for t
    by (auto simp: assms(2))
  moreover have "map_of (frame_tokens f) k = Some t \<longleftrightarrow> t \<in> set ts \<and> token_key t = k" for t
  proof -
    have "token_key u = j" if "(j, u) \<in> set (frame_tokens f)" for j u
      using assms(1) that by (auto simp: frame_ok_def)
    then show ?thesis unfolding frame_token_iff [OF assms(1)] assms(4) by force
  qed
  ultimately show "map_of (restored_tokens st) k = map_of (frame_tokens f) k"
    by (metis option.exhaust)
qed

lemma restored_count:
  assumes st: "restored ts st" and ords: "ordinals (set ts) i = {1..n}"
  shows "count_of (derived st) i = n"
proof (rule antisym)
  show "count_of (derived st) i \<le> n"
  proof (cases "has_key (derived st) i")
    case True
    then have "count_of (derived st) i \<in> ordinals (set ts) i"
      using st unfolding restored_def by blast
    then show ?thesis by (simp add: ords)
  qed (simp add: has_key_def count_of_def)
  show "n \<le> count_of (derived st) i"
  proof (cases "n = 0")
    case False
    then have "n \<in> ordinals (set ts) i"
      by (simp add: ords word_le_nat_alt Suc_le_eq unat_gt_0)
    then show ?thesis using st unfolding restored_def ordinals_def by auto
  qed simp
qed


text \<open>At 65535 traversals the ordinal counter of the restoring loop wraps to 0, which is never a seen
  ordinal, and the snapshot of a valid frame is refused.\<close>

lemma ordinal_loop_full: "0 \<notin> seen \<Longrightarrow> ordinal_loop seen (- 1) 1 = Some False"
  by (simp add: ordinal_loop_result)

text \<open>The wire form keeps the origin of a snapshot: decoding what was encoded gives the snapshot
  back whenever its origin is one that a frame can have.\<close>

theorem snapshot_wire_roundtrip:
  assumes "validateFrameOrigin (snapshot_origin s) = None"
  shows "wire_to_snapshot (snapshot_to_wire s) = Some s"
  using assms
  by (cases "snapshot_origin s")
     (auto simp: wire_to_snapshot_def snapshot_to_wire_def wire_origin_of_def split: if_splits)

section \<open>Sub-workflows\<close>

lemma ancestry_loop_None:
  "ancestry_loop seen as = None \<longleftrightarrow> distinct as \<and> set as \<inter> seen = {} \<and> (\<forall>a \<in> set as. installed_identity a)"
  by (induction as arbitrary: seen) auto

lemma child_inputs_result:
  assumes "child_inputs declared pin cs acc = Inr m" and "wf_map cs"
  shows "(\<forall>n p. map_of cs n = Some p \<longrightarrow> (\<exists>v d. map_of m n = Some v \<and> map_of pin p = Some v \<and>
       map_of declared n = Some d \<and> rawMessageHasType v (input_type d))) \<and>
    (\<forall>n. map_of cs n = None \<longrightarrow> map_of m n = map_of acc n)"
  using assms
proof (induction declared pin cs acc rule: child_inputs.induct)
  case (2 declared pin c p rest acc)
  from "2.prems"(1) obtain v d where v: "map_of pin p = Some v" "map_of declared c = Some d"
      "rawMessageHasType v (input_type d)"
    and m: "child_inputs declared pin rest (map_put c v acc) = Inr m"
    by (auto split: option.splits if_splits)
  have wf: "wf_map rest" "map_of rest c = None" using "2.prems"(2) by (auto simp: wf_map_def map_of_eq_None_iff)
  from "2.IH" [OF v(1,2) _ m wf(1)] v(3) wf(2) have IH:
    "\<forall>n p. map_of rest n = Some p \<longrightarrow> (\<exists>v d. map_of m n = Some v \<and> map_of pin p = Some v \<and>
       map_of declared n = Some d \<and> rawMessageHasType v (input_type d))"
    "\<forall>n. map_of rest n = None \<longrightarrow> map_of m n = map_of (map_put c v acc) n" by auto
  then have "map_of m c = Some v" using wf(2) by simp
  with IH v show ?case by auto
qed simp

text \<open>C14: A started sub-workflow is a valid, isolated frame: it has no token of its parent, its
  identity occurs nowhere in its chain of callers (no recursion, and the chain has no repetition), its
  origin names the parent's frame and visit, and its inputs are exactly the declared inputs of the child,
  each the parent's value mapped to it and of the declared type.\<close>

theorem StartSubworkflow_isolated:
  fixes child
  defines "declared \<equiv> spec_inputs (document_spec (loaded_document child))"
  assumes start: "StartSubworkflow parent i visit call child route pin = Inr f" and wf: "wf_map (call_inputs call)"
  shows "frame_ok f \<and> frame_tokens f = [] \<and> frame_origin f = ChildFrameOrigin (frame_id parent) visit \<and>
    frame_ancestry f = frame_ancestry parent @ [frame_workflow parent] \<and>
    distinct (frame_ancestry f @ [frame_workflow f]) \<and>
    (\<forall>n. (\<exists>v. map_of (frame_inputs f) n = Some v) \<longleftrightarrow> has_key declared n) \<and>
    (\<forall>n v. map_of (frame_inputs f) n = Some v \<longrightarrow> (\<exists>p d. map_of (call_inputs call) n = Some p \<and>
       map_of pin p = Some v \<and> map_of declared n = Some d \<and> rawMessageHasType v (input_type d)))"
proof -
  let ?a = "frame_ancestry parent @ [frame_workflow parent]"
  from start obtain inputs where ci: "child_inputs declared pin (call_inputs call) [] = Inr inputs"
    and all: "\<forall>n \<in> set (map fst declared). has_key inputs n"
    and new: "newFrame i (workflowIdentity child) (ChildFrameOrigin (frame_id parent) visit) route inputs ?a = Inr f"
    by (auto simp: StartSubworkflow_def Let_def declared_def split: if_splits option.splits sum.splits)
  have f: "frame_origin f = ChildFrameOrigin (frame_id parent) visit" "frame_ancestry f = ?a"
    "frame_inputs f = inputs" "frame_workflow f = workflowIdentity child"
    using new by (auto simp: newFrame_def cloneRawMessages_def split: if_splits option.splits sum.splits)
  have "validateFrameAncestry (frame_origin f) (frame_workflow f) (frame_ancestry f) = None"
    using newFrame_ok [OF new] by (simp add: frame_ok_def frame_parts_ok_def)
  then have anc: "distinct (frame_ancestry f @ [frame_workflow f])"
    by (auto simp: validateFrameAncestry_def f(1) ancestry_loop_None split: if_splits)
  note r = child_inputs_result [OF ci wf]
  have vals: "\<exists>p d. map_of (call_inputs call) n = Some p \<and> map_of pin p = Some v \<and>
      map_of declared n = Some d \<and> rawMessageHasType v (input_type d)" if "map_of inputs n = Some v" for n v
    using r that by (cases "map_of (call_inputs call) n") fastforce+
  have "(\<exists>v. map_of inputs n = Some v) \<longleftrightarrow> has_key declared n" for n
  proof
    assume "\<exists>v. map_of inputs n = Some v"
    then obtain v where "map_of inputs n = Some v" ..
    from vals [OF this] show "has_key declared n" by (auto simp: has_key_def)
  next
    assume "has_key declared n"
    then have "n \<in> set (map fst declared)" by (simp add: has_key_fst)
    with all have "has_key inputs n" by blast
    then show "\<exists>v. map_of inputs n = Some v" by (simp add: has_key_map_of)
  qed
  with vals anc f newFrame_ok [OF new] show ?thesis by simp
qed

lemma map_outputs_result:
  assumes "map_outputs common child outputs os acc = Inr m" and "wf_map os"
  shows "(\<forall>n src. map_of os n = Some src \<longrightarrow> (\<exists>v. map_of m n = Some v \<and> map_output common child outputs n src = Inr v)) \<and>
    (\<forall>n. map_of os n = None \<longrightarrow> map_of m n = map_of acc n)"
  using assms
proof (induction os arbitrary: acc)
  case (Cons e os)
  obtain n src where e: "e = (n, src)" by (cases e)
  from Cons.prems(1) e obtain v where v: "map_output common child outputs n src = Inr v"
    and m: "map_outputs common child outputs os (map_put n v acc) = Inr m" by auto
  have wf: "wf_map os" "map_of os n = None" using Cons.prems(2) e by (auto simp: wf_map_def map_of_eq_None_iff)
  note IH = Cons.IH [OF m wf(1)]
  then have "map_of m n = Some v" using wf(2) by simp
  with IH v e show ?case by auto
qed simp

text \<open>The candidate outputs of a completed sub-workflow are exactly the outputs that the call maps;
  each is the value that the named node of the child produced, and it has the type that the child
  and the parent both declare for it.\<close>

theorem MapSubworkflowOutputs_typed:
  assumes "MapSubworkflowOutputs common call child outputs = Inr candidate" and "wf_map (call_outputs call)"
  shows "(\<forall>n. (\<exists>v. map_of candidate n = Some v) \<longleftrightarrow> has_key (call_outputs call) n) \<and>
    (\<forall>n v. map_of candidate n = Some v \<longrightarrow> (\<exists>src node out m d pd.
       map_of (call_outputs call) n = Some src \<and> parseNodeOutputSource src = Some (node, out) \<and>
       map_of outputs node = Some m \<and> map_of m out = Some v \<and>
       map_of (node_outputs common) n = Some pd \<and> output_type pd = output_type d \<and>
       Option.bind (map_of (document_nodes child) node) (\<lambda>x. map_of (node_outputs (Fields x)) out) = Some d \<and>
       rawMessageHasType v (output_type d)))"
proof -
  note r = map_outputs_result [OF assms(1) [unfolded MapSubworkflowOutputs_def] assms(2)]
  have one: "\<exists>node out m d pd. parseNodeOutputSource src = Some (node, out) \<and>
       map_of outputs node = Some m \<and> map_of m out = Some v \<and>
       map_of (node_outputs common) n = Some pd \<and> output_type pd = output_type d \<and>
       Option.bind (map_of (document_nodes child) node) (\<lambda>x. map_of (node_outputs (Fields x)) out) = Some d \<and>
       rawMessageHasType v (output_type d)" if "map_output common child outputs n src = Inr v" for n src v
    using that by (auto simp: map_output_def Let_def bind_eq_Some_conv split: option.splits if_splits)
  have "(\<exists>v. map_of candidate n = Some v) \<longleftrightarrow> has_key (call_outputs call) n" for n
    using r by (cases "map_of (call_outputs call) n") (simp add: has_key_def, simp add: has_key_def, blast)
  moreover have "\<exists>src. map_of (call_outputs call) n = Some src \<and> map_output common child outputs n src = Inr v"
    if "map_of candidate n = Some v" for n v
    using r that by (cases "map_of (call_outputs call) n") fastforce+
  ultimately show ?thesis using one by blast
qed

section \<open>Witnesses\<close>

definition example_identity :: WorkflowIdentity where
  "example_identity = \<lparr>identity_name = ''example'', identity_version = ''1.0.0'',
     identity_digest = replicate 64 (CHR ''a'')\<rparr>"

definition example_frame :: Frame where
  "example_frame = \<lparr>frame_id = ''f1'', frame_workflow = example_identity, frame_origin = RootFrameOrigin ''run1'',
     frame_route = example_route, frame_inputs = [], frame_tokens = [], frame_traversals = [], frame_ancestry = []\<rparr>"

definition again :: Transition where
  "again = BoundedTransition (plain_transition ''again'' ''plan'') 2"

definition again_token :: "uint64 \<Rightarrow> uint16 \<Rightarrow> TransitionToken" where
  "again_token epoch n = \<lparr>token_key = \<lparr>SourceVisitID = ''v1'', token_transition_id = ''again'', JoinEpoch = epoch\<rparr>,
     token_source = ''plan'', token_target = ''plan'', token_kind = TransitionTokenBounded, Traversal = n,
     token_max_traversals = 2\<rparr>"

definition fired_example :: Frame where
  "fired_example = example_frame\<lparr>frame_tokens := [(token_key (again_token 1 1), again_token 1 1)],
     frame_traversals := [(''again'', 1)]\<rparr>"

definition example_table :: "Identifier \<Rightarrow> Transition option" where
  "example_table i = (if i = ''again'' then Some again else None)"

lemma example_frame_new:
  "newFrame ''f1'' example_identity (RootFrameOrigin ''run1'') example_route [] [] = Inr example_frame"
  by code_simp

lemma example_fire: "FireTransition example_frame ''v1'' ''plan'' 1 again = Inr (again_token 1 1, False, fired_example)"
proof -
  have "\<not> blank ''v1''" by code_simp
  moreover have "findRouteTransition (route_transitions (frame_route example_frame)) ''again'' =
    Some \<lparr>route_transition_id = ''again'', route_transition_from = ''plan'', route_transition_to = ''plan''\<rparr>"
    by code_simp
  moreover have "transition_id again = ''again''" "Target again = ''plan''"
    by (simp_all add: transition_id_def Target_def again_def plain_transition_def)
  ultimately show ?thesis
    by (simp add: FireTransition_def Let_def fired_example_def example_frame_def)
       (simp add: again_def again_token_def new_token_def TraversalCount_def map_put_def Let_def)
qed

lemma example_run: "frame_run example_table example_frame fired_example"
  by (rule frame_run.fire [OF frame_run.start _ example_fire])
     (simp add: example_table_def again_def transition_id_def plain_transition_def)

lemma fired_example_ok: "frame_ok fired_example"
  using frame_run_ok [OF example_run] newFrame_ok [OF example_frame_new] by (simp add: table_ok_def)

theorem FireTransition_replay_witness:
  "FireTransition fired_example ''v1'' ''plan'' 1 again = Inr (again_token 1 1, True, fired_example)"
  using FireTransition_replay [OF example_fire] .

theorem traversal_budget_witness: "card (tokens_of fired_example ''again'') = 1"
proof -
  have "example_table ''again'' = Some (BoundedTransition (plain_transition ''again'' ''plan'') 2)"
    by (simp add: example_table_def again_def)
  from traversal_budget [OF example_frame_new example_run this] show ?thesis
    by (simp add: TraversalCount_def fired_example_def)
qed

theorem FireTransition_bounded_witness:
  "FireTransition (fired_example\<lparr>frame_traversals := [(''again'', 2)]\<rparr>) ''v1'' ''plan'' 2 again =
     Inl (Failure \<lparr>frame_error_code = ''RUN_LOOP_LIMIT_EXHAUSTED'', frame_error_location = ''/transitions'',
       frame_error_transition = ''again''\<rparr>)"
proof -
  let ?f = "fired_example\<lparr>frame_traversals := [(''again'', 2)]\<rparr>"
  let ?c = "plain_transition ''again'' ''plan''"
  let ?rt = "\<lparr>route_transition_id = ''again'', route_transition_from = ''plan'', route_transition_to = ''plan''\<rparr>"
  have id: "transition_id (BoundedTransition ?c 2) = ''again''"
    by (simp add: transition_id_def plain_transition_def)
  have "\<not> blank ''v1''" by code_simp
  moreover have "findRouteTransition (route_transitions (frame_route ?f)) (transition_id (BoundedTransition ?c 2)) = Some ?rt"
    by code_simp
  moreover have "route_transition_from ?rt = ''plan''" "route_transition_to ?rt = Target (BoundedTransition ?c 2)"
    by (simp_all add: Target_def plain_transition_def)
  moreover have "map_of (frame_tokens ?f) \<lparr>SourceVisitID = ''v1'',
      token_transition_id = transition_id (BoundedTransition ?c 2), JoinEpoch = 2\<rparr> = None"
    by (simp add: fired_example_def again_token_def)
  ultimately show ?thesis
    using FireTransition_bounded [of "''v1''" ?f ?c 2 ?rt "''plan''" 2]
    by (simp add: id TraversalCount_def again_def RunLoopLimitExhausted_def)
qed

theorem RestoreFrame_ok_witness: "\<exists>r. RestoreFrame (Snapshot fired_example) = Some r \<and> (\<forall>f. r = Inr f \<longrightarrow> frame_ok f)"
  by (rule RestoreFrame_ok)


theorem snapshot_wire_roundtrip_witness:
  "wire_to_snapshot (snapshot_to_wire (Snapshot fired_example)) = Some (Snapshot fired_example)"
proof -
  have "validateFrameOrigin (snapshot_origin (Snapshot fired_example)) = None" by code_simp
  then show ?thesis by (rule snapshot_wire_roundtrip)
qed

definition child_definition :: LoadedDefinition where
  "child_definition = \<lparr>loaded_document = example_document\<lparr>
       document_metadata := (document_metadata example_document)\<lparr>metadata_name := ''child''\<rparr>,
       document_spec := (document_spec example_document)\<lparr>spec_inputs :=
         [(''goal'', \<lparr>input_resource = None, input_schema_definition = [], input_type = ''string'',
           input_schema = [], input_description = []\<rparr>)]\<rparr>\<rparr>,
     CanonicalJSON = [], loaded_digest = replicate 64 (CHR ''b''), SourceScope = [], SourceRef = []\<rparr>"

definition child_call :: SubworkflowCall where
  "child_call = \<lparr>call_workflow = \<lparr>workflow_name = ''child'', workflow_version = ''1.0.0'', workflow_digest = [],
       workflow_path = []\<rparr>, call_entry = ''plan'', call_terminals = [''ship''],
     call_inputs = [(''goal'', ''task'')], call_outputs = [(''plan'', ''node.plan.output.text'')]\<rparr>"

definition child_frame :: Frame where
  "child_frame = \<lparr>frame_id = ''f2'', frame_workflow = \<lparr>identity_name = ''child'', identity_version = ''1.0.0'',
       identity_digest = replicate 64 (CHR ''b'')\<rparr>, frame_origin = ChildFrameOrigin ''f1'' ''v9'',
     frame_route = example_route, frame_inputs = [(''goal'', [CHR 0x22, CHR 0x22])], frame_tokens = [],
     frame_traversals = [], frame_ancestry = [example_identity]\<rparr>"

lemma example_child:
  "StartSubworkflow example_frame ''f2'' ''v9'' child_call child_definition example_route
     [(''task'', [CHR 0x22, CHR 0x22])] = Inr child_frame"
  by code_simp

theorem StartSubworkflow_isolated_witness:
  "frame_ok child_frame \<and> distinct (frame_ancestry child_frame @ [frame_workflow child_frame])"
proof -
  have "wf_map (call_inputs child_call)" by (simp add: child_call_def wf_map_def)
  from StartSubworkflow_isolated [OF example_child this] show ?thesis by blast
qed

lemma example_outputs:
  "MapSubworkflowOutputs (plain_fields False False [] [(''plan'', \<lparr>output_artifact = None, output_schema_definition = [],
       output_type = ''number'', output_schema = [], output_description = [], output_required = None\<rparr>)] None [])
     child_call (example_document\<lparr>document_spec := (document_spec example_document)\<lparr>Nodes :=
       [(''plan'', plain_node (plain_fields True True [] [(''text'', \<lparr>output_artifact = None, output_schema_definition = [],
         output_type = ''number'', output_schema = [], output_description = [], output_required = None\<rparr>)] None []))]\<rparr>\<rparr>)
     [(''plan'', [(''text'', ''7'')])] = Inr [(''plan'', ''7'')]"
  by code_simp

theorem MapSubworkflowOutputs_typed_witness: "rawMessageHasType ''7'' ''number''"
proof -
  have "wf_map (call_outputs child_call)" by (simp add: child_call_def wf_map_def)
  from MapSubworkflowOutputs_typed [OF example_outputs this, THEN conjunct2, THEN spec [of _ "''plan''"], THEN spec [of _ "''7''"]]
  show ?thesis by (auto simp: plain_fields_def)
qed

end
