(* ===== verification/Validation.thy ===== *)
theory Validation
  imports Route "HOL-Library.Log_Nat"
begin

text \<open>
  Static validation of an authored workflow (\<open>core/workflow/validate.go\<close>, with the checks that
  \<open>resources.go\<close> and \<open>workspace.go\<close> add): transitions are indexed, then each node, the joins, the
  reachability of the nodes, the cycles, the default route, the profiles and the resources are
  checked, and all errors are returned in a stable order. Every check returns the errors it adds,
  in the order in which it adds them.

  A Go map is an association list whose order is the order in which \<open>range\<close> visits it. Two things
  come from outside: \<open>lower\<close> is \<open>strings.ToLower\<close>, whose Unicode table is not written out, and
  \<open>capabilities\<close> is the registry the validator is given, if it is given one. The embedded files
  \<open>component_requirements.json\<close> and \<open>value_schemas.json\<close> appear as the tables \<open>ComponentRequirements\<close>
  and \<open>builtin_schema_types\<close>.
\<close>

section \<open>Errors and locations\<close>

definition ValidationSchemaInvalid :: ValidationCode where "ValidationSchemaInvalid = ''WF_SCHEMA_INVALID''"
definition ValidationReferenceMissing :: ValidationCode where "ValidationReferenceMissing = ''WF_REFERENCE_MISSING''"
definition ValidationBindingIncompatible :: ValidationCode where "ValidationBindingIncompatible = ''WF_BINDING_INCOMPATIBLE''"
definition ValidationReasoningEdgeInvalid :: ValidationCode where "ValidationReasoningEdgeInvalid = ''WF_REASONING_EDGE_INVALID''"
definition ValidationGateInvalid :: ValidationCode where "ValidationGateInvalid = ''WF_GATE_INVALID''"
definition ValidationUnreachableNode :: ValidationCode where "ValidationUnreachableNode = ''WF_UNREACHABLE_NODE''"
definition ValidationUnboundedCycle :: ValidationCode where "ValidationUnboundedCycle = ''WF_UNBOUNDED_CYCLE''"
definition ValidationJoinInvalid :: ValidationCode where "ValidationJoinInvalid = ''WF_JOIN_INVALID''"
definition ValidationDefaultRouteInvalid :: ValidationCode where "ValidationDefaultRouteInvalid = ''WF_DEFAULT_ROUTE_INVALID''"
definition ValidationCapabilityMissing :: ValidationCode where "ValidationCapabilityMissing = ''CAPABILITY_REQUIRED_MISSING''"
definition ValidationReadinessInvalid :: ValidationCode where "ValidationReadinessInvalid = ''WF_READINESS_INVALID''"
definition ValidationRoutingInvalid :: ValidationCode where "ValidationRoutingInvalid = ''WF_ROUTING_INVALID''"
definition ValidationDefinitionInvalid :: ValidationCode where "ValidationDefinitionInvalid = ''WF_NODE_DEFINITION_INVALID''"

text \<open>\<open>add\<close> sorts the values of each detail; \<open>check\<close> adds an error unless the condition holds.\<close>

definition add :: "ValidationCode \<Rightarrow> string \<Rightarrow> string list gomap \<Rightarrow> ValidationError" where
  "add code location details = \<lparr>validation_code = code, validation_location = location,
     validation_details = map (\<lambda>(k, vs). (k, sort vs)) details\<rparr>"

definition check :: "bool \<Rightarrow> ValidationCode \<Rightarrow> string \<Rightarrow> ValidationError list" where
  "check ok code location = (if ok then [] else [add code location []])"

definition node_location :: "Identifier \<Rightarrow> string \<Rightarrow> string" where
  "node_location nodeID rest = ''/spec/nodes/'' @ nodeID @ rest"

definition transitionLocation :: "Identifier \<Rightarrow> nat \<Rightarrow> string" where
  "transitionLocation nodeID index = node_location nodeID (''/transitions/'' @ decimal index)"

section \<open>Literals\<close>

text \<open>A JSON number as a \<open>float64\<close>: its sign and decimal digits give an exact rational number, which is
  rounded to 53 bits, ties to even; a value that rounds beyond the largest finite number is an error.\<close>

definition floor_log2 :: "rat \<Rightarrow> int" where
  "floor_log2 q = (if 1 \<le> q then int (floorlog 2 (nat \<lfloor>q\<rfloor>)) - 1
     else - int (floorlog 2 (nat (\<lceil>1 / q\<rceil> - 1))))"

definition round_half_even :: "rat \<Rightarrow> int" where
  "round_half_even x = (let f = \<lfloor>x\<rfloor>; d = x - of_int f in
     if d < 1 / 2 \<or> d = 1 / 2 \<and> even f then f else f + 1)"

definition float64_round :: "rat \<Rightarrow> rat option" where
  "float64_round q = (if q = 0 then Some 0
     else (let e = max (floor_log2 \<bar>q\<bar> - 52) (- 1074);
               v = of_int (round_half_even (q * 2 powi (- e))) * 2 powi e in
           if 2 ^ 1024 \<le> \<bar>v\<bar> then None else Some v))"

definition signed_digits :: "string \<Rightarrow> int" where
  "signed_digits s = (case s of [] \<Rightarrow> 0
     | c # cs \<Rightarrow> if c = CHR ''-'' then - int (digits_value cs)
         else if c = CHR ''+'' then int (digits_value cs) else int (digits_value s))"

definition float64_literal :: "string \<Rightarrow> rat option" where
  "float64_literal lit =
    (let neg = has_prefix ''-'' lit; s = (if neg then drop 1 lit else lit);
         ip = takeWhile is_digit s; s1 = dropWhile is_digit s;
         fp = (if has_prefix ''.'' s1 then takeWhile is_digit (drop 1 s1) else []);
         s2 = (if has_prefix ''.'' s1 then dropWhile is_digit (drop 1 s1) else s1);
         m = int (digits_value (ip @ fp)); e = signed_digits (drop 1 s2) - int (length fp);
         size = int (length (dropWhile (\<lambda>c. c = CHR ''0'') (ip @ fp))) + e in
     if m = 0 \<or> size < - 400 then Some 0
     else if 400 < size then None
     else float64_round (of_int (if neg then - m else m) * 10 powi e))"

definition rawValueType :: "raw_message \<Rightarrow> ValueType option" where
  "rawValueType raw = (case json_first raw of
     Some JNull \<Rightarrow> Some ValueNull
   | Some (JBool _) \<Rightarrow> Some ValueBoolean
   | Some (JString _) \<Rightarrow> Some ValueString
   | Some (JArray _) \<Rightarrow> Some ValueArray
   | Some (JObject _) \<Rightarrow> Some ValueObject
   | Some (JNumber lit) \<Rightarrow> if parse_int64 lit \<noteq> None then Some ValueInteger
       else if float64_literal lit \<noteq> None then Some ValueNumber else None
   | None \<Rightarrow> None)"

text \<open>\<open>Unmarshal\<close> into an \<open>any\<close> fails when a number anywhere in the text is no \<open>float64\<close>.\<close>

fun floats_ok :: "json \<Rightarrow> bool" where
  "floats_ok (JNumber lit) = (float64_literal lit \<noteq> None)"
| "floats_ok (JArray vs) = list_all floats_ok vs"
| "floats_ok (JObject ms) = list_all (\<lambda>(k, v). floats_ok v) ms"
| "floats_ok _ = True"

text \<open>The conversion of a \<open>float64\<close> to \<open>int64\<close> truncates; outside the range it yields the least integer,
  as the amd64 instruction does.\<close>

definition int64_of_float :: "rat \<Rightarrow> int" where
  "int64_of_float x = (let t = (if 0 \<le> x then \<lfloor>x\<rfloor> else \<lceil>x\<rceil>) in
     if - (2 ^ 63) \<le> t \<and> t < 2 ^ 63 then t else - (2 ^ 63))"

definition integral_float :: "rat \<Rightarrow> bool" where
  "integral_float x \<longleftrightarrow> float64_round (of_int (int64_of_float x)) = Some x"

definition literalMatchesType :: "raw_message \<Rightarrow> ValueType \<Rightarrow> bool" where
  "literalMatchesType raw kind = (case json_parse raw of
     None \<Rightarrow> False
   | Some v \<Rightarrow> floats_ok v \<and>
      (let storage = StorageType kind in
       if storage = ValueNull then v = JNull
       else if storage = ValueBoolean then (case v of JBool _ \<Rightarrow> True | _ \<Rightarrow> False)
       else if storage = ValueString then (case v of JString _ \<Rightarrow> True | _ \<Rightarrow> False)
       else if storage = ValueObject then (case v of JObject _ \<Rightarrow> True | _ \<Rightarrow> False)
       else if storage = ValueArray then (case v of JArray _ \<Rightarrow> True | _ \<Rightarrow> False)
       else if storage = ValueNumber then (case v of JNumber _ \<Rightarrow> True | _ \<Rightarrow> False)
       else if storage = ValueInteger
       then (case v of JNumber lit \<Rightarrow> (case float64_literal lit of Some x \<Rightarrow> integral_float x | None \<Rightarrow> False)
             | _ \<Rightarrow> False)
       else False))"

section \<open>The index of the transitions\<close>

record transitionRecord =
  record_source :: Identifier
  record_target :: Identifier
  record_transition :: Transition
  record_index :: nat

record validationState =
  indexed :: "transitionRecord gomap"
  incoming :: "transitionRecord list gomap"
  adjacency :: "Identifier list gomap"
  normalGraph :: "Identifier list gomap"
  index_errors :: "ValidationError list"

definition empty_index :: "Document \<Rightarrow> validationState" where
  "empty_index document = (let ids = sorted_keys (document_nodes document) in
     \<lparr>indexed = [], incoming = map (\<lambda>i. (i, [])) ids, adjacency = map (\<lambda>i. (i, [])) ids,
      normalGraph = map (\<lambda>i. (i, [])) ids, index_errors = []\<rparr>)"

definition index_transition ::
  "Document \<Rightarrow> Identifier \<Rightarrow> nat \<Rightarrow> Transition \<Rightarrow> validationState \<Rightarrow> validationState" where
  "index_transition document nodeID index t state =
    (let r = \<lparr>record_source = nodeID, record_target = Target t, record_transition = t, record_index = index\<rparr>;
         location = transitionLocation nodeID index;
         state = (if has_key (indexed state) (transition_id t)
           then state\<lparr>index_errors := index_errors state @
             [add ValidationSchemaInvalid (location @ ''/id'') [(''transitionIds'', [transition_id t])]]\<rparr>
           else state\<lparr>indexed := map_put (transition_id t) r (indexed state)\<rparr>) in
     if \<not> has_key (document_nodes document) (Target t)
     then state\<lparr>index_errors := index_errors state @ [add ValidationReferenceMissing (location @ ''/to'') []]\<rparr>
     else state\<lparr>incoming := append_at (Target t) r (incoming state),
       adjacency := append_at nodeID (Target t) (adjacency state),
       normalGraph := (case t of BoundedTransition _ _ \<Rightarrow> normalGraph state
         | NormalTransition _ \<Rightarrow> append_at nodeID (Target t) (normalGraph state))\<rparr>)"

fun index_node :: "Document \<Rightarrow> Identifier \<Rightarrow> nat \<Rightarrow> Transition list \<Rightarrow> validationState \<Rightarrow> validationState" where
  "index_node document nodeID index [] state = state"
| "index_node document nodeID index (t # ts) state =
     index_node document nodeID (Suc index) ts (index_transition document nodeID index t state)"

definition indexTransitions :: "Document \<Rightarrow> validationState" where
  "indexTransitions document =
     foldl (\<lambda>state nodeID. index_node document nodeID 0 (node_transitions document nodeID) state)
       (empty_index document) (sorted_keys (document_nodes document))"

section \<open>Checks of a node\<close>

definition validateNodeDefinition :: "Identifier \<Rightarrow> NodeFields \<Rightarrow> ValidationError list" where
  "validateNodeDefinition nodeID common = (case Definition common of
     None \<Rightarrow> []
   | Some d \<Rightarrow> check (digestPattern (definition_digest d)) ValidationDefinitionInvalid
       (node_location nodeID ''/definition''))"

definition expected_routing_outputs :: "RoutingExecutor \<Rightarrow> ValueType gomap" where
  "expected_routing_outputs e = foldl (\<lambda>m (k, v). map_put k v m) []
     [(RouteOutput e, ValueString), (RationaleOutput e, ValueString), (AdviceOutput e, ValueString),
      (MissingInformationOutput e, ValueArray), (AssumptionsOutput e, ValueArray),
      (ConfirmationOutput e, ValueBoolean)]"

definition validateRouting :: "Identifier \<Rightarrow> Node \<Rightarrow> ValidationError list" where
  "validateRouting nodeID node = (case node of
     RoutingNode common e \<Rightarrow>
       concat (map (\<lambda>(index, branch). check (branch_transition branch \<in> set (map transition_id (Transitions common)))
           ValidationRoutingInvalid (node_location nodeID (''/routing/branches/'' @ decimal index @ ''/transition'')))
         (enumerate 0 (Branches e))) @
       concat (map (\<lambda>(output, kind). check (case map_of (node_outputs common) output of
             Some d \<Rightarrow> output_type d = kind | None \<Rightarrow> False)
           ValidationRoutingInvalid (node_location nodeID (''/outputs/'' @ output)))
         (expected_routing_outputs e))
   | _ \<Rightarrow> [])"

definition validatePointExecution :: "Identifier \<Rightarrow> Node \<Rightarrow> ValidationError list" where
  "validatePointExecution nodeID node = (case node of
     PointExecutionNode common e \<Rightarrow>
       (let location = node_location nodeID ''/points/planInput'' in
        case map_of (node_inputs common) (PlanInput e) of
          None \<Rightarrow> [add ValidationReferenceMissing location []]
        | Some binding \<Rightarrow> check (binding_value_type binding = ValueMarkdown \<or>
            StorageType (binding_value_type binding) = ValueObject) ValidationBindingIncompatible location)
   | _ \<Rightarrow> [])"

definition validateImplementation :: "Identifier \<Rightarrow> Node \<Rightarrow> ValidationError list" where
  "validateImplementation nodeID node = (case node of
     ImplementationNode common e \<Rightarrow>
       (case map_of (node_inputs common) (TaskInput e) of
          None \<Rightarrow> [add ValidationReferenceMissing (node_location nodeID ''/implementation/taskInput'') []]
        | Some binding \<Rightarrow> check (case binding of RequiredBinding b \<Rightarrow> required_type b = ValueTask \<or>
              StorageType (required_type b) = ValueString \<or> StorageType (required_type b) = ValueObject
            | OptionalBinding _ \<Rightarrow> False)
            ValidationBindingIncompatible (node_location nodeID ''/inputs'')) @
       check (case map_of (node_outputs common) ''changeset'' of
           None \<Rightarrow> False
         | Some output \<Rightarrow> (output_type output = ValueObject \<or> output_type output = ''schema:changeset_v1'') \<and>
             output_required output \<noteq> Some False)
         ValidationSchemaInvalid (node_location nodeID ''/outputs/changeset'') @
       check (sort (Permissions common) = [''process.run'', ''workspace.write''])
         ValidationSchemaInvalid (node_location nodeID ''/permissions'')
   | _ \<Rightarrow> [])"

definition validateApproval :: "Identifier \<Rightarrow> Node \<Rightarrow> ValidationError list" where
  "validateApproval nodeID node = (case node of
     ApprovalNode common (ExternalApproval system evidence) \<Rightarrow>
       (let location = node_location nodeID ''/approval/evidenceOutput'' in
        case map_of (node_outputs common) evidence of
          None \<Rightarrow> [add ValidationReferenceMissing location []]
        | Some d \<Rightarrow> check (StorageType (output_type d) = ValueObject \<and> output_schema d \<noteq> [])
            ValidationBindingIncompatible location)
   | _ \<Rightarrow> [])"

text \<open>The searches that stop at a goal: \<open>nodeReaches\<close>, and \<open>branchReachesIncoming\<close>, which does not
  continue past the join.\<close>

lemma visit_progress:
  assumes "current \<notin> visited"
  shows "card (fst ` set m - insert current visited) < card (fst ` set m - visited) \<or>
    successors m f current = [] \<and> fst ` set m - insert current visited = fst ` set m - visited"
proof (cases "map_of m current")
  case None
  moreover from None have "current \<notin> fst ` set m" by (simp add: map_of_eq_None_iff)
  ultimately show ?thesis by (simp add: successors_def)
next
  case (Some n)
  then have "current \<in> fst ` set m" by (force dest: map_of_SomeD)
  then have "fst ` set m - insert current visited \<subset> fst ` set m - visited" using assms by blast
  then show ?thesis by (intro disjI1 psubset_card_mono) simp_all
qed

function find_from :: "('a \<times> 'n) list \<Rightarrow> ('a \<Rightarrow> 'n \<Rightarrow> 'a list) \<Rightarrow> 'a \<Rightarrow> 'a set \<Rightarrow> 'a list \<Rightarrow> 'a set \<Rightarrow> bool" where
  "find_from m f goal blocked [] visited = False"
| "find_from m f goal blocked (current # stack) visited =
     (if current = goal then True
      else if current \<in> blocked \<or> current \<in> visited then find_from m f goal blocked stack visited
      else find_from m f goal blocked (rev (successors m f current) @ stack) (insert current visited))"
  by pat_completeness auto

termination
proof (relation "measures [\<lambda>(m, f, goal, blocked, stack, visited). card (fst ` set m - visited),
    \<lambda>(m, f, goal, blocked, stack, visited). length stack]")
  fix m :: "('a \<times> 'n) list" and f :: "'a \<Rightarrow> 'n \<Rightarrow> 'a list"
    and goal current :: 'a and blocked stack visited
  assume "\<not> (current \<in> blocked \<or> current \<in> visited)"
  then have "card (fst ` set m - insert current visited) < card (fst ` set m - visited) \<or>
      successors m f current = [] \<and> fst ` set m - insert current visited = fst ` set m - visited"
    by (intro visit_progress) simp
  then show "((m, f, goal, blocked, rev (successors m f current) @ stack, insert current visited),
      m, f, goal, blocked, current # stack, visited)
    \<in> measures [\<lambda>(m, f, goal, blocked, stack, visited). card (fst ` set m - visited),
        \<lambda>(m, f, goal, blocked, stack, visited). length stack]"
    by auto
qed auto

definition nodeReaches :: "validationState \<Rightarrow> Identifier \<Rightarrow> Identifier \<Rightarrow> bool" where
  "nodeReaches state start target = find_from (adjacency state) neighbours target {} [start] {}"

definition validateReadiness :: "Document \<Rightarrow> validationState \<Rightarrow> Identifier \<Rightarrow> NodeFields \<Rightarrow> ValidationError list" where
  "validateReadiness document state nodeID common = (case node_readiness common of
     None \<Rightarrow> []
   | Some readiness \<Rightarrow> concat (map (\<lambda>(index, remedy).
       (let location = node_location nodeID (''/readiness/remedies/'' @ decimal index @ ''/target'');
            target = remedy_target remedy in
        if \<not> has_key (document_nodes document) target then [add ValidationReferenceMissing location []]
        else check (target = nodeID \<or> nodeReaches state target nodeID) ValidationReadinessInvalid location))
       (enumerate 0 (Remedies readiness))))"

definition bindingSourceType :: "Document \<Rightarrow> string \<Rightarrow> ValueType option" where
  "bindingSourceType document source =
    (let parts = split_on (CHR ''.'') source in
     if length parts = 3 \<and> parts ! 0 = ''run'' \<and> parts ! 1 = ''input''
     then map_option input_type (map_of (spec_inputs (document_spec document)) (parts ! 2))
     else if length parts = 4 \<and> parts ! 0 = ''node'' \<and> parts ! 2 = ''output''
     then (case map_of (document_nodes document) (parts ! 1) of
         None \<Rightarrow> None
       | Some node \<Rightarrow> map_option output_type (map_of (node_outputs (Fields node)) (parts ! 3)))
     else None)"

definition default_matches :: "raw_message \<Rightarrow> ValueType \<Rightarrow> bool" where
  "default_matches raw declared = (case rawValueType raw of
     Some actual \<Rightarrow> typesCompatible actual (StorageType declared) | None \<Rightarrow> False)"

text \<open>An absent default is the empty text.\<close>

definition validateBinding :: "Document \<Rightarrow> Identifier \<Rightarrow> Identifier \<Rightarrow> Binding \<Rightarrow> ValidationError list" where
  "validateBinding document nodeID inputID binding =
    (let location = node_location nodeID (''/inputs/'' @ inputID) in
     (case bindingSourceType document (Source binding) of
        None \<Rightarrow> [add ValidationReferenceMissing (location @ ''/from'') []]
      | Some sourceType \<Rightarrow> check (bindingPointer binding \<noteq> [] \<or> typesCompatible sourceType (binding_value_type binding))
          ValidationBindingIncompatible location) @
     (case binding of
        OptionalBinding b \<Rightarrow> check (optional_default b = [] \<or> default_matches (optional_default b) (optional_type b))
          ValidationBindingIncompatible (location @ ''/default'')
      | RequiredBinding _ \<Rightarrow> []))"

definition validateBindings :: "Document \<Rightarrow> Identifier \<Rightarrow> NodeFields \<Rightarrow> ValidationError list" where
  "validateBindings document nodeID common = concat (map (\<lambda>inputID.
     case map_of (node_inputs common) inputID of None \<Rightarrow> []
     | Some binding \<Rightarrow> validateBinding document nodeID inputID binding) (sorted_keys (node_inputs common)))"

definition validateValidators :: "Identifier \<Rightarrow> NodeFields \<Rightarrow> ValidationError list" where
  "validateValidators nodeID common = concat (map (\<lambda>(index, validator).
     case validator of
       SchemaValidator output _ \<Rightarrow> check (has_key (node_outputs common) output) ValidationReferenceMissing
         (node_location nodeID (''/validators/'' @ decimal index @ ''/output''))
     | _ \<Rightarrow> []) (enumerate 0 (node_validators common)))"

section \<open>Predicates\<close>

definition checkReference :: "Document \<Rightarrow> NodeFields \<Rightarrow> bool \<Rightarrow> string \<Rightarrow> string \<Rightarrow>
    ValidationError list \<times> ValueType option" where
  "checkReference document common allowOutput reference location =
    (let parts = split_on (CHR ''.'') reference;
         (declared, rootLength) =
           (if 2 \<le> length parts \<and> parts ! 0 = ''output''
            then (if allowOutput then map_option output_type (map_of (node_outputs common) (parts ! 1)) else None, 2)
            else if 2 \<le> length parts \<and> parts ! 0 = ''input''
            then (map_option binding_value_type (map_of (node_inputs common) (parts ! 1)), 2)
            else if 3 \<le> length parts \<and> parts ! 0 = ''run'' \<and> parts ! 1 = ''input''
            then (map_option input_type (map_of (spec_inputs (document_spec document)) (parts ! 2)), 3)
            else (None, 0)) in
     if declared = None then ([add ValidationReferenceMissing location []], None)
     else if length parts > rootLength then ([], None)
     else ([], declared))"

fun checkOperand :: "Document \<Rightarrow> NodeFields \<Rightarrow> bool \<Rightarrow> Operand \<Rightarrow> string \<Rightarrow>
    ValidationError list \<times> ValueType option" where
  "checkOperand document common allowOutput (ReferenceOperand ref) location =
     checkReference document common allowOutput ref (location @ ''/ref'')"
| "checkOperand document common allowOutput (LiteralOperand raw) location = ([], rawValueType raw)"
| "checkOperand document common allowOutput OperandNil location = ([], None)"

definition validComparison :: "ComparisonOperator \<Rightarrow> ValueType \<Rightarrow> ValueType \<Rightarrow> bool" where
  "validComparison operator left right =
    (if operator = CompareEqual \<or> operator = CompareNotEqual
     then typesCompatible left right \<or> typesCompatible right left
     else left = ValueString \<and> right = ValueString \<or>
       (left = ValueInteger \<or> left = ValueNumber) \<and> (right = ValueInteger \<or> right = ValueNumber))"

fun checkPredicate :: "Document \<Rightarrow> NodeFields \<Rightarrow> bool \<Rightarrow> Predicate \<Rightarrow> string \<Rightarrow> ValidationError list"
  and check_arguments :: "Document \<Rightarrow> NodeFields \<Rightarrow> bool \<Rightarrow> Predicate list \<Rightarrow> string \<Rightarrow> nat \<Rightarrow> ValidationError list"
where
  "checkPredicate document common allowOutput (ComparisonPredicate operator l r) location =
    (let (leftErrors, leftType) = checkOperand document common allowOutput l (location @ ''/args/0'');
         (rightErrors, rightType) = checkOperand document common allowOutput r (location @ ''/args/1'') in
     leftErrors @ rightErrors @
     (case (leftType, rightType) of
        (Some left, Some right) \<Rightarrow> check (validComparison operator left right) ValidationBindingIncompatible location
      | _ \<Rightarrow> []))"
| "checkPredicate document common allowOutput (PresentPredicate ref) location =
     fst (checkReference document common allowOutput ref (location @ ''/arg/ref''))"
| "checkPredicate document common allowOutput (LogicalPredicate operator args) location =
     check_arguments document common allowOutput args location 0"
| "checkPredicate document common allowOutput (NotPredicate arg) location =
     checkPredicate document common allowOutput arg (location @ ''/arg'')"
| "checkPredicate document common allowOutput (ConstantPredicate _) location = []"
| "checkPredicate document common allowOutput PredicateNil location = []"
| "check_arguments document common allowOutput [] location index = []"
| "check_arguments document common allowOutput (arg # args) location index =
     checkPredicate document common allowOutput arg (location @ ''/args/'' @ decimal index) @
     check_arguments document common allowOutput args location (Suc index)"

fun operand_has_prefix :: "string \<Rightarrow> Operand \<Rightarrow> bool" where
  "operand_has_prefix p (ReferenceOperand ref) = has_prefix p ref"
| "operand_has_prefix p _ = False"

fun predicateHasPrefix :: "Predicate \<Rightarrow> string \<Rightarrow> bool" where
  "predicateHasPrefix (ComparisonPredicate _ l r) p = (operand_has_prefix p l \<or> operand_has_prefix p r)"
| "predicateHasPrefix (PresentPredicate ref) p = has_prefix p ref"
| "predicateHasPrefix (LogicalPredicate _ args) p = list_ex (\<lambda>arg. predicateHasPrefix arg p) args"
| "predicateHasPrefix (NotPredicate arg) p = predicateHasPrefix arg p"
| "predicateHasPrefix _ p = False"

definition validatePredicates :: "Document \<Rightarrow> Identifier \<Rightarrow> Node \<Rightarrow> ValidationError list" where
  "validatePredicates document nodeID node =
    (let common = Fields node in
     concat (map (\<lambda>(index, t).
       (let when = transition_when (transitionFields t); location = transitionLocation nodeID index @ ''/when'' in
        if when = PredicateNil then []
        else checkPredicate document common True when location @
          check (\<not> (node_type node = NodeReasoning \<and> predicateHasPrefix when ''output.''))
            ValidationReasoningEdgeInvalid location)) (enumerate 0 (Transitions common))) @
     (case node of
        GateNode _ e \<Rightarrow>
          (let location = node_location nodeID ''/gate/condition'' in
           check ((case map_of (node_outputs common) ''passed'' of
                Some d \<Rightarrow> output_type d = ValueBoolean | None \<Rightarrow> False) \<and>
              (case map_of (node_outputs common) ''gate_evidence'' of
                Some d \<Rightarrow> StorageType (output_type d) = ValueObject | None \<Rightarrow> False))
             ValidationGateInvalid (node_location nodeID ''/outputs'') @
           checkPredicate document common False (gate_condition e) location @
           check (\<not> predicateHasPrefix (gate_condition e) ''output.'') ValidationGateInvalid location)
      | _ \<Rightarrow> []) @
     (case node_checkpoint common of
        ApproveOnChangeCheckpoint when _ \<Rightarrow>
          (let location = node_location nodeID ''/checkpoint/when'' in
           checkPredicate document common True when location @
           check (\<not> (node_type node = NodeReasoning \<and> predicateHasPrefix when ''output.''))
             ValidationReasoningEdgeInvalid location)
      | _ \<Rightarrow> []))"

section \<open>Sub-workflows and capabilities\<close>

definition validateSubworkflow :: "Identifier \<Rightarrow> Node \<Rightarrow> ValidationError list" where
  "validateSubworkflow nodeID node = (case node of
     SubworkflowNode common call \<Rightarrow>
       concat (map (\<lambda>(childInput, parentInput). check (has_key (node_inputs common) parentInput)
           ValidationReferenceMissing (node_location nodeID (''/call/inputs/'' @ childInput))) (call_inputs call)) @
       concat (map (\<lambda>(parentOutput, _). check (has_key (node_outputs common) parentOutput)
           ValidationReferenceMissing (node_location nodeID (''/call/outputs/'' @ parentOutput))) (call_outputs call))
   | _ \<Rightarrow> [])"

datatype CapabilityKind = CapabilitySkill | CapabilityTool

type_synonym CapabilityAvailability = "CapabilityKind \<Rightarrow> string \<Rightarrow> bool"

definition NewCapabilitySnapshot :: "(CapabilityKind \<times> string) list \<Rightarrow> CapabilityAvailability" where
  "NewCapabilitySnapshot references kind name \<longleftrightarrow> (kind, name) \<in> set references"

definition missing_capabilities :: "CapabilityAvailability \<Rightarrow> CapabilityKind \<Rightarrow> string \<Rightarrow> Identifier \<Rightarrow>
    string list \<Rightarrow> ValidationError list" where
  "missing_capabilities available kind segment nodeID names = concat (map (\<lambda>(index, name).
     if available kind name then []
     else [add ValidationCapabilityMissing
       (node_location nodeID (''/reasoning/'' @ segment @ ''/'' @ decimal index)) [(''capabilities'', [name])]])
     (enumerate 0 names))"

definition validateCapabilities :: "CapabilityAvailability option \<Rightarrow> Identifier \<Rightarrow> Node \<Rightarrow> ValidationError list" where
  "validateCapabilities capabilities nodeID node = (case (capabilities, node) of
     (Some available, ReasoningNode _ e) \<Rightarrow>
       missing_capabilities available CapabilitySkill ''skills'' nodeID (reasoning_skills e) @
       missing_capabilities available CapabilityTool ''tools'' nodeID (reasoning_tools e)
   | _ \<Rightarrow> [])"

section \<open>Required connections\<close>

record ComponentConnection =
  is_input :: bool
  connection_field :: string
  connection_id :: Identifier
  connection_type :: ValueType
  LegacyOptional :: bool

definition input_from :: "string \<Rightarrow> ValueType \<Rightarrow> ComponentConnection" where
  "input_from field kind = \<lparr>is_input = True, connection_field = field, connection_id = [],
     connection_type = kind, LegacyOptional = False\<rparr>"

definition output_named :: "Identifier \<Rightarrow> ValueType \<Rightarrow> ComponentConnection" where
  "output_named i kind = \<lparr>is_input = False, connection_field = [], connection_id = i,
     connection_type = kind, LegacyOptional = False\<rparr>"

fun ComponentRequirements :: "NodeType \<Rightarrow> ComponentConnection list" where
  "ComponentRequirements NodeWorkspacePrepare =
     [input_from ''repositoryInput'' ValueRepository, output_named ''workspace'' ValueWorkspace]"
| "ComponentRequirements NodeImplementation =
     [(input_from ''workspaceInput'' ValueWorkspace)\<lparr>LegacyOptional := True\<rparr>,
      output_named ''changeset'' ''schema:changeset_v1'']"
| "ComponentRequirements NodeWorkspaceValidate =
     [input_from ''workspaceInput'' ValueWorkspace, output_named ''validation'' ''schema:validation_v1'']"
| "ComponentRequirements NodeGitCommit =
     [input_from ''workspaceInput'' ValueWorkspace, input_from ''changesetInput'' ''schema:changeset_v1'',
      input_from ''textInput'' ''schema:delivery_text_v1'', output_named ''commit'' ''schema:commit_v1'']"
| "ComponentRequirements NodeGitPush =
     [input_from ''workspaceInput'' ValueWorkspace, input_from ''commitInput'' ''schema:commit_v1'',
      output_named ''branch'' ''schema:published_branch_v1'']"
| "ComponentRequirements NodeCreatePR =
     [input_from ''workspaceInput'' ValueWorkspace, input_from ''branchInput'' ''schema:published_branch_v1'',
      input_from ''textInput'' ''schema:delivery_text_v1'', output_named ''pull_request'' ''schema:pull_request_v1'']"
| "ComponentRequirements _ = []"

text \<open>A field of the executor of a node, by its JSON name.\<close>

fun executor_members :: "Node \<Rightarrow> Identifier gomap" where
  "executor_members (WorkspacePrepareNode _ e) = [(''repositoryInput'', RepositoryInput e)]"
| "executor_members (WorkspaceValidateNode _ e) = [(''workspaceInput'', validate_workspace e)]"
| "executor_members (ImplementationNode _ e) = [(''workspaceInput'', implementation_workspace e)]"
| "executor_members (GitCommitNode _ e) = [(''workspaceInput'', commit_workspace e),
     (''changesetInput'', ChangesetInput e), (''textInput'', commit_text e)]"
| "executor_members (GitPushNode _ e) = [(''workspaceInput'', push_workspace e), (''commitInput'', CommitInput e)]"
| "executor_members (CreatePRNode _ e) = [(''workspaceInput'', pr_workspace e), (''branchInput'', BranchInput e),
     (''textInput'', pr_text e)]"
| "executor_members _ = []"

definition executor_field :: "Node \<Rightarrow> string \<Rightarrow> Identifier" where
  "executor_field node name = (case map_of (executor_members node) name of Some i \<Rightarrow> i | None \<Rightarrow> [])"

definition connected_input :: "Identifier \<Rightarrow> NodeFields \<Rightarrow> Identifier \<Rightarrow> ValueType \<Rightarrow> ValidationError list" where
  "connected_input nodeID common name kind = check (case map_of (node_inputs common) name of
      Some (RequiredBinding b) \<Rightarrow> required_type b = kind | _ \<Rightarrow> False)
    ValidationBindingIncompatible (node_location nodeID (''/inputs/'' @ name))"

definition connected_output :: "Identifier \<Rightarrow> Node \<Rightarrow> Identifier \<Rightarrow> ValueType \<Rightarrow> ValidationError list" where
  "connected_output nodeID node name kind = check (case map_of (node_outputs (Fields node)) name of
      None \<Rightarrow> False
    | Some d \<Rightarrow> (output_type d = kind \<or> (node_type node = NodeImplementation \<or> node_type node = NodeWorkspaceValidate) \<and>
        output_type d = StorageType kind) \<and> output_required d \<noteq> Some False)
    ValidationSchemaInvalid (node_location nodeID (''/outputs/'' @ name))"

definition validate_connection :: "Identifier \<Rightarrow> Node \<Rightarrow> ComponentConnection \<Rightarrow> ValidationError list" where
  "validate_connection nodeID node c =
    (let name = (if connection_field c \<noteq> [] then executor_field node (connection_field c) else connection_id c) in
     if connection_field c \<noteq> [] \<and> name = [] \<and> LegacyOptional c then []
     else if is_input c then connected_input nodeID (Fields node) name (connection_type c)
     else connected_output nodeID node name (connection_type c))"

definition validateWorkspace :: "Identifier \<Rightarrow> Node \<Rightarrow> ValidationError list" where
  "validateWorkspace nodeID node =
     concat (map (validate_connection nodeID node) (ComponentRequirements (node_type node))) @
     (case node of
        GitPushNode _ e \<Rightarrow> check (\<not> blank (push_remote e) \<and> \<not> has_prefix ''-'' (push_remote e))
          ValidationSchemaInvalid (node_location nodeID ''/gitPush/remote'')
      | CreatePRNode _ e \<Rightarrow> check (\<not> blank (pr_base e) \<and> \<not> has_prefix ''-'' (pr_base e))
          ValidationSchemaInvalid (node_location nodeID ''/createPR/base'')
      | WorkspaceValidateNode _ e \<Rightarrow>
          check (validate_checks e \<noteq> []) ValidationSchemaInvalid (node_location nodeID ''/workspaceValidate/checks'') @
          concat (map (\<lambda>argv. check (case argv of [] \<Rightarrow> False | command # _ \<Rightarrow> \<not> blank command)
            ValidationSchemaInvalid (node_location nodeID ''/workspaceValidate/checks'')) (validate_checks e))
      | _ \<Rightarrow> [])"

definition validateNode :: "CapabilityAvailability option \<Rightarrow> Document \<Rightarrow> validationState \<Rightarrow> Identifier \<Rightarrow> Node \<Rightarrow>
    ValidationError list" where
  "validateNode capabilities document state nodeID node =
    (let common = Fields node in
     validateBindings document nodeID common @
     validateReadiness document state nodeID common @
     validateApproval nodeID node @
     validatePointExecution nodeID node @
     validateImplementation nodeID node @
     validateWorkspace nodeID node @
     validateRouting nodeID node @
     validateNodeDefinition nodeID common @
     validateValidators nodeID common @
     validatePredicates document nodeID node @
     validateSubworkflow nodeID node @
     validateCapabilities capabilities nodeID node)"

definition validateNodes :: "CapabilityAvailability option \<Rightarrow> Document \<Rightarrow> validationState \<Rightarrow> ValidationError list" where
  "validateNodes capabilities document state = concat (map (\<lambda>nodeID.
     case map_of (document_nodes document) nodeID of None \<Rightarrow> []
     | Some node \<Rightarrow> validateNode capabilities document state nodeID node) (sorted_keys (document_nodes document)))"

section \<open>Joins\<close>

definition sameIdentifiers :: "Identifier list \<Rightarrow> string list \<Rightarrow> bool" where
  "sameIdentifiers declared authored \<longleftrightarrow>
     length declared = length authored \<and> list_all (\<lambda>i. i \<in> set declared) authored"

definition distinctCoveredIncoming :: "Identifier list \<Rightarrow> Identifier list \<Rightarrow> string list" where
  "distinctCoveredIncoming left right =
     filter (\<lambda>i. i \<notin> set right) left @ filter (\<lambda>i. i \<notin> set left) right"

definition branchReachesIncoming :: "validationState \<Rightarrow> Transition \<Rightarrow> transitionRecord \<Rightarrow> Identifier \<Rightarrow> bool" where
  "branchReachesIncoming state branch producer joinNode =
    (if transition_id branch = transition_id (record_transition producer) then True
     else if Target branch = joinNode then False
     else find_from (adjacency state) neighbours (record_source producer) {joinNode} [Target branch] {})"

definition covered_incoming :: "validationState \<Rightarrow> Identifier \<Rightarrow> transitionRecord list \<Rightarrow> Transition \<Rightarrow> Identifier list" where
  "covered_incoming state joinNode producers branch =
     remdups (map (\<lambda>p. transition_id (record_transition p))
       (filter (\<lambda>p. branchReachesIncoming state branch p joinNode) producers))"

fun pairs :: "'a list \<Rightarrow> ('a \<times> 'a) list" where
  "pairs [] = []"
| "pairs (x # xs) = map (\<lambda>y. (x, y)) xs @ pairs xs"

text \<open>The conflicts of a join with the branches of one fork; the code stops at the first.\<close>

definition fork_conflicts :: "validationState \<Rightarrow> Identifier \<Rightarrow> Join \<Rightarrow> transitionRecord list \<Rightarrow> string \<Rightarrow> NodeFields \<Rightarrow>
    ValidationError list" where
  "fork_conflicts state nodeID join producers location fork =
    (if length (Transitions fork) < 2 then []
     else concat (map (\<lambda>((left, leftCovered), (right, rightCovered)).
       (let distinct_producers = distinctCoveredIncoming leftCovered rightCovered in
        if 2 \<le> length distinct_producers \<and>
          (join_mode join = JoinAll \<and> node_transition_mode fork = TransitionExclusive \<or>
           join_mode join = JoinOne \<and> node_transition_mode fork = TransitionFanout \<and>
             transitionAlwaysFires left \<and> transitionAlwaysFires right)
        then [add ValidationJoinInvalid location [(''transitionIds'', distinct_producers)]] else []))
       (pairs (map (\<lambda>branch. (branch, covered_incoming state nodeID producers branch)) (Transitions fork)))))"

definition validateJoinSatisfiability :: "Document \<Rightarrow> validationState \<Rightarrow> Identifier \<Rightarrow> Join \<Rightarrow> transitionRecord list \<Rightarrow>
    string \<Rightarrow> ValidationError list" where
  "validateJoinSatisfiability document state nodeID join producers location = take 1 (concat (map (\<lambda>forkID.
     case map_of (document_nodes document) forkID of None \<Rightarrow> []
     | Some fork \<Rightarrow> fork_conflicts state nodeID join producers location (Fields fork))
     (sorted_keys (document_nodes document))))"

definition validateJoin :: "Document \<Rightarrow> validationState \<Rightarrow> Identifier \<Rightarrow> NodeFields \<Rightarrow> ValidationError list" where
  "validateJoin document state nodeID common =
    (let producers = lookup_list (incoming state) nodeID; location = node_location nodeID ''/join'';
         authored = map (\<lambda>p. transition_id (record_transition p)) producers;
         mismatch = [add ValidationJoinInvalid location [(''transitionIds'', authored)]] in
     if length producers \<le> 1 then check (node_join common = None) ValidationJoinInvalid location
     else (case node_join common of
         None \<Rightarrow> mismatch
       | Some join \<Rightarrow> if \<not> sameIdentifiers (join_from join) authored then mismatch
           else validateJoinSatisfiability document state nodeID join producers location))"

definition validateJoins :: "Document \<Rightarrow> validationState \<Rightarrow> ValidationError list" where
  "validateJoins document state = concat (map (\<lambda>nodeID.
     case map_of (document_nodes document) nodeID of None \<Rightarrow> []
     | Some node \<Rightarrow> validateJoin document state nodeID (Fields node)) (sorted_keys (document_nodes document)))"

section \<open>Reachability and cycles\<close>

definition entry_nodes :: "Document \<Rightarrow> Identifier list" where
  "entry_nodes document = filter (\<lambda>i. case map_of (document_nodes document) i of
     Some node \<Rightarrow> Entry (Fields node) | None \<Rightarrow> False) (sorted_keys (document_nodes document))"

definition validateReachability :: "Document \<Rightarrow> validationState \<Rightarrow> ValidationError list" where
  "validateReachability document state =
    (let found = search (adjacency state) neighbours (rev (entry_nodes document)) {} in
     map (\<lambda>nodeID. add ValidationUnreachableNode (node_location nodeID []) [])
       (filter (\<lambda>nodeID. nodeID \<notin> found) (sorted_keys (document_nodes document))))"

text \<open>The depth-first search of \<open>validateCycles\<close>. The set \<open>gray\<close> holds the nodes with colour 1, which are
  on the path to the current node, \<open>black\<close> those with colour 2. \<open>None\<close> is the value \<open>true\<close> of
  \<open>visit\<close>, a cycle, which ends the search; otherwise the new black nodes are returned. The outer loop
  is the same search with no gray node.\<close>

function visit :: "('a::linorder \<times> 'a list) list \<Rightarrow> 'a set \<Rightarrow> 'a set \<Rightarrow> 'a list \<Rightarrow> 'a set option" where
  "visit graph gray black [] = Some black"
| "visit graph gray black (target # targets) =
     (if target \<in> gray then None
      else if target \<in> black then visit graph gray black targets
      else (case visit graph (insert target gray) black (sort (lookup_list graph target)) of
        None \<Rightarrow> None
      | Some finished \<Rightarrow> visit graph gray (insert target finished) targets))"
  by pat_completeness auto

termination
proof (relation "measures [\<lambda>(graph, gray, black, targets). card (fst ` set graph - gray),
    \<lambda>(graph, gray, black, targets). length targets]")
  fix graph :: "('a \<times> 'a list) list" and gray black :: "'a set" and target :: 'a and targets
  assume "target \<notin> gray"
  from visit_progress [OF this, of graph neighbours]
  show "((graph, insert target gray, black, sort (lookup_list graph target)), graph, gray, black, target # targets)
    \<in> measures [\<lambda>(graph, gray, black, targets). card (fst ` set graph - gray),
        \<lambda>(graph, gray, black, targets). length targets]"
    by (auto simp: lookup_list_def successors_def split: option.splits)
qed auto

definition validateCycles :: "Document \<Rightarrow> validationState \<Rightarrow> ValidationError list" where
  "validateCycles document state =
     (case visit (normalGraph state) {} {} (sorted_keys (document_nodes document)) of
        None \<Rightarrow> [add ValidationUnboundedCycle ''/spec/nodes'' []]
      | Some _ \<Rightarrow> [])"

section \<open>The default route and the profiles\<close>

definition entry_capable :: "Document \<Rightarrow> Identifier \<Rightarrow> bool" where
  "entry_capable document i = (case map_of (document_nodes document) i of
     Some node \<Rightarrow> Entry (Fields node) | None \<Rightarrow> False)"

definition terminal_capable :: "Document \<Rightarrow> Identifier \<Rightarrow> bool" where
  "terminal_capable document i = (case map_of (document_nodes document) i of
     Some node \<Rightarrow> Terminal (Fields node) | None \<Rightarrow> False)"

definition default_reachable :: "Document \<Rightarrow> Identifier \<Rightarrow> Identifier list \<Rightarrow> Identifier set" where
  "default_reachable document entry terminals =
     search (document_nodes document) (\<lambda>current node. if current \<in> set terminals then []
       else map Target (filter (\<lambda>t. transitionEnabled t \<and> has_key (document_nodes document) (Target t))
         (Transitions (Fields node)))) [entry] {}"

definition default_reverse :: "Document \<Rightarrow> Identifier set \<Rightarrow> Identifier list \<Rightarrow> (Identifier \<times> Identifier list) list" where
  "default_reverse document reached terminals = group_by (concat (map (\<lambda>source.
     if source \<in> set terminals then []
     else map (\<lambda>t. (Target t, source)) (filter (\<lambda>t. transitionEnabled t \<and> Target t \<in> reached)
       (node_transitions document source))) (sorted_list_of_set reached)))"

definition validateDefaultRoute :: "Document \<Rightarrow> ValidationError list" where
  "validateDefaultRoute document =
    (let entry = default_entry (spec_defaults (document_spec document));
         declared = default_terminals (spec_defaults (document_spec document));
         terminals = sorted_set (filter (terminal_capable document) declared) in
     if \<not> entry_capable document entry then [add ValidationDefaultRouteInvalid ''/spec/routeDefaults/entry'' []]
     else
       map (\<lambda>terminal. add ValidationDefaultRouteInvalid ''/spec/routeDefaults/terminals'' [(''nodeIds'', [terminal])])
         (filter (\<lambda>terminal. \<not> terminal_capable document terminal) declared) @
       (if terminals = [] then []
        else let reached = default_reachable document entry terminals;
                 missing = filter (\<lambda>terminal. terminal \<notin> reached) terminals in
          if missing \<noteq> []
          then [add ValidationDefaultRouteInvalid ''/spec/routeDefaults/terminals'' [(''nodeIds'', missing)]]
          else let reverse = default_reverse document reached terminals;
                   stranded = sorted_list_of_set (reached - mark_search reverse neighbours (rev terminals) (set terminals)) in
            if stranded \<noteq> [] then [add ValidationDefaultRouteInvalid ''/spec/routeDefaults'' [(''nodeIds'', stranded)]]
            else []))"

definition validateProfile :: "Document \<Rightarrow> Identifier \<Rightarrow> RouteProfile \<Rightarrow> ValidationError list" where
  "validateProfile document profileID profile =
    (let base = ''/spec/profiles/'' @ profileID in
     check (entry_capable document (profile_entry profile)) ValidationDefaultRouteInvalid (base @ ''/entry'') @
     concat (map (\<lambda>(index, terminal). check (terminal_capable document terminal) ValidationDefaultRouteInvalid
       (base @ ''/terminals/'' @ decimal index)) (enumerate 0 (profile_terminals profile))) @
     concat (map (\<lambda>(inputID, raw).
       (let location = base @ ''/inputDefaults/'' @ inputID in
        case map_of (spec_inputs (document_spec document)) inputID of
          None \<Rightarrow> [add ValidationReferenceMissing location []]
        | Some d \<Rightarrow> check (default_matches raw (input_type d)) ValidationBindingIncompatible location))
       (InputDefaults profile)))"

definition validateProfiles :: "Document \<Rightarrow> ValidationError list" where
  "validateProfiles document = concat (map (\<lambda>(profileID, profile). validateProfile document profileID profile)
     (Profiles (document_spec document)))"

section \<open>Resources and artifacts\<close>

definition path_base :: "string \<Rightarrow> string" where
  "path_base p = (if p = [] then ''.''
     else (let q = dropWhile (\<lambda>c. c = CHR ''/'') (rev p) in
       if q = [] then ''/'' else rev (takeWhile (\<lambda>c. c \<noteq> CHR ''/'') q)))"

definition filename_ok :: "string \<Rightarrow> bool" where
  "filename_ok f \<longleftrightarrow> f \<noteq> [] \<and> path_base f = f \<and> CHR 0x5C \<notin> set f \<and> CHR '':'' \<notin> set f \<and>
     f \<noteq> ''.'' \<and> f \<noteq> ''..''"

definition markdown_headings :: "string \<Rightarrow> string list" where
  "markdown_headings content = map (\<lambda>line. TrimSpace (dropWhile (\<lambda>c. c = CHR ''#'') line))
     (filter (has_prefix ''#'') (map TrimSpace (split_on (CHR 0x0A) content)))"

definition ValidateArtifact :: "ArtifactContract \<Rightarrow> string \<Rightarrow> TemplateResource option \<Rightarrow> bool" where
  "ValidateArtifact contract content template \<longleftrightarrow>
     filename_ok (artifact_filename contract) \<and> \<not> blank content \<and>
     (case template of None \<Rightarrow> True
      | Some v \<Rightarrow> list_all (\<lambda>heading. heading \<in> set (markdown_headings content)) (required_headings v))"

definition ValidateSchemaValue :: "raw_message \<Rightarrow> raw_message \<Rightarrow> bool" where
  "ValidateSchemaValue schema raw \<longleftrightarrow> schema = [] \<or>
     (case json_parse schema of
        Some v \<Rightarrow> floats_ok v \<and> (case v of JObject _ \<Rightarrow> True | JBool _ \<Rightarrow> True | _ \<Rightarrow> False)
      | None \<Rightarrow> False) \<and> (raw = [] \<or> json_valid raw)"

definition builtin_schema_types :: "ValueType list" where
  "builtin_schema_types = [''schema:changeset_v1'', ''schema:delivery_text_v1'', ''schema:commit_v1'',
     ''schema:published_branch_v1'', ''schema:pull_request_v1'', ''schema:validation_v1'', ''schema:gate_evidence_v1'']"

definition has_schema :: "ValueType \<Rightarrow> raw_message \<Rightarrow> bool" where
  "has_schema kind explicit \<longleftrightarrow> kind \<in> set builtin_schema_types \<or> explicit \<noteq> []"

fun resource_type :: "ResourceSource \<Rightarrow> ValueType \<Rightarrow> ValueType" where
  "resource_type TaskResource declared = ValueTask"
| "resource_type RepositoryResource declared = ValueRepository"
| "resource_type (TemplateSource _) declared = ValueTemplate"
| "resource_type (TemplateReferenceResource _) declared = ValueTemplate"
| "resource_type OpenItemsResource declared = ValueOpenItems"
| "resource_type DecisionLogResource declared = ValueDecisionLog"
| "resource_type (ArtifactResource _ _) declared = ValueMarkdown"
| "resource_type (ConstantResource _) declared = declared"
| "resource_type (ConfigResource _) declared = declared"

definition validate_input :: "Identifier \<Rightarrow> ValueDeclaration \<Rightarrow> ValidationError list" where
  "validate_input i d =
    (let location = ''/spec/inputs/'' @ i in
     check (ValidateSchemaValue (input_schema_definition d) []) ValidationSchemaInvalid (location @ ''/schemaDefinition'') @
     (case input_resource d of
        None \<Rightarrow> []
      | Some source \<Rightarrow>
          (case source of
             ConstantResource raw \<Rightarrow>
               check (literalMatchesType raw (input_type d)) ValidationBindingIncompatible location @
               check (ValidateSchemaValue (input_schema_definition d) raw) ValidationSchemaInvalid location
           | _ \<Rightarrow> []) @
          (let want = resource_type source (input_type d) in
           check (input_type d = want \<or> input_type d = StorageType want) ValidationBindingIncompatible location)))"

definition template_bound :: "Document \<Rightarrow> Binding \<Rightarrow> bool" where
  "template_bound document binding =
    (let parts = split_on (CHR ''.'') (Source binding) in
     length parts = 3 \<and> parts ! 0 = ''run'' \<and>
     (case map_of (spec_inputs (document_spec document)) (parts ! 2) of
        Some d \<Rightarrow> (case input_resource d of
            Some (TemplateSource _) \<Rightarrow> True | Some (TemplateReferenceResource _) \<Rightarrow> True | _ \<Rightarrow> False)
      | None \<Rightarrow> False))"

definition validate_artifact :: "(string \<Rightarrow> string) \<Rightarrow> Document \<Rightarrow> NodeFields \<Rightarrow> string \<Rightarrow> string set \<Rightarrow> OutputDeclaration \<Rightarrow>
    ArtifactContract \<Rightarrow> ValidationError list" where
  "validate_artifact lower document common location files output artifact =
     check (output_type output = ValueString \<or> output_type output = ValueMarkdown) ValidationBindingIncompatible location @
     check (ValidateArtifact artifact ''placeholder'' None) ValidationSchemaInvalid (location @ ''/artifact'') @
     check (lower (artifact_filename artifact) \<notin> files) ValidationSchemaInvalid location @
     (if template_input artifact = [] then []
      else (case map_of (node_inputs common) (template_input artifact) of
          None \<Rightarrow> [add ValidationReferenceMissing location []]
        | Some binding \<Rightarrow> check (template_bound document binding) ValidationBindingIncompatible location))"

definition validate_output :: "(string \<Rightarrow> string) \<Rightarrow> Document \<Rightarrow> Identifier \<Rightarrow> NodeFields \<Rightarrow> string set \<Rightarrow> Identifier \<Rightarrow>
    OutputDeclaration \<Rightarrow> ValidationError list" where
  "validate_output lower document nodeID common files outputID output =
    (let location = node_location nodeID (''/outputs/'' @ outputID) in
     check (ValidateSchemaValue (output_schema_definition output) []) ValidationSchemaInvalid (location @ ''/schemaDefinition'') @
     check (\<not> (output_type output = ValueMarkdown \<and> output_artifact output = None)) ValidationSchemaInvalid location @
     check (\<not> (has_prefix ''schema:'' (output_type output) \<and>
         \<not> has_schema (output_type output) (output_schema_definition output) \<and> output_schema output = []))
       ValidationSchemaInvalid location @
     (case output_artifact output of None \<Rightarrow> []
      | Some artifact \<Rightarrow> validate_artifact lower document common location files output artifact))"

fun validate_outputs :: "(string \<Rightarrow> string) \<Rightarrow> Document \<Rightarrow> Identifier \<Rightarrow> NodeFields \<Rightarrow> string set \<Rightarrow>
    OutputDeclaration gomap \<Rightarrow> ValidationError list" where
  "validate_outputs lower document nodeID common files [] = []"
| "validate_outputs lower document nodeID common files ((outputID, output) # outputs) =
     validate_output lower document nodeID common files outputID output @
     validate_outputs lower document nodeID common
       (case output_artifact output of None \<Rightarrow> files
        | Some artifact \<Rightarrow> insert (lower (artifact_filename artifact)) files) outputs"

definition validateResources :: "(string \<Rightarrow> string) \<Rightarrow> Document \<Rightarrow> ValidationError list" where
  "validateResources lower document =
     concat (map (\<lambda>(i, d). validate_input i d) (spec_inputs (document_spec document))) @
     concat (map (\<lambda>(nodeID, node). validate_outputs lower document nodeID (Fields node) {} (node_outputs (Fields node)))
       (document_nodes document))"

section \<open>Validation\<close>

definition validation_errors :: "(string \<Rightarrow> string) \<Rightarrow> CapabilityAvailability option \<Rightarrow> Document \<Rightarrow> ValidationError list" where
  "validation_errors lower capabilities document =
    (let state = indexTransitions document in
     index_errors state @
     validateNodes capabilities document state @
     validateJoins document state @
     validateReachability document state @
     validateCycles document state @
     validateDefaultRoute document @
     validateProfiles document @
     validateResources lower document)"

definition Validate :: "(string \<Rightarrow> string) \<Rightarrow> CapabilityAvailability option \<Rightarrow> Document \<Rightarrow> ValidationError list" where
  "Validate lower capabilities document = sortValidationErrors (validation_errors lower capabilities document)"

end
