(* ===== verification/Scheduler.thy ===== *)
theory Scheduler
  imports Frame Validation JsonPrint "HOL-Library.Code_Target_Nat"
begin

text \<open>
  Advancing a run: the part of \<open>core/runexecution/workflow_scheduler.go\<close> that decides what happens when a
  node has returned, with \<open>preparationInputType\<close> of \<open>preparation.go\<close> and \<open>ValidateDeliverable\<close> of
  \<open>core/workflow/resources.go\<close>. The inputs of a node are resolved from the inputs of the run and the outputs
  accepted so far; its outputs are decoded against their declarations; one transition of the frozen route is
  chosen and fired in the frame of the run, and the new context is returned for saving.

  The schema validator is a port, hence a parameter, and so are the texts of the embedded schemas. The
  context keeps the frame in the wire form of \<open>Frame\<close>.
\<close>

section \<open>Data\<close>

record RunExecutionContext =
  context_accepted :: "raw_message gomap gomap"
  context_frame :: frameSnapshotWire
  context_revision :: uint64

record AttemptRequestContext =
  dispatch_node_id :: Identifier
  dispatch_visit_id :: string
  dispatch_node :: Node
  FrozenRoute :: Route
  RunInputs :: "raw_message gomap"
  AcceptedOutputs :: "raw_message gomap gomap"
  NodeInputs :: "raw_message gomap"
  ExecutionContext :: RunExecutionContext
  dispatch_snapshot :: FrameSnapshot

record workflowAdvance =
  advance_context :: RunExecutionContext
  successor :: Identifier
  advance_terminal :: bool
  persist :: bool

datatype scheduler_error =
    UnsupportedSource string
  | SourceUnavailable string
  | SourceType string ValueType ValueType \<comment> \<open>found, wanted\<close>
  | PointerInvalid
  | SourceNotJSON
  | OutputNotObject
  | OutputUndeclared Identifier
  | OutputMissing Identifier
  | OutputType Identifier ValueType ValueType
  | DeliverableInvalid Identifier
  | PredicateFailed FrameError
  | SeveralTransitions
  | NoTransition
  | FrameFailed frame_failure

section \<open>Types of values\<close>

definition valueType :: "raw_message \<Rightarrow> ValueType" where
  "valueType raw = (case json_first raw of
     None \<Rightarrow> []
   | Some JNull \<Rightarrow> ValueNull
   | Some (JBool _) \<Rightarrow> ValueBoolean
   | Some (JNumber lit) \<Rightarrow> if list_all (\<lambda>c. c \<notin> set ''.eE'') lit then ValueInteger else ValueNumber
   | Some (JString _) \<Rightarrow> ValueString
   | Some (JArray _) \<Rightarrow> ValueArray
   | Some (JObject _) \<Rightarrow> ValueObject)"

definition preparationInputType :: "raw_message \<Rightarrow> ValueType \<Rightarrow> bool" where
  "preparationInputType raw kind = (case json_parse raw of
     None \<Rightarrow> False
   | Some v \<Rightarrow> floats_ok v \<and>
      (let storage = StorageType kind in
       if storage = ValueNull then v = JNull
       else if storage = ValueBoolean then (case v of JBool _ \<Rightarrow> True | _ \<Rightarrow> False)
       else if storage = ValueString then (case v of JString _ \<Rightarrow> True | _ \<Rightarrow> False)
       else if storage = ValueObject then (case v of JObject _ \<Rightarrow> True | _ \<Rightarrow> False)
       else if storage = ValueArray then (case v of JArray _ \<Rightarrow> True | _ \<Rightarrow> False)
       else if storage = ValueNumber then (case v of JNumber _ \<Rightarrow> True | _ \<Rightarrow> False)
       else if storage = ValueInteger
       then (case v of JNumber lit \<Rightarrow> (case float64_literal lit of Some x \<Rightarrow> of_int \<lfloor>x\<rfloor> = x | None \<Rightarrow> False)
             | _ \<Rightarrow> False)
       else False))"

section \<open>Inputs of a node\<close>

fun replace_pair :: "char \<Rightarrow> char \<Rightarrow> char \<Rightarrow> string \<Rightarrow> string" where
  "replace_pair a b new (x # y # zs) =
     (if x = a \<and> y = b then new # replace_pair a b new zs else x # replace_pair a b new (y # zs))"
| "replace_pair a b new s = s"

definition pointer_member :: "string \<Rightarrow> string" where
  "pointer_member encoded = replace_pair (CHR 0x7E) (CHR ''0'') (CHR 0x7E) (replace_pair (CHR 0x7E) (CHR ''1'') (CHR ''/'') encoded)"

fun select_pointer :: "json \<Rightarrow> string list \<Rightarrow> json option" where
  "select_pointer value [] = Some value"
| "select_pointer (JObject ms) (encoded # rest) =
     (case object_get ms (pointer_member encoded) of None \<Rightarrow> None | Some v \<Rightarrow> select_pointer v rest)"
| "select_pointer value (encoded # rest) = None"

definition selectJSONPointer :: "raw_message \<Rightarrow> string \<Rightarrow> scheduler_error + raw_message option" where
  "selectJSONPointer raw pointer =
    (if pointer = [] then Inr (Some raw)
     else if \<not> has_prefix ''/'' pointer then Inl PointerInvalid
     else (case json_first raw of
        None \<Rightarrow> Inl SourceNotJSON
      | Some value \<Rightarrow> Inr (map_option (\<lambda>v. print_json (canonical v))
          (select_pointer value (split_on (CHR ''/'') (drop 1 pointer))))))"

definition resolveBinding :: "Binding \<Rightarrow> raw_message gomap \<Rightarrow> raw_message gomap gomap \<Rightarrow>
    scheduler_error + raw_message option" where
  "resolveBinding binding runInputs outputs =
    (let parts = split_on (CHR ''.'') (Source binding);
         found = (if length parts = 3 \<and> parts ! 0 = ''run'' \<and> parts ! 1 = ''input'' then Inr (map_of runInputs (parts ! 2))
           else if length parts = 4 \<and> parts ! 0 = ''node'' \<and> parts ! 2 = ''output''
           then Inr (map_of (case map_of outputs (parts ! 1) of Some os \<Rightarrow> os | None \<Rightarrow> []) (parts ! 3))
           else Inl (UnsupportedSource (Source binding))) in
     result_bind found (\<lambda>present. case present of
       None \<Rightarrow> Inr None
     | Some raw \<Rightarrow> if bindingPointer binding = [] then Inr (Some raw)
         else selectJSONPointer raw (bindingPointer binding)))"

definition resolve_input :: "Binding \<Rightarrow> raw_message gomap \<Rightarrow> raw_message gomap gomap \<Rightarrow> scheduler_error + raw_message option" where
  "resolve_input binding runInputs outputs =
     result_bind (resolveBinding binding runInputs outputs) (\<lambda>present. case present of
       None \<Rightarrow> (case binding of
           OptionalBinding b \<Rightarrow> Inr (if optional_default b \<noteq> [] then Some (optional_default b) else None)
         | RequiredBinding _ \<Rightarrow> Inl (SourceUnavailable (Source binding)))
     | Some raw \<Rightarrow> if preparationInputType raw (binding_value_type binding) then Inr (Some raw)
         else Inl (SourceType (Source binding) (valueType raw) (binding_value_type binding)))"

fun resolve_inputs :: "Binding gomap \<Rightarrow> raw_message gomap \<Rightarrow> raw_message gomap gomap \<Rightarrow> scheduler_error + raw_message gomap" where
  "resolve_inputs [] runInputs outputs = Inr []"
| "resolve_inputs ((inputID, binding) # rest) runInputs outputs =
     result_bind (resolve_input binding runInputs outputs) (\<lambda>value.
     result_bind (resolve_inputs rest runInputs outputs) (\<lambda>resolved.
     Inr (case value of None \<Rightarrow> resolved | Some raw \<Rightarrow> (inputID, raw) # resolved)))"

definition resolveNodeInputs :: "Node \<Rightarrow> raw_message gomap \<Rightarrow> raw_message gomap gomap \<Rightarrow> scheduler_error + raw_message gomap" where
  "resolveNodeInputs node runInputs outputs = resolve_inputs (node_inputs (Fields node)) runInputs outputs"

section \<open>Outputs of a node\<close>

text \<open>\<open>Decode\<close> into a map of raw messages, of the first value of a text; null decodes to the nil map.\<close>

definition decode_raw_map :: "raw_message \<Rightarrow> raw_message gomap option" where
  "decode_raw_map raw = (case json_first raw of
     Some (JObject []) \<Rightarrow> Some []
   | Some (JObject _) \<Rightarrow> map_option (\<lambda>(ms, _). map (\<lambda>(k, r, v). (k, r)) ms)
       (parse_members (2 * length raw) (maxNestingDepth - 1) (drop 1 (skip_ws raw)))
   | _ \<Rightarrow> None)"

fun declared_outputs :: "OutputDeclaration gomap \<Rightarrow> (string \<Rightarrow> raw_message option) \<Rightarrow> scheduler_error + raw_message gomap" where
  "declared_outputs [] object = Inr []"
| "declared_outputs ((i, declaration) # rest) object =
    (case object i of
       None \<Rightarrow> if output_required declaration = None \<or> output_required declaration = Some True
         then Inl (OutputMissing i) else declared_outputs rest object
     | Some raw \<Rightarrow> if \<not> preparationInputType raw (output_type declaration)
         then Inl (OutputType i (valueType raw) (output_type declaration))
         else result_bind (declared_outputs rest object) (\<lambda>result. Inr ((i, raw) # result)))"

definition decodeNodeOutputs :: "Node \<Rightarrow> raw_message \<Rightarrow> scheduler_error + raw_message gomap" where
  "decodeNodeOutputs node raw = (case decode_raw_map raw of
     None \<Rightarrow> Inl OutputNotObject
   | Some members \<Rightarrow>
      (let declarations = node_outputs (Fields node) in
       case find (\<lambda>(k, _). \<not> has_key declarations k) members of
         Some (k, _) \<Rightarrow> Inl (OutputUndeclared k)
       | None \<Rightarrow> declared_outputs declarations (map_of (rev members))))"

definition ValueSchema :: "(ValueType \<Rightarrow> raw_message option) \<Rightarrow> ValueType \<Rightarrow> raw_message \<Rightarrow> raw_message" where
  "ValueSchema builtins kind explicit = (case builtins kind of Some s \<Rightarrow> s | None \<Rightarrow> explicit)"

definition raw_input :: "raw_message gomap \<Rightarrow> Identifier \<Rightarrow> raw_message" where
  "raw_input inputs i = (case map_of inputs i of None \<Rightarrow> [] | Some raw \<Rightarrow> raw)"

definition delivery_matches :: "Node \<Rightarrow> raw_message \<Rightarrow> raw_message gomap \<Rightarrow> bool" where
  "delivery_matches node raw inputs \<longleftrightarrow>
    (case Option.bind (unmarshal_object raw) (get_string ''changesetSnapshot'') of
       None \<Rightarrow> False
     | Some snapshot \<Rightarrow> list_ex (\<lambda>(name, binding). binding_value_type binding = ''schema:changeset_v1'' \<and>
         (case Option.bind (unmarshal_object (raw_input inputs name)) (get_string ''snapshotDigest'') of
            None \<Rightarrow> False | Some digest \<Rightarrow> digest \<noteq> [] \<and> digest = snapshot)) (node_inputs (Fields node)))"

definition unmarshal_template :: "raw_message \<Rightarrow> TemplateResource option" where
  "unmarshal_template raw = (case unmarshal_object raw of
     None \<Rightarrow> None
   | Some ms \<Rightarrow> (case (get_string ''content'' ms, get_string ''version'' ms, get_strings ''requiredHeadings'' ms) of
       (Some content, Some version, Some headings) \<Rightarrow>
         Some \<lparr>template_content = content, template_version = version, required_headings = headings\<rparr>
     | _ \<Rightarrow> None))"

definition artifact_valid :: "ArtifactContract \<Rightarrow> raw_message \<Rightarrow> raw_message gomap \<Rightarrow> bool" where
  "artifact_valid artifact raw inputs \<longleftrightarrow>
    (case (case json_parse raw of Some (JString s) \<Rightarrow> Some s | Some JNull \<Rightarrow> Some [] | _ \<Rightarrow> None) of
       None \<Rightarrow> False
     | Some content \<Rightarrow>
         if template_input artifact = [] then ValidateArtifact artifact content None
         else (case unmarshal_template (raw_input inputs (template_input artifact)) of
            None \<Rightarrow> False
          | Some template \<Rightarrow> template_content template \<noteq> [] \<and> ValidateArtifact artifact content (Some template)))"

definition ValidateDeliverable :: "(ValueType \<Rightarrow> raw_message option) \<Rightarrow> (raw_message \<Rightarrow> raw_message \<Rightarrow> bool) option \<Rightarrow>
    Node \<Rightarrow> Identifier \<Rightarrow> raw_message \<Rightarrow> raw_message gomap \<Rightarrow> bool" where
  "ValidateDeliverable builtins validator node i raw inputs = (case map_of (node_outputs (Fields node)) i of
     None \<Rightarrow> False
   | Some declaration \<Rightarrow>
      (let schema = ValueSchema builtins (output_type declaration) (output_schema_definition declaration) in
       literalMatchesType raw (output_type declaration) \<and>
       (output_type declaration = ''schema:delivery_text_v1'' \<longrightarrow> delivery_matches node raw inputs) \<and>
       (schema \<noteq> [] \<longrightarrow> (case validator of None \<Rightarrow> False | Some valid \<Rightarrow> valid schema raw)) \<and>
       (case output_artifact declaration of None \<Rightarrow> True | Some artifact \<Rightarrow> artifact_valid artifact raw inputs)))"

section \<open>The successor\<close>

definition transitionWhen :: "Transition \<Rightarrow> Predicate" where
  "transitionWhen t = transition_when (transitionFields t)"

definition transitionInRoute :: "Route \<Rightarrow> Identifier \<Rightarrow> bool" where
  "transitionInRoute route i \<longleftrightarrow> list_ex (\<lambda>t. route_transition_id t = i) (route_transitions route)"

definition transition_matches :: "Identifier \<Rightarrow> PredicateValues \<Rightarrow> nat \<Rightarrow> Transition \<Rightarrow> scheduler_error + bool" where
  "transition_matches nodeID vals index t =
    (if transitionWhen t = PredicateNil then Inr True
     else (case EvaluatePredicate (transitionWhen t) vals
         (''/nodes/'' @ nodeID @ ''/transitions/'' @ decimal index @ ''/when'') of
        Inl e \<Rightarrow> Inl (PredicateFailed e) | Inr matched \<Rightarrow> Inr matched))"

fun choose_loop :: "Identifier \<Rightarrow> Route \<Rightarrow> PredicateValues \<Rightarrow> nat \<Rightarrow> Transition option \<Rightarrow> Transition list \<Rightarrow>
    scheduler_error + Transition" where
  "choose_loop nodeID route vals index selected [] =
     (case selected of None \<Rightarrow> Inl NoTransition | Some t \<Rightarrow> Inr t)"
| "choose_loop nodeID route vals index selected (t # ts) =
    (if \<not> transitionInRoute route (transition_id t) then choose_loop nodeID route vals (Suc index) selected ts
     else result_bind (transition_matches nodeID vals index t) (\<lambda>matched.
       if \<not> matched then choose_loop nodeID route vals (Suc index) selected ts
       else if selected \<noteq> None then Inl SeveralTransitions
       else choose_loop nodeID route vals (Suc index) (Some t) ts))"

definition chooseTransition :: "Identifier \<Rightarrow> Node \<Rightarrow> Route \<Rightarrow> raw_message gomap \<Rightarrow> raw_message gomap \<Rightarrow>
    raw_message gomap \<Rightarrow> scheduler_error + Transition" where
  "chooseTransition nodeID node route inputs outputs runInputs =
     choose_loop nodeID route \<lparr>pv_outputs = outputs, pv_inputs = inputs, pv_run_inputs = runInputs\<rparr> 0 None
       (Transitions (Fields node))"

definition rawMapsEqual :: "raw_message gomap \<Rightarrow> raw_message gomap \<Rightarrow> bool" where
  "rawMapsEqual left right \<longleftrightarrow> length left = length right \<and>
     list_all (\<lambda>(key, l). case map_of right key of None \<Rightarrow> False | Some r \<Rightarrow> TrimSpace l = TrimSpace r) left"

definition finish_advance :: "AttemptRequestContext \<Rightarrow> RunExecutionContext \<Rightarrow> Transition \<Rightarrow>
    (scheduler_error + workflowAdvance) option" where
  "finish_advance dispatch value transition = (case RestoreFrame (dispatch_snapshot dispatch) of
     None \<Rightarrow> None
   | Some (Inl e) \<Rightarrow> Some (Inl (FrameFailed e))
   | Some (Inr frame) \<Rightarrow>
      (case FireTransition frame (dispatch_visit_id dispatch) (dispatch_node_id dispatch)
          (context_revision value + 1) transition of
         Inl e \<Rightarrow> Some (Inl (FrameFailed e))
       | Inr (token, replayed, frame) \<Rightarrow>
           Some (Inr \<lparr>advance_context = value\<lparr>context_frame := snapshot_to_wire (Snapshot frame)\<rparr>,
             successor = Target transition, advance_terminal = False, persist = True\<rparr>)))"

definition prepareWorkflowAdvance :: "(ValueType \<Rightarrow> raw_message option) \<Rightarrow> (raw_message \<Rightarrow> raw_message \<Rightarrow> bool) option \<Rightarrow>
    AttemptRequestContext \<Rightarrow> raw_message gomap \<Rightarrow> (scheduler_error + workflowAdvance) option" where
  "prepareWorkflowAdvance builtins validator dispatch output =
    (case find (\<lambda>(i, raw). \<not> ValidateDeliverable builtins validator (dispatch_node dispatch) i raw (NodeInputs dispatch)) output of
       Some (i, _) \<Rightarrow> Some (Inl (DeliverableInvalid i))
     | None \<Rightarrow>
      (let nodeID = dispatch_node_id dispatch; terminal = nodeID \<in> set (route_terminals (FrozenRoute dispatch));
           stored = (case map_of (AcceptedOutputs dispatch) nodeID of Some os \<Rightarrow> rawMapsEqual os output | None \<Rightarrow> False);
           fired = (if stored then find (\<lambda>token. SourceVisitID (token_key token) = dispatch_visit_id dispatch)
             (snapshot_tokens (dispatch_snapshot dispatch)) else None);
           unchanged = \<lparr>advance_context = ExecutionContext dispatch, successor = [], advance_terminal = False, persist = False\<rparr>;
           value = (ExecutionContext dispatch)\<lparr>context_accepted := map_put nodeID output (AcceptedOutputs dispatch)\<rparr> in
       if stored \<and> terminal then Some (Inr (unchanged\<lparr>advance_terminal := True\<rparr>))
       else (case fired of
          Some token \<Rightarrow> Some (Inr (unchanged\<lparr>successor := token_target token\<rparr>))
        | None \<Rightarrow>
            if terminal then Some (Inr \<lparr>advance_context = value, successor = [], advance_terminal = True, persist = True\<rparr>)
            else (case chooseTransition nodeID (dispatch_node dispatch) (FrozenRoute dispatch) (NodeInputs dispatch) output
                (RunInputs dispatch) of
               Inl e \<Rightarrow> Some (Inl e)
             | Inr transition \<Rightarrow> finish_advance dispatch value transition))))"

section \<open>Choosing a transition\<close>

definition enabled_at :: "Identifier \<Rightarrow> Route \<Rightarrow> PredicateValues \<Rightarrow> nat \<Rightarrow> Transition list \<Rightarrow> (nat \<times> Transition) list" where
  "enabled_at nodeID route vals k ts = filter (\<lambda>(i, t). transitionInRoute route (transition_id t)) (enumerate k ts)"

definition matching :: "Identifier \<Rightarrow> Route \<Rightarrow> PredicateValues \<Rightarrow> nat \<Rightarrow> Transition list \<Rightarrow> Transition list" where
  "matching nodeID route vals k ts =
     map snd (filter (\<lambda>(i, t). transition_matches nodeID vals i t = Inr True) (enabled_at nodeID route vals k ts))"

definition evaluable :: "Identifier \<Rightarrow> Route \<Rightarrow> PredicateValues \<Rightarrow> nat \<Rightarrow> Transition list \<Rightarrow> bool" where
  "evaluable nodeID route vals k ts \<longleftrightarrow>
     (\<forall>(i, t) \<in> set (enabled_at nodeID route vals k ts). \<exists>b. transition_matches nodeID vals i t = Inr b)"

lemma matching_Cons:
  "matching nodeID route vals k (t # ts) =
     (if transitionInRoute route (transition_id t) \<and> transition_matches nodeID vals k t = Inr True
      then t # matching nodeID route vals (Suc k) ts else matching nodeID route vals (Suc k) ts)"
  "evaluable nodeID route vals k (t # ts) \<longleftrightarrow>
     (transitionInRoute route (transition_id t) \<longrightarrow> (\<exists>b. transition_matches nodeID vals k t = Inr b)) \<and>
     evaluable nodeID route vals (Suc k) ts"
  "matching nodeID route vals k [] = []" "evaluable nodeID route vals k []"
  by (auto simp: matching_def evaluable_def enabled_at_def)

lemma choose_loop_Inr:
  "choose_loop nodeID route vals k selected ts = Inr t \<longleftrightarrow>
     evaluable nodeID route vals k ts \<and>
     (case selected of None \<Rightarrow> [] | Some s \<Rightarrow> [s]) @ matching nodeID route vals k ts = [t]"
proof (induction ts arbitrary: k selected)
  case Nil
  then show ?case by (auto simp: matching_Cons split: option.splits)
next
  case (Cons u ts)
  show ?case
  proof (cases "transitionInRoute route (transition_id u)")
    case True
    show ?thesis
    proof (cases "transition_matches nodeID vals k u")
      case (Inr b)
      then show ?thesis using True Cons.IH by (cases b; cases selected) (auto simp: matching_Cons)
    qed (use True in \<open>simp add: matching_Cons\<close>)
  qed (simp add: Cons.IH matching_Cons)
qed


lemma matching_subset: "set (matching nodeID route vals k ts) \<subseteq> {t \<in> set ts. transitionInRoute route (transition_id t)}"
  by (auto simp: matching_def enabled_at_def in_set_enumerate_eq)

lemma chooseTransition_Inr:
  assumes "chooseTransition nodeID node route inputs outputs runInputs = Inr t"
  shows "t \<in> set (Transitions (Fields node))" "transitionInRoute route (transition_id t)"
proof -
  define vals where "vals = \<lparr>pv_outputs = outputs, pv_inputs = inputs, pv_run_inputs = runInputs\<rparr>"
  have "matching nodeID route vals 0 (Transitions (Fields node)) = [t]"
    using assms by (simp add: chooseTransition_def choose_loop_Inr vals_def)
  then show "t \<in> set (Transitions (Fields node))" "transitionInRoute route (transition_id t)"
    using matching_subset [of nodeID route vals 0 "Transitions (Fields node)"] by auto
qed

section \<open>Resolved inputs and decoded outputs\<close>

lemma resolve_inputs_at:
  "resolve_inputs bindings runInputs outputs = Inr resolved \<Longrightarrow> wf_map bindings \<Longrightarrow>
     (case map_of bindings i of
        None \<Rightarrow> map_of resolved i = None
      | Some b \<Rightarrow> resolve_input b runInputs outputs = Inr (map_of resolved i))"
proof (induction bindings arbitrary: resolved i)
  case (Cons p rest)
  obtain j b where p: "p = (j, b)" by (cases p)
  from Cons.prems(1) obtain v r where v: "resolve_input b runInputs outputs = Inr v"
    and r: "resolve_inputs rest runInputs outputs = Inr r"
    and resolved: "resolved = (case v of None \<Rightarrow> r | Some raw \<Rightarrow> (j, raw) # r)" by (auto simp: p)
  have wf: "wf_map rest" "map_of rest j = None"
    using Cons.prems(2) by (auto simp: p wf_map_def map_of_eq_None_iff)
  have "map_of r j = None" using Cons.IH [OF r wf(1), of j] wf(2) by simp
  then show ?case using Cons.IH [OF r wf(1), of i] v by (auto simp: p resolved split: option.splits)
qed simp

text \<open>The inputs of a node are what its bindings say. When the inputs resolve, each declared input is the
  value its source selects, which has the declared type; if the source is absent, the binding is optional and
  the input is its default, or missing when it has none; and there are no other inputs.\<close>

theorem resolveNodeInputs_typed:
  assumes "resolveNodeInputs node runInputs outputs = Inr resolved" and "wf_map (node_inputs (Fields node))"
  shows "case map_of (node_inputs (Fields node)) i of
      None \<Rightarrow> map_of resolved i = None
    | Some binding \<Rightarrow> (case resolveBinding binding runInputs outputs of
        Inl _ \<Rightarrow> False
      | Inr (Some raw) \<Rightarrow> map_of resolved i = Some raw \<and> preparationInputType raw (binding_value_type binding)
      | Inr None \<Rightarrow> (case binding of RequiredBinding _ \<Rightarrow> False
          | OptionalBinding b \<Rightarrow> map_of resolved i = (if optional_default b = [] then None else Some (optional_default b))))"
proof (cases "map_of (node_inputs (Fields node)) i")
  case None
  then show ?thesis using resolve_inputs_at [OF assms(1) [unfolded resolveNodeInputs_def] assms(2), of i] by simp
next
  case (Some binding)
  then have "resolve_input binding runInputs outputs = Inr (map_of resolved i)"
    using resolve_inputs_at [OF assms(1) [unfolded resolveNodeInputs_def] assms(2), of i] by simp
  then obtain present where present: "resolveBinding binding runInputs outputs = Inr present"
    "(case present of
       None \<Rightarrow> (case binding of
           OptionalBinding b \<Rightarrow> Inr (if optional_default b \<noteq> [] then Some (optional_default b) else None)
         | RequiredBinding _ \<Rightarrow> Inl (SourceUnavailable (Source binding)))
     | Some raw \<Rightarrow> if preparationInputType raw (binding_value_type binding) then Inr (Some raw)
         else Inl (SourceType (Source binding) (valueType raw) (binding_value_type binding))) = Inr (map_of resolved i)"
    unfolding resolve_input_def by auto
  then show ?thesis using Some by (cases present; cases binding) (auto split: if_splits)
qed

lemma declared_outputs_at:
  "declared_outputs declarations object = Inr result \<Longrightarrow> wf_map declarations \<Longrightarrow>
     (case map_of declarations i of
        None \<Rightarrow> map_of result i = None
      | Some d \<Rightarrow> map_of result i = object i \<and> (object i = None \<longrightarrow> output_required d = Some False) \<and>
          (\<forall>raw. object i = Some raw \<longrightarrow> preparationInputType raw (output_type d)))"
proof (induction declarations arbitrary: result i)
  case (Cons p rest)
  obtain j d where p: "p = (j, d)" by (cases p)
  have wf: "wf_map rest" "map_of rest j = None"
    using Cons.prems(2) by (auto simp: p wf_map_def map_of_eq_None_iff)
  show ?case
  proof (cases "object j")
    case None
    then have "output_required d = Some False" "declared_outputs rest object = Inr result"
      using Cons.prems(1) by (auto simp: p split: if_splits)
    then show ?thesis using Cons.IH [of result j] Cons.IH [of result i] wf None by (auto simp: p)
  next
    case (Some raw)
    then obtain r where "declared_outputs rest object = Inr r" "result = (j, raw) # r"
        "preparationInputType raw (output_type d)"
      using Cons.prems(1) by (auto simp: p split: if_splits)
    then show ?thesis using Cons.IH [of r i] wf Some by (auto simp: p split: option.splits)
  qed
qed simp

text \<open>C40: The outputs accepted from a node are exactly those it returned, and they fit their declarations: every
  member of the returned object is declared and has the declared type, a required output is present, and the
  accepted outputs hold the members unchanged, of a repeated key the last.\<close>

theorem decodeNodeOutputs_typed:
  assumes "decodeNodeOutputs node raw = Inr result" and "wf_map (node_outputs (Fields node))"
  shows "\<exists>members. decode_raw_map raw = Some members \<and> map_of result = map_of (rev members) \<and>
    (\<forall>i r. map_of result i = Some r \<longrightarrow>
      (\<exists>d. map_of (node_outputs (Fields node)) i = Some d \<and> preparationInputType r (output_type d))) \<and>
    (\<forall>i d. map_of (node_outputs (Fields node)) i = Some d \<longrightarrow> output_required d \<noteq> Some False \<longrightarrow> map_of result i \<noteq> None)"
proof -
  obtain members where m: "decode_raw_map raw = Some members"
    "find (\<lambda>(k, _). \<not> has_key (node_outputs (Fields node)) k) members = None"
    "declared_outputs (node_outputs (Fields node)) (map_of (rev members)) = Inr result"
    using assms(1) by (auto simp: decodeNodeOutputs_def Let_def split: option.splits)
  note at = declared_outputs_at [OF m(3) assms(2)]
  have declared: "map_of (rev members) i = None" if "map_of (node_outputs (Fields node)) i = None" for i
  proof (rule ccontr)
    assume "map_of (rev members) i \<noteq> None"
    then obtain b where "(i, b) \<in> set members" by (auto dest: map_of_SomeD)
    then have "has_key (node_outputs (Fields node)) i" using m(2) by (fastforce simp: find_None_iff)
    then show False using that by (simp add: has_key_map_of)
  qed
  have "map_of result i = map_of (rev members) i" for i
    using at [of i] declared [of i] by (auto split: option.splits)
  then have "map_of result = map_of (rev members)" by blast
  moreover have "\<exists>d. map_of (node_outputs (Fields node)) i = Some d \<and> preparationInputType r (output_type d)"
    if "map_of result i = Some r" for i r using at [of i] that by (auto split: option.splits)
  moreover have "map_of result i \<noteq> None" if "map_of (node_outputs (Fields node)) i = Some d" "output_required d \<noteq> Some False" for i d
    using at [of i] that by auto
  ultimately show ?thesis using m(1) by blast
qed

section \<open>Advancing\<close>

lemma RestoreFrame_Inr:
  assumes "RestoreFrame s = Some (Inr f)"
  shows "map snd (frame_tokens f) = snapshot_tokens s" "frame_origin f = snapshot_origin s"
    "validateFrameOrigin (snapshot_origin s) = None" "frame_route f = cloneRoute (snapshot_route s)"
proof -
  have parts: "frame_parts_ok (snapshot_id s) (snapshot_workflow s) (snapshot_origin s) (snapshot_route s)
      (snapshot_inputs s) (snapshot_ancestry s)"
    using assms RestoreFrame_parts(2) [of s] by fastforce
  then obtain st where st: "restore_tokens (cloneRoute (snapshot_route s)) (snapshot_tokens s) restore_start = Inr st"
      "f = restored_frame s st"
    using assms by (auto simp: RestoreFrame_parts(1) split: sum.splits option.splits bool.splits)
  have "restored (snapshot_tokens s) st" using restore_tokens_result st(1) by (metis sum.inject(2) sum.distinct(1))
  then have "restored_tokens st = map (\<lambda>t. (token_key t, t)) (snapshot_tokens s)" by (simp add: restored_def)
  then show "map snd (frame_tokens f) = snapshot_tokens s" by (simp add: st(2) restored_frame_def comp_def)
  show "frame_origin f = snapshot_origin s" "frame_route f = cloneRoute (snapshot_route s)"
    by (simp_all add: st(2) restored_frame_def)
  show "validateFrameOrigin (snapshot_origin s) = None" using parts by (simp add: frame_parts_ok_def)
qed

lemma finish_advance_Inr:
  assumes "finish_advance dispatch value transition = Some (Inr a)"
  obtains frame token replayed frame' where "RestoreFrame (dispatch_snapshot dispatch) = Some (Inr frame)"
    "FireTransition frame (dispatch_visit_id dispatch) (dispatch_node_id dispatch) (context_revision value + 1) transition =
       Inr (token, replayed, frame')"
    "a = \<lparr>advance_context = value\<lparr>context_frame := snapshot_to_wire (Snapshot frame')\<rparr>,
       successor = Target transition, advance_terminal = False, persist = True\<rparr>"
  using assms by (auto simp: finish_advance_def split: option.splits sum.splits)

text \<open>What a saved advance contains.\<close>

lemma prepare_persist:
  assumes "prepareWorkflowAdvance builtins validator dispatch output = Some (Inr a)" and "persist a"
  obtains (terminal) "dispatch_node_id dispatch \<in> set (route_terminals (FrozenRoute dispatch))" "advance_terminal a"
      "successor a = []"
      "advance_context a = (ExecutionContext dispatch)\<lparr>context_accepted := map_put (dispatch_node_id dispatch) output (AcceptedOutputs dispatch)\<rparr>"
  | (fired) transition frame token replayed frame' where
      "dispatch_node_id dispatch \<notin> set (route_terminals (FrozenRoute dispatch))" "\<not> advance_terminal a"
      "chooseTransition (dispatch_node_id dispatch) (dispatch_node dispatch) (FrozenRoute dispatch) (NodeInputs dispatch) output
         (RunInputs dispatch) = Inr transition"
      "RestoreFrame (dispatch_snapshot dispatch) = Some (Inr frame)"
      "FireTransition frame (dispatch_visit_id dispatch) (dispatch_node_id dispatch)
         (context_revision (ExecutionContext dispatch) + 1) transition = Inr (token, replayed, frame')"
      "successor a = Target transition"
      "advance_context a = (ExecutionContext dispatch)\<lparr>context_accepted := map_put (dispatch_node_id dispatch) output (AcceptedOutputs dispatch),
         context_frame := snapshot_to_wire (Snapshot frame')\<rparr>"
proof -
  define ctx where "ctx = (ExecutionContext dispatch)\<lparr>context_accepted := map_put (dispatch_node_id dispatch) output (AcceptedOutputs dispatch)\<rparr>"
  show thesis
  proof (cases "dispatch_node_id dispatch \<in> set (route_terminals (FrozenRoute dispatch))")
    case True
    then show ?thesis using assms by (intro terminal) (auto simp: prepareWorkflowAdvance_def Let_def split: option.splits if_splits)
  next
    case False
    then obtain transition where t: "chooseTransition (dispatch_node_id dispatch) (dispatch_node dispatch) (FrozenRoute dispatch)
        (NodeInputs dispatch) output (RunInputs dispatch) = Inr transition" "finish_advance dispatch ctx transition = Some (Inr a)"
      using assms by (auto simp: prepareWorkflowAdvance_def ctx_def Let_def split: option.splits if_splits sum.splits)
    from t(2) show ?thesis
      by (rule finish_advance_Inr) (rule fired [OF False _ t(1)], auto simp: ctx_def)
  qed
qed

text \<open>Every valid dispatch is decided.\<close>

lemma prepare_total: "\<exists>r. prepareWorkflowAdvance builtins validator dispatch output = Some r"
  using RestoreFrame_result [of "dispatch_snapshot dispatch"]
  by (auto simp: prepareWorkflowAdvance_def finish_advance_def Let_def split: option.splits sum.splits)

lemma FireTransition_tokens:
  assumes "FireTransition f vid node epoch t = Inr (token, replayed, f')" and "frame_ok f"
  defines "key \<equiv> \<lparr>SourceVisitID = vid, token_transition_id = transition_id t, JoinEpoch = epoch\<rparr>"
  shows "token_key token = key" "token_target token = Target t" "token_source token = node"
    and "frame_origin f' = frame_origin f"
    and "map snd (frame_tokens f') = (if replayed then map snd (frame_tokens f) else map snd (frame_tokens f) @ [token])"
    and "replayed \<longleftrightarrow> token \<in> set (map snd (frame_tokens f))"
proof -
  have found: "replayed \<longleftrightarrow> map_of (frame_tokens f) key \<noteq> None" "replayed \<Longrightarrow> map_of (frame_tokens f) key = Some token"
    using assms(1) by (auto simp: FireTransition_def key_def Let_def split: if_splits option.splits Transition.splits)
  have keyed: "token_key u = k" if "(k, u) \<in> set (frame_tokens f)" for k u using assms(2) that by (auto simp: frame_ok_def)
  have "token_key token = key \<and> token_target token = Target t \<and> token_source token = node \<and> frame_origin f' = frame_origin f \<and>
      map snd (frame_tokens f') = (if replayed then map snd (frame_tokens f) else map snd (frame_tokens f) @ [token]) \<and>
      (replayed \<longleftrightarrow> token \<in> set (map snd (frame_tokens f)))"
    using assms(1)
  proof (cases rule: FireTransition_cases)
    case replay
    then have "(key, token) \<in> set (frame_tokens f)" using found(2) map_of_SomeD by metis
    then show ?thesis using replay keyed by force
  next
    case (first rt)
    have "token \<notin> set (map snd (frame_tokens f))"
    proof
      assume "token \<in> set (map snd (frame_tokens f))"
      then obtain k where "(k, token) \<in> set (frame_tokens f)" by auto
      then have "(token_key token, token) \<in> set (frame_tokens f)" using keyed by force
      then show False using first(7) by (metis map_of_eq_None_iff fst_conv image_eqI)
    qed
    moreover have "frame_origin f' = frame_origin f" "map snd (frame_tokens f') = map snd (frame_tokens f) @ [token]"
      using first(11) by (auto simp: fired_frame_def)
    ultimately show ?thesis using first(1,6,8,9) by (simp add: key_def)
  qed
  then show "token_key token = key" "token_target token = Target t" "token_source token = node"
    "frame_origin f' = frame_origin f"
    "map snd (frame_tokens f') = (if replayed then map snd (frame_tokens f) else map snd (frame_tokens f) @ [token])"
    "replayed \<longleftrightarrow> token \<in> set (map snd (frame_tokens f))" by blast+
qed

text \<open>The saved form of a fired frame reads back as its snapshot.\<close>

lemma saved_frame:
  assumes "RestoreFrame s = Some (Inr frame)"
    and "FireTransition frame vid node epoch t = Inr (token, replayed, frame')"
  shows "wire_to_snapshot (snapshot_to_wire (Snapshot frame')) = Some (Snapshot frame')"
    and "set (snapshot_tokens (Snapshot frame')) = insert token (set (snapshot_tokens s))"
proof -
  have ok: "frame_ok frame" using RestoreFrame_result [of s] assms(1) by auto
  note fired = FireTransition_tokens [OF assms(2) ok]
  note restored = RestoreFrame_Inr [OF assms(1)]
  have "validateFrameOrigin (snapshot_origin (Snapshot frame')) = None"
    using fired(4) restored(2,3) by (simp add: Snapshot_def)
  then show "wire_to_snapshot (snapshot_to_wire (Snapshot frame')) = Some (Snapshot frame')"
    by (rule snapshot_wire_roundtrip)
  have "set (snapshot_tokens (Snapshot frame')) = set (map snd (frame_tokens frame'))" by (simp add: Snapshot_def)
  also have "\<dots> = insert token (set (map snd (frame_tokens frame)))" using fired(5,6) by auto
  finally show "set (snapshot_tokens (Snapshot frame')) = insert token (set (snapshot_tokens s))"
    by (simp only: restored(1))
qed

lemma find_unique: "t \<in> set xs \<Longrightarrow> P t \<Longrightarrow> (\<And>u. u \<in> set xs \<Longrightarrow> P u \<Longrightarrow> u = t) \<Longrightarrow> find P xs = Some t"
  using map_filter_find [of P xs] find_None_iff [of P xs] by (cases "find P xs") blast+

lemma rawMapsEqual_refl: "wf_map m \<Longrightarrow> rawMapsEqual m m"
proof -
  assume wf: "wf_map m"
  have "case map_of m k of None \<Rightarrow> False | Some r \<Rightarrow> TrimSpace l = TrimSpace r" if "(k, l) \<in> set m" for k l
    using wf_map_map_of [OF wf] that by simp
  then show ?thesis unfolding rawMapsEqual_def list_all_iff by auto
qed



section \<open>Witnesses\<close>

definition example_output :: OutputDeclaration where
  "example_output = \<lparr>output_artifact = None, output_schema_definition = [], output_type = ''string'', output_schema = [],
     output_description = [], output_required = None\<rparr>"

definition example_step :: Node where
  "example_step = plain_node (plain_fields False False [(''goal'', required_input ''run.input.goal'')]
     [(''ok'', example_output)] None [NormalTransition (plain_transition ''built'' ''ship'')])"

definition empty_text :: raw_message where
  "empty_text = [CHR 0x22, CHR 0x22]"

definition example_dispatch :: AttemptRequestContext where
  "example_dispatch = \<lparr>dispatch_node_id = ''build'', dispatch_visit_id = ''v2'', dispatch_node = example_step,
     FrozenRoute = example_route, RunInputs = [(''goal'', empty_text)], AcceptedOutputs = [],
     NodeInputs = [(''goal'', empty_text)],
     ExecutionContext = \<lparr>context_accepted = [], context_frame = snapshot_to_wire (Snapshot example_frame), context_revision = 0\<rparr>,
     dispatch_snapshot = Snapshot example_frame\<rparr>"

definition example_outputs_map :: "raw_message gomap" where
  "example_outputs_map = [(''ok'', empty_text)]"

abbreviation example_advance :: "AttemptRequestContext \<Rightarrow> (scheduler_error + workflowAdvance) option" where
  "example_advance d \<equiv> prepareWorkflowAdvance (\<lambda>_. None) None d example_outputs_map"

lemma example_advance_result:
  "case example_advance example_dispatch of Some (Inr a) \<Rightarrow> persist a \<and> \<not> advance_terminal a \<and> successor a = ''ship'' | _ \<Rightarrow> False"
  by code_simp

lemma example_advanced:
  obtains a where "example_advance example_dispatch = Some (Inr a)" "persist a" "\<not> advance_terminal a" "successor a = ''ship''"
  using example_advance_result by (auto split: option.splits sum.splits)

theorem resolveNodeInputs_typed_witness:
  "\<exists>resolved. resolveNodeInputs example_step [(''goal'', empty_text)] [] = Inr resolved \<and> map_of resolved ''goal'' = Some empty_text"
proof -
  have "\<not> isl (resolveNodeInputs example_step [(''goal'', empty_text)] [])" by code_simp
  then obtain resolved where r: "resolveNodeInputs example_step [(''goal'', empty_text)] [] = Inr resolved"
    by (cases "resolveNodeInputs example_step [(''goal'', empty_text)] []") auto
  have "map_of (node_inputs (Fields example_step)) ''goal'' = Some (required_input ''run.input.goal'')"
    "wf_map (node_inputs (Fields example_step))"
    by (simp_all add: example_step_def plain_node_def plain_fields_def wf_map_def)
  moreover have "resolveBinding (required_input ''run.input.goal'') [(''goal'', empty_text)] [] = Inr (Some empty_text)"
    by code_simp
  ultimately show ?thesis using resolveNodeInputs_typed [OF r, of "''goal''"] r by auto
qed

theorem decodeNodeOutputs_typed_witness:
  "\<exists>result. decodeNodeOutputs example_step (print_json (JObject [(''ok'', JString [])])) = Inr result \<and> map_of result ''ok'' \<noteq> None"
proof -
  have "\<not> isl (decodeNodeOutputs example_step (print_json (JObject [(''ok'', JString [])])))" by code_simp
  then obtain result where r: "decodeNodeOutputs example_step (print_json (JObject [(''ok'', JString [])])) = Inr result"
    by (cases "decodeNodeOutputs example_step (print_json (JObject [(''ok'', JString [])]))") auto
  have "map_of (node_outputs (Fields example_step)) ''ok'' = Some example_output" "wf_map (node_outputs (Fields example_step))"
    "output_required example_output \<noteq> Some False"
    by (simp_all add: example_step_def plain_node_def plain_fields_def wf_map_def example_output_def)
  then show ?thesis using decodeNodeOutputs_typed [OF r] r by blast
qed



end
