(* ===== verification/ValidWorkflow.thy ===== *)
theory ValidWorkflow
  imports Validation
begin

text \<open>
  What static validation establishes. The index of the transitions is characterised first, then the
  graph searches of the validator against the graph of the authored transitions; the properties
  connect the validator with route derivation and bound the walks through an accepted workflow.
\<close>

section \<open>The index\<close>

text \<open>All authored transitions, with the node that declares them and their position there.\<close>

definition authored :: "Document \<Rightarrow> (Identifier \<times> nat \<times> Transition) list" where
  "authored document = concat (map (\<lambda>i. map (Pair i) (enumerate 0 (node_transitions document i)))
     (sorted_keys (document_nodes document)))"

definition index_all :: "Document \<Rightarrow> (Identifier \<times> nat \<times> Transition) list \<Rightarrow> validationState \<Rightarrow> validationState" where
  "index_all document ts state = foldl (\<lambda>state (i, n, t). index_transition document i n t state) state ts"

lemma index_node_all: "index_node document i n ts state = index_all document (map (Pair i) (enumerate n ts)) state"
  by (induction ts arbitrary: n state) (simp_all add: index_all_def)

lemma indexTransitions_all: "indexTransitions document = index_all document (authored document) (empty_index document)"
proof -
  have "foldl (\<lambda>state i. index_node document i 0 (node_transitions document i) state) state ids =
      index_all document (concat (map (\<lambda>i. map (Pair i) (enumerate 0 (node_transitions document i))) ids)) state"
    for ids state
    by (induction ids arbitrary: state) (simp_all add: index_all_def index_node_all)
  then show ?thesis by (simp add: indexTransitions_def authored_def)
qed

lemma index_transition_maps:
  "lookup_list (adjacency (index_transition document i n t state)) x = lookup_list (adjacency state) x @
     (if x = i \<and> has_key (document_nodes document) (Target t) then [Target t] else [])"
  "lookup_list (normalGraph (index_transition document i n t state)) x = lookup_list (normalGraph state) x @
     (if x = i \<and> has_key (document_nodes document) (Target t) \<and> (\<exists>c. t = NormalTransition c) then [Target t] else [])"
  "map (\<lambda>p. transition_id (record_transition p)) (lookup_list (incoming (index_transition document i n t state)) x) =
     map (\<lambda>p. transition_id (record_transition p)) (lookup_list (incoming state) x) @
     (if x = Target t \<and> has_key (document_nodes document) x then [transition_id t] else [])"
  by (auto simp: index_transition_def Let_def lookup_list_append_at split: Transition.splits)

lemma index_transition_errors:
  "index_errors (index_transition document i n t state) = [] \<longleftrightarrow> index_errors state = [] \<and>
     \<not> has_key (indexed state) (transition_id t) \<and> has_key (document_nodes document) (Target t)"
  "has_key (indexed (index_transition document i n t state)) x \<longleftrightarrow> has_key (indexed state) x \<or> x = transition_id t"
  by (auto simp: index_transition_def Let_def has_key_map_of)

lemma index_all_maps:
  "lookup_list (adjacency (index_all document ts state)) x = lookup_list (adjacency state) x @
     map (\<lambda>(i, n, t). Target t) (filter (\<lambda>(i, n, t). i = x \<and> has_key (document_nodes document) (Target t)) ts)"
  "lookup_list (normalGraph (index_all document ts state)) x = lookup_list (normalGraph state) x @
     map (\<lambda>(i, n, t). Target t) (filter (\<lambda>(i, n, t). i = x \<and> has_key (document_nodes document) (Target t) \<and>
       (\<exists>c. t = NormalTransition c)) ts)"
  "map (\<lambda>p. transition_id (record_transition p)) (lookup_list (incoming (index_all document ts state)) x) =
     map (\<lambda>p. transition_id (record_transition p)) (lookup_list (incoming state) x) @
     map (\<lambda>(i, n, t). transition_id t) (filter (\<lambda>(i, n, t). Target t = x \<and> has_key (document_nodes document) x) ts)"
  by (induction ts arbitrary: state) (auto simp: index_all_def index_transition_maps split: if_splits)

lemma index_all_errors:
  "index_errors (index_all document ts state) = [] \<longleftrightarrow> index_errors state = [] \<and>
     distinct (map (\<lambda>(i, n, t). transition_id t) ts) \<and>
     (\<forall>(i, n, t) \<in> set ts. \<not> has_key (indexed state) (transition_id t) \<and> has_key (document_nodes document) (Target t))"
proof (induction ts arbitrary: state)
  case (Cons a ts)
  obtain i n t where a: "a = (i, n, t)" by (cases a)
  have "index_all document (a # ts) state = index_all document ts (index_transition document i n t state)"
    by (simp add: index_all_def a)
  then show ?case
    by (auto simp: Cons.IH index_transition_errors a image_iff split: prod.splits)
qed (simp add: index_all_def)

lemma empty_index_lookup [simp]:
  "lookup_list (adjacency (empty_index document)) x = []" "lookup_list (normalGraph (empty_index document)) x = []"
  "lookup_list (incoming (empty_index document)) x = []" "indexed (empty_index document) = []"
  "index_errors (empty_index document) = []"
proof -
  have "lookup_list (map (\<lambda>i. (i, [])) ids) x = []" for ids and x :: Identifier
    by (induction ids) (auto simp: lookup_list_def)
  then show "lookup_list (adjacency (empty_index document)) x = []" "lookup_list (normalGraph (empty_index document)) x = []"
    "lookup_list (incoming (empty_index document)) x = []" "indexed (empty_index document) = []"
    "index_errors (empty_index document) = []"
    by (simp_all add: empty_index_def Let_def)
qed

lemma in_authored:
  "(i, n, t) \<in> set (authored document) \<longleftrightarrow>
     n < length (node_transitions document i) \<and> t = node_transitions document i ! n"
  by (auto simp: authored_def in_set_enumerate_eq node_transitions_def has_key_map_of split: option.splits)

lemma transitions_authored: "t \<in> set (node_transitions document x) \<longleftrightarrow> (\<exists>n. (x, n, t) \<in> set (authored document))"
  unfolding in_authored by (auto simp: in_set_conv_nth)

section \<open>The graph of the authored transitions\<close>

definition authored_step :: "Document \<Rightarrow> (Identifier \<times> Identifier) set" where
  "authored_step document = {(x, y). has_key (document_nodes document) y \<and>
     (\<exists>t \<in> set (node_transitions document x). Target t = y)}"

definition normal_step :: "Document \<Rightarrow> (Identifier \<times> Identifier) set" where
  "normal_step document = {(x, y). has_key (document_nodes document) y \<and>
     (\<exists>c. NormalTransition c \<in> set (node_transitions document x) \<and> transition_to c = y)}"

lemma successors_lookup: "successors m neighbours x = lookup_list m x"
  by (simp add: successors_def lookup_list_def)

lemma index_edges:
  "edges (adjacency (indexTransitions document)) neighbours = authored_step document"
  "edges (normalGraph (indexTransitions document)) neighbours = normal_step document"
proof -
  note t = transitions_authored
  have "(x, y) \<in> edges (adjacency (indexTransitions document)) neighbours \<longleftrightarrow> (x, y) \<in> authored_step document" for x y
    by (simp add: edges_def successors_lookup indexTransitions_all index_all_maps authored_step_def t image_iff Bex_def)
      blast
  then show "edges (adjacency (indexTransitions document)) neighbours = authored_step document" by auto
  have "(x, y) \<in> edges (normalGraph (indexTransitions document)) neighbours \<longleftrightarrow> (x, y) \<in> normal_step document" for x y
    by (simp add: edges_def successors_lookup indexTransitions_all index_all_maps normal_step_def t image_iff Bex_def)
      (use Target_def in fastforce)
  then show "edges (normalGraph (indexTransitions document)) neighbours = normal_step document" by auto
qed

section \<open>Searches\<close>

declare find_from.simps(2) [simp del] visit.simps(2) [simp del]

text \<open>\<open>find_from\<close> decides whether a path leads to the goal that continues from no blocked node.\<close>

definition open_edges :: "('a \<times> 'n) list \<Rightarrow> ('a \<Rightarrow> 'n \<Rightarrow> 'a list) \<Rightarrow> 'a set \<Rightarrow> ('a \<times> 'a) set" where
  "open_edges m f blocked = {(x, y) \<in> edges m f. x \<notin> blocked}"

lemma find_from_sound:
  "find_from m f goal blocked stack visited \<Longrightarrow> \<exists>x \<in> set stack. (x, goal) \<in> (open_edges m f blocked)\<^sup>*"
proof (induction m f goal blocked stack visited rule: find_from.induct)
  case (2 m f goal blocked current stack visited)
  consider "current = goal" | "current \<noteq> goal" "current \<in> blocked \<or> current \<in> visited"
    | "current \<noteq> goal" "\<not> (current \<in> blocked \<or> current \<in> visited)" by blast
  then show ?case
  proof cases
    case 3
    with 2 obtain x where x: "x \<in> set (successors m f current) \<union> set stack" "(x, goal) \<in> (open_edges m f blocked)\<^sup>*"
      by (auto simp: find_from.simps(2))
    show ?thesis
    proof (cases "x \<in> set stack")
      case False
      with x 3 have "(current, x) \<in> open_edges m f blocked" by (auto simp: open_edges_def edges_def)
      with x show ?thesis by (auto intro: converse_rtrancl_into_rtrancl)
    qed (use x in auto)
  qed (use 2 in \<open>auto simp: find_from.simps(2)\<close>)
qed simp

lemma find_from_complete:
  "\<not> find_from m f goal blocked stack visited \<Longrightarrow> goal \<notin> visited \<Longrightarrow>
     open_edges m f blocked `` visited \<subseteq> visited \<union> (blocked - {goal}) \<union> set stack \<Longrightarrow>
     x \<in> visited \<union> (blocked - {goal}) \<union> set stack \<Longrightarrow> (x, goal) \<notin> (open_edges m f blocked)\<^sup>*"
proof (induction m f goal blocked stack visited arbitrary: x rule: find_from.induct)
  case (1 m f goal blocked visited)
  have "y \<in> visited \<union> (blocked - {goal})" if "(x, y) \<in> (open_edges m f blocked)\<^sup>*" for y
    using that by induction (use 1 in \<open>auto simp: open_edges_def\<close>)
  with 1 show ?case by auto
next
  case (2 m f goal blocked current stack visited)
  note step = "2.prems"(1) [unfolded find_from.simps(2)]
  then have g: "current \<noteq> goal" by auto
  show ?case
  proof (cases "current \<in> blocked \<or> current \<in> visited")
    case True
    then show ?thesis using "2.IH"(1) [OF g True, of x] step "2.prems"(2-) g by auto
  next
    case False
    have "open_edges m f blocked `` insert current visited \<subseteq>
        insert current visited \<union> (blocked - {goal}) \<union> set (rev (successors m f current) @ stack)"
      using "2.prems"(3) by (auto simp: open_edges_def edges_def)
    then show ?thesis using "2.IH"(2) [OF g False, of x] step "2.prems"(2-) g False by auto
  qed
qed

lemma find_from_iff: "find_from m f goal blocked [start] {} \<longleftrightarrow> (start, goal) \<in> (open_edges m f blocked)\<^sup>*"
  using find_from_sound [of m f goal blocked "[start]" "{}"]
    find_from_complete [of m f goal blocked "[start]" "{}" start] by auto

lemma nodeReaches_iff: "nodeReaches (indexTransitions document) x y \<longleftrightarrow> (x, y) \<in> (authored_step document)\<^sup>*"
  by (simp add: nodeReaches_def find_from_iff open_edges_def index_edges)

text \<open>The depth-first search finds a cycle exactly if there is one: a gray node reaches every node that is
  searched next, and what it leaves black is closed under the edges and free of cycles.\<close>

lemma edges_lookup: "(x, y) \<in> edges m neighbours \<longleftrightarrow> y \<in> set (lookup_list m x)"
  by (simp add: edges_def successors_lookup)

lemma visit_cycle:
  "visit graph gray black targets = None \<Longrightarrow>
     \<forall>x \<in> gray. \<forall>y \<in> set targets. (x, y) \<in> (edges graph neighbours)\<^sup>+ \<Longrightarrow> \<exists>x. (x, x) \<in> (edges graph neighbours)\<^sup>+"
proof (induction graph gray black targets rule: visit.induct)
  case (2 graph gray black target targets)
  show ?case
  proof (cases "target \<in> gray \<or> target \<in> black")
    case True
    with 2 show ?thesis by (auto simp: visit.simps(2) split: if_splits)
  next
    case False
    have "(x, y) \<in> (edges graph neighbours)\<^sup>+"
      if "x \<in> insert target gray" "y \<in> set (sort (lookup_list graph target))" for x y
    proof -
      from that(2) have "(target, y) \<in> edges graph neighbours" by (simp add: edges_lookup)
      with that(1) "2.prems"(2) show ?thesis by (auto intro: trancl_into_trancl)
    qed
    then have all: "\<forall>x \<in> insert target gray. \<forall>y \<in> set (sort (lookup_list graph target)). (x, y) \<in> (edges graph neighbours)\<^sup>+"
      by blast
    show ?thesis
    proof (cases "visit graph (insert target gray) black (sort (lookup_list graph target))")
      case None
      with "2.IH"(2) False all show ?thesis by blast
    next
      case (Some finished)
      with "2.prems"(1) False have "visit graph gray (insert target finished) targets = None"
        by (simp add: visit.simps(2))
      with "2.IH"(3) [OF _ _ Some] False "2.prems"(2) show ?thesis by simp
    qed
  qed
qed simp

definition cycle_free :: "('a \<times> 'a) set \<Rightarrow> 'a set \<Rightarrow> bool" where
  "cycle_free R S \<longleftrightarrow> R `` S \<subseteq> S \<and> (\<forall>x \<in> S. (x, x) \<notin> R\<^sup>+)"

lemma cycle_free_insert:
  assumes "cycle_free R S" and "R `` {x} \<subseteq> S" and "x \<notin> S"
  shows "cycle_free R (insert x S)"
proof -
  have closed: "y \<in> S" if "(z, y) \<in> R\<^sup>+" "z \<in> insert x S" for y z
    using that by induction (use assms in \<open>auto simp: cycle_free_def\<close>)
  with assms show ?thesis by (auto simp: cycle_free_def)
qed

lemma visit_finished:
  "visit graph gray black targets = Some finished \<Longrightarrow> gray \<inter> black = {} \<Longrightarrow>
     cycle_free (edges graph neighbours) black \<Longrightarrow>
     black \<subseteq> finished \<and> set targets \<subseteq> finished \<and> gray \<inter> finished = {} \<and> cycle_free (edges graph neighbours) finished"
proof (induction graph gray black targets arbitrary: finished rule: visit.induct)
  case (2 graph gray black target targets)
  show ?case
  proof (cases "target \<in> gray \<or> target \<in> black")
    case True
    with "2.prems"(1) have black: "target \<notin> gray" "target \<in> black" "visit graph gray black targets = Some finished"
      by (auto simp: visit.simps(2) split: if_splits)
    from "2.IH"(1) [OF this "2.prems"(2,3)] black(2) show ?thesis by auto
  next
    case False
    with "2.prems"(1) obtain inner where
      inner: "visit graph (insert target gray) black (sort (lookup_list graph target)) = Some inner"
      and outer: "visit graph gray (insert target inner) targets = Some finished"
      by (auto simp: visit.simps(2) split: option.splits if_splits)
    have i: "black \<subseteq> inner" "edges graph neighbours `` {target} \<subseteq> inner" "insert target gray \<inter> inner = {}"
        "cycle_free (edges graph neighbours) inner"
      using "2.IH"(2) [OF _ _ inner] False "2.prems"(2,3) by (auto simp: edges_lookup)
    then have "cycle_free (edges graph neighbours) (insert target inner)"
      by (intro cycle_free_insert) auto
    with "2.IH"(3) [OF _ _ inner outer] False i "2.prems"(2) show ?thesis by auto
  qed
qed simp

lemma visit_acyclic:
  assumes "fst ` edges graph neighbours \<subseteq> set starts"
  shows "visit graph {} {} starts \<noteq> None \<longleftrightarrow> acyclic (edges graph neighbours)"
proof
  assume "visit graph {} {} starts \<noteq> None"
  then obtain finished where "visit graph {} {} starts = Some finished" by auto
  from visit_finished [OF this] have f: "set starts \<subseteq> finished" "cycle_free (edges graph neighbours) finished"
    by (auto simp: cycle_free_def)
  show "acyclic (edges graph neighbours)"
  proof (rule acyclicI, rule allI)
    fix x
    show "(x, x) \<notin> (edges graph neighbours)\<^sup>+"
    proof
      assume c: "(x, x) \<in> (edges graph neighbours)\<^sup>+"
      then obtain y where "(x, y) \<in> edges graph neighbours" by (auto dest: tranclD)
      with assms f have "x \<in> finished" by force
      with f c show False by (auto simp: cycle_free_def)
    qed
  qed
qed (use visit_cycle [of graph "{}" "{}" starts] in \<open>auto simp: acyclic_def\<close>)

lemma validateCycles_Nil:
  "validateCycles document (indexTransitions document) = [] \<longleftrightarrow> acyclic (normal_step document)"
proof -
  have "has_key (document_nodes document) x" if "(x, y) \<in> normal_step document" for x y
    using that by (auto simp: normal_step_def in_node_transitions has_key_map_of)
  then have "fst ` edges (normalGraph (indexTransitions document)) neighbours \<subseteq>
      set (sorted_keys (document_nodes document))"
    by (auto simp: index_edges)
  from visit_acyclic [OF this] show ?thesis
    by (auto simp: validateCycles_def index_edges split: option.splits)
qed

section \<open>Accepted documents\<close>

lemma sortValidationErrors_Nil [simp]: "sortValidationErrors es = [] \<longleftrightarrow> es = []"
  by (metis length_0_conv length_sort sortValidationErrors_def)

text \<open>The groups of checks that all pass when a document is accepted.\<close>

lemma Validate_NilD:
  assumes "Validate lower capabilities document = []"
  shows "index_errors (indexTransitions document) = []"
    and "validateNodes capabilities document (indexTransitions document) = []"
    and "validateJoins document (indexTransitions document) = []"
    and "validateReachability document (indexTransitions document) = []"
    and "validateCycles document (indexTransitions document) = []"
    and "validateDefaultRoute document = []"
  using assms by (simp_all add: Validate_def validation_errors_def Let_def)

lemma check_Nil [simp]: "check ok code location = [] \<longleftrightarrow> ok"
  by (simp add: check_def)

lemma index_errors_Nil:
  "index_errors (indexTransitions document) = [] \<longleftrightarrow>
     distinct (map (\<lambda>(i, n, t). transition_id t) (authored document)) \<and>
     (\<forall>x. \<forall>t \<in> set (node_transitions document x). has_key (document_nodes document) (Target t))"
proof -
  have "(\<forall>x. \<forall>t \<in> set (node_transitions document x). has_key (document_nodes document) (Target t)) \<longleftrightarrow>
      (\<forall>(i, n, t) \<in> set (authored document). has_key (document_nodes document) (Target t))"
    unfolding transitions_authored Ball_def by auto
  then show ?thesis by (simp add: indexTransitions_all index_all_errors has_key_def [of "[]"])
qed

lemma entry_nodes_iff: "x \<in> set (entry_nodes document) \<longleftrightarrow> entry_capable document x"
  by (auto simp: entry_nodes_def entry_capable_def has_key_map_of split: option.splits)

lemma validateReachability_Nil:
  "validateReachability document (indexTransitions document) = [] \<longleftrightarrow>
     (\<forall>x. has_key (document_nodes document) x \<longrightarrow>
        (\<exists>e. entry_capable document e \<and> (e, x) \<in> (authored_step document)\<^sup>*))"
  by (simp add: validateReachability_def Let_def filter_empty_conv pop_search.run_iff index_edges Bex_def entry_nodes_iff)

section \<open>The default route\<close>

lemma default_reachable_forward:
  "default_reachable document entry terminals = forwardRouteNodes document entry (set terminals) []"
proof -
  have "routeTransitionEnabled t [] = transitionEnabled t" for t by (simp add: routeTransitionEnabled_def)
  then show ?thesis by (simp only: default_reachable_def forwardRouteNodes_def)
qed

lemma in_transition_edges:
  "(x, y) \<in> transition_edges (includedRouteTransitions document included terminals overrides) \<longleftrightarrow>
     x \<in> included - terminals \<and> y \<in> included \<and>
     (\<exists>t \<in> set (node_transitions document x). routeTransitionEnabled t overrides \<and> Target t = y)" (is "?l \<longleftrightarrow> ?r")
proof
  assume ?r
  then obtain t where t: "t \<in> set (node_transitions document x)" "routeTransitionEnabled t overrides" "Target t = y"
    by blast
  with \<open>?r\<close> have "\<lparr>route_transition_id = transition_id t, route_transition_from = x, route_transition_to = y\<rparr>
      \<in> set (includedRouteTransitions document included terminals overrides)"
    unfolding in_includedRouteTransitions by auto
  then show ?l by (force simp: transition_edges_def)
next
  assume ?l
  then show ?r unfolding transition_edges_def image_iff Bex_def in_includedRouteTransitions by auto
qed

lemma default_reverse_edges:
  assumes "finite reached"
  shows "edges (default_reverse document reached terminals) neighbours =
    (transition_edges (includedRouteTransitions document reached (set terminals) []))\<inverse>"
proof -
  have "(y, x) \<in> edges (default_reverse document reached terminals) neighbours \<longleftrightarrow>
      x \<in> reached - set terminals \<and> y \<in> reached \<and>
      (\<exists>t \<in> set (node_transitions document x). transitionEnabled t \<and> Target t = y)" for x y
    using assms by (auto simp: default_reverse_def edges_group_by)
  moreover have "(x, y) \<in> transition_edges (includedRouteTransitions document reached (set terminals) []) \<longleftrightarrow>
      x \<in> reached - set terminals \<and> y \<in> reached \<and>
      (\<exists>t \<in> set (node_transitions document x). transitionEnabled t \<and> Target t = y)" for x y
    by (simp add: in_transition_edges routeTransitionEnabled_def)
  ultimately show ?thesis by auto
qed

lemma default_stranded:
  assumes "finite reached" and "set terminals \<subseteq> reached"
  shows "mark_search (default_reverse document reached terminals) neighbours (rev terminals) (set terminals) =
    canReachTerminal reached terminals (includedRouteTransitions document reached (set terminals) [])"
proof -
  have "filter (\<lambda>t. t \<in> reached) terminals = terminals" using assms(2) by (auto intro: filter_True)
  moreover have "n \<in> mark_search (default_reverse document reached terminals) neighbours (rev terminals) (set (rev terminals)) \<longleftrightarrow>
      n \<in> canReachTerminal reached terminals (includedRouteTransitions document reached (set terminals) [])" for n
    using assms(2) unfolding push_search.run_iff default_reverse_edges [OF assms(1)] canReachTerminal_iff
    by (auto simp: rtrancl_converse)
  ultimately show ?thesis by auto
qed

lemma capable_boundary:
  "boundary_ok document entry terminals \<longleftrightarrow>
     entry_capable document entry \<and> terminals \<noteq> [] \<and> (\<forall>t \<in> set terminals. terminal_capable document t)"
  by (auto simp: boundary_ok_def entry_capable_def terminal_capable_def split: option.splits)

lemma validateDefaultRoute_Nil:
  fixes document
  defines "entry \<equiv> default_entry (spec_defaults (document_spec document))"
    and "terminals \<equiv> sorted_set (default_terminals (spec_defaults (document_spec document)))"
  defines "included \<equiv> forwardRouteNodes document entry (set terminals) []"
  assumes "terminals \<noteq> []"
  shows "validateDefaultRoute document = [] \<longleftrightarrow> boundary_ok document entry terminals \<and>
    set terminals \<subseteq> included \<and>
    included \<subseteq> canReachTerminal included terminals (includedRouteTransitions document included (set terminals) [])"
proof (cases "boundary_ok document entry terminals")
  case True
  let ?declared = "default_terminals (spec_defaults (document_spec document))"
  note fin = forward_finite [OF boundary_has_key [OF True], of "set terminals" "[]", folded included_def]
  have stranded: "\<forall>t \<in> set terminals. t \<in> included \<Longrightarrow>
      mark_search (default_reverse document included terminals) neighbours (rev terminals) (set terminals) =
      canReachTerminal included terminals (includedRouteTransitions document included (set terminals) [])"
    by (rule default_stranded [OF fin]) auto
  have "filter (terminal_capable document) ?declared = ?declared"
    "filter (\<lambda>t. \<not> terminal_capable document t) ?declared = []"
    using True by (auto simp: capable_boundary terminals_def filter_empty_conv intro: filter_True)
  with True fin assms(4) show ?thesis
    by (auto simp: validateDefaultRoute_def Let_def capable_boundary default_reachable_forward filter_empty_conv
        stranded simp flip: entry_def terminals_def included_def)
next
  case False
  then show ?thesis using assms(4)
    by (auto simp: validateDefaultRoute_def Let_def capable_boundary terminals_def entry_def filter_empty_conv)
qed

section \<open>Walks\<close>

text \<open>A walk is a sequence of authored transitions in which each leaves the node that the one before it
  enters. In a finite graph without cycles a node has fewer successors than its predecessors: that
  bounds a walk of normal transitions, and every bounded transition starts a new one.\<close>

fun walk :: "Document \<Rightarrow> Identifier \<Rightarrow> Transition list \<Rightarrow> bool" where
  "walk document x [] = True"
| "walk document x (t # ts) = (t \<in> set (node_transitions document x) \<and> walk document (Target t) ts)"

fun is_bounded :: "Transition \<Rightarrow> bool" where
  "is_bounded (BoundedTransition _ _) = True"
| "is_bounded (NormalTransition _) = False"

fun traversal_limit :: "Transition \<Rightarrow> nat" where
  "traversal_limit (BoundedTransition _ m) = unat m"
| "traversal_limit (NormalTransition _) = 0"

definition bounded_transitions :: "Document \<Rightarrow> Transition set" where
  "bounded_transitions document = {t. is_bounded t \<and> (\<exists>x. t \<in> set (node_transitions document x))}"

definition node_count :: "Document \<Rightarrow> nat" where
  "node_count document = card {x. has_key (document_nodes document) x}"

definition descendants :: "('a \<times> 'a) set \<Rightarrow> 'a \<Rightarrow> 'a set" where
  "descendants R x = {y. (x, y) \<in> R\<^sup>+}"

lemma descendants_smaller:
  assumes "acyclic R" and "finite S" and "R `` UNIV \<subseteq> S" and "(x, y) \<in> R"
  shows "card (descendants R y) < card (descendants R x)"
proof (rule psubset_card_mono)
  have "descendants R x \<subseteq> S"
  proof
    fix z
    assume "z \<in> descendants R x"
    then have "(x, z) \<in> R\<^sup>+" by (simp add: descendants_def)
    then show "z \<in> S" by cases (use assms(3) in auto)
  qed
  then show "finite (descendants R x)" using assms(2) by (rule finite_subset)
  have "y \<in> descendants R x" "y \<notin> descendants R y"
    using assms(1,4) by (auto simp: descendants_def acyclic_def)
  moreover have "descendants R y \<subseteq> descendants R x"
    using assms(4) by (auto simp: descendants_def intro: trancl_into_trancl2)
  ultimately show "descendants R y \<subset> descendants R x" by blast
qed

lemma descendants_bound:
  assumes "acyclic (normal_step document)" and "has_key (document_nodes document) x"
  shows "card (descendants (normal_step document) x) < node_count document"
proof -
  have "descendants (normal_step document) x \<subseteq> {x. has_key (document_nodes document) x} - {x}"
  proof
    fix z
    assume z: "z \<in> descendants (normal_step document) x"
    then have "(x, z) \<in> (normal_step document)\<^sup>+" by (simp add: descendants_def)
    then have "has_key (document_nodes document) z" by cases (auto simp: normal_step_def)
    with z assms(1) show "z \<in> {x. has_key (document_nodes document) x} - {x}"
      by (auto simp: descendants_def acyclic_def)
  qed
  then have "descendants (normal_step document) x \<subset> {x. has_key (document_nodes document) x}"
    using assms(2) by blast
  then show ?thesis unfolding node_count_def by (intro psubset_card_mono) simp_all
qed

lemma walk_length:
  assumes "acyclic (normal_step document)"
    and targets: "\<forall>x. \<forall>t \<in> set (node_transitions document x). has_key (document_nodes document) (Target t)"
  shows "walk document x ts \<Longrightarrow> length ts \<le>
    card (descendants (normal_step document) x) + length (filter is_bounded ts) * node_count document"
proof (induction ts arbitrary: x)
  case (Cons t ts)
  then have t: "t \<in> set (node_transitions document x)" and k: "has_key (document_nodes document) (Target t)"
    and IH: "length ts \<le> card (descendants (normal_step document) (Target t)) +
      length (filter is_bounded ts) * node_count document"
    using targets by auto
  show ?case
  proof (cases t)
    case (NormalTransition c)
    with t k have "(x, Target t) \<in> normal_step document"
      by (auto simp: normal_step_def Target_def)
    from descendants_smaller [OF assms(1) finite_keys _ this] have
      "card (descendants (normal_step document) (Target t)) < card (descendants (normal_step document) x)"
      by (auto simp: normal_step_def)
    with IH NormalTransition show ?thesis by simp
  next
    case (BoundedTransition c m)
    with IH descendants_bound [OF assms(1) k] show ?thesis by simp
  qed
qed simp

lemma finite_bounded_transitions: "finite (bounded_transitions document)"
proof -
  have "bounded_transitions document \<subseteq> (\<lambda>(i, n, t). t) ` set (authored document)"
    by (force simp: bounded_transitions_def transitions_authored)
  then show ?thesis by (rule finite_subset) simp
qed

lemma walk_bounded_count:
  assumes "walk document x ts" and "\<forall>t \<in> bounded_transitions document. count_list ts t \<le> traversal_limit t"
  shows "length (filter is_bounded ts) \<le> (\<Sum>t \<in> bounded_transitions document. traversal_limit t)"
proof -
  have "set (filter is_bounded ts) \<subseteq> bounded_transitions document"
    using assms(1) by (induction ts arbitrary: x) (auto simp: bounded_transitions_def)
  then have "length (filter is_bounded ts) = (\<Sum>t \<in> bounded_transitions document. count_list (filter is_bounded ts) t)"
    by (simp add: sum_count_set finite_bounded_transitions)
  also have "\<dots> \<le> (\<Sum>t \<in> bounded_transitions document. count_list ts t)"
  proof (rule sum_mono)
    show "count_list (filter is_bounded ts) t \<le> count_list ts t" for t by (induction ts) auto
  qed
  also have "\<dots> \<le> (\<Sum>t \<in> bounded_transitions document. traversal_limit t)"
    using assms(2) by (intro sum_mono) auto
  finally show ?thesis .
qed

section \<open>Joins\<close>

definition incoming_ids :: "Document \<Rightarrow> Identifier \<Rightarrow> Identifier list" where
  "incoming_ids document x =
     map (\<lambda>(i, n, t). transition_id t) (filter (\<lambda>(i, n, t). Target t = x) (authored document))"

lemma incoming_index:
  "has_key (document_nodes document) x \<Longrightarrow>
     map (\<lambda>p. transition_id (record_transition p)) (lookup_list (incoming (indexTransitions document)) x) =
     incoming_ids document x"
  by (simp add: indexTransitions_all index_all_maps incoming_ids_def)

lemma sameIdentifiers_distinct:
  assumes "sameIdentifiers declared ids" and "distinct ids"
  shows "set declared = set ids \<and> distinct declared"
proof -
  have sub: "set ids \<subseteq> set declared" and len: "length declared = length ids"
    using assms(1) by (auto simp: sameIdentifiers_def list_all_iff)
  have "card (set declared) \<le> card (set ids)"
    using card_length [of declared] len distinct_card [OF assms(2)] by simp
  then have eq: "set ids = set declared" using sub by (intro card_seteq) auto
  then have "card (set declared) = length declared" using len distinct_card [OF assms(2)] by simp
  with eq show ?thesis by (simp add: card_distinct)
qed

lemma distinct_incoming_ids:
  "distinct (map (\<lambda>(i, n, t). transition_id t) (authored document)) \<Longrightarrow> distinct (incoming_ids document x)"
  unfolding incoming_ids_def by (rule distinct_map_filter)

section \<open>An accepted example\<close>

text \<open>\<open>plan\<close> leads to \<open>build\<close>, which either returns to \<open>plan\<close>, at most twice, or goes on to \<open>ship\<close>
  directly or over \<open>check\<close>; \<open>ship\<close> joins the two ways.\<close>

definition accepted_nodes :: "Node gomap" where
  "accepted_nodes =
    [(''plan'', plain_node (plain_fields True False [] [] None
       [NormalTransition (plain_transition ''planned'' ''build'')])),
     (''build'', plain_node (plain_fields False False [] [] None
       [BoundedTransition (plain_transition ''again'' ''plan'') 2,
        NormalTransition (plain_transition ''built'' ''ship''),
        NormalTransition (plain_transition ''risky'' ''check'')])),
     (''check'', plain_node (plain_fields False False [] [] None
       [NormalTransition (plain_transition ''checked'' ''ship'')])),
     (''ship'', plain_node (plain_fields False True [] []
       (Some \<lparr>join_mode = JoinOne, join_from = [''built'', ''checked'']\<rparr>) []))]"

definition accepted_document :: Document where
  "accepted_document = example_document\<lparr>document_spec := \<lparr>spec_inputs = [],
     spec_defaults = \<lparr>default_entry = ''plan'', default_terminals = [''ship'']\<rparr>,
     Profiles = [], Nodes = accepted_nodes\<rparr>\<rparr>"

lemma accepted_document_valid: "Validate lower None accepted_document = []"
proof -
  have "Validate id None accepted_document = []" by code_simp
  moreover have "validateResources lower accepted_document = validateResources id accepted_document"
    by (simp add: validateResources_def accepted_document_def accepted_nodes_def plain_node_def plain_fields_def)
  ultimately show ?thesis by (simp add: Validate_def validation_errors_def Let_def)
qed

section \<open>Properties\<close>

text \<open>C5: the validator rejects exactly the unbounded loops: no cycle is reported if and only if no
  sequence of normal transitions leads from a node back to itself. Loops through a bounded transition
  are allowed.\<close>

theorem cycles_rejected_exactly:
  "validateCycles document (indexTransitions document) = [] \<longleftrightarrow> acyclic (normal_step document)"
  by (rule validateCycles_Nil)

text \<open>C6: an accepted workflow cannot run forever on its loop limits: a walk along authored transitions
  that takes every bounded transition at most as often as its limit allows is shorter than the number
  of nodes times one more than the sum of all limits.\<close>

theorem accepted_walks_bounded:
  assumes "Validate lower capabilities document = []" and "walk document x ts"
    and "\<forall>t \<in> bounded_transitions document. count_list ts t \<le> traversal_limit t"
  shows "length ts < Suc (\<Sum>t \<in> bounded_transitions document. traversal_limit t) * node_count document"
proof -
  note ok = Validate_NilD [OF assms(1)]
  have acyclic: "acyclic (normal_step document)" using ok(5) by (simp add: validateCycles_Nil)
  have targets: "\<forall>x. \<forall>t \<in> set (node_transitions document x). has_key (document_nodes document) (Target t)"
    using ok(1) by (simp add: index_errors_Nil)
  have entry: "has_key (document_nodes document) (default_entry (spec_defaults (document_spec document)))"
    using ok(6) by (auto simp: validateDefaultRoute_def Let_def entry_capable_def has_key_map_of split: if_splits option.splits)
  have small: "card (descendants (normal_step document) x) < node_count document"
  proof (cases "has_key (document_nodes document) x")
    case False
    then have "descendants (normal_step document) x = {}"
      by (auto simp: descendants_def normal_step_def in_node_transitions has_key_map_of dest!: tranclD)
    with descendants_bound [OF acyclic entry] show ?thesis by simp
  qed (rule descendants_bound [OF acyclic])
  have "length (filter is_bounded ts) * node_count document \<le>
      (\<Sum>t \<in> bounded_transitions document. traversal_limit t) * node_count document"
    using walk_bounded_count [OF assms(2,3)] by (rule mult_le_mono1)
  with walk_length [OF acyclic targets assms(2)] small show ?thesis unfolding mult_Suc by linarith
qed

theorem accepted_walks_bounded_witness:
  "length [NormalTransition (plain_transition ''planned'' ''build''),
      BoundedTransition (plain_transition ''again'' ''plan'') 2] <
    Suc (\<Sum>t \<in> bounded_transitions accepted_document. traversal_limit t) * node_count accepted_document"
proof (rule accepted_walks_bounded [OF accepted_document_valid])
  show "walk accepted_document ''plan'' [NormalTransition (plain_transition ''planned'' ''build''),
      BoundedTransition (plain_transition ''again'' ''plan'') 2]"
    by code_simp
  have only: "t = BoundedTransition (plain_transition ''again'' ''plan'') 2" if "t \<in> bounded_transitions accepted_document" for t
    using that by (auto simp: bounded_transitions_def in_node_transitions accepted_document_def accepted_nodes_def
        plain_node_def plain_fields_def split: if_splits)
  show "\<forall>t \<in> bounded_transitions accepted_document. count_list [NormalTransition (plain_transition ''planned'' ''build''),
      BoundedTransition (plain_transition ''again'' ''plan'') 2] t \<le> traversal_limit t"
    by (rule ballI, drule only) simp
qed

text \<open>C7: the validator and route derivation agree on the default route: with declared default terminals
  the default-route check passes exactly when a run without a requested entry or terminals, and
  without required nodes, gets a route.\<close>

theorem default_route_agrees:
  assumes "default_terminals (spec_defaults (document_spec document)) \<noteq> []" and "RequiredNodes ctx = []"
  shows "validateDefaultRoute document = [] \<longleftrightarrow>
    (\<exists>r. CreateRoute document \<lparr>request_from = [], request_until = []\<rparr> ctx = Inr r)"
  using validateDefaultRoute_Nil [of document] assms
    createRoute_checks [of document "\<lparr>request_from = [], request_until = []\<rparr>" ctx "[]"]
  by (simp add: CreateRoute_def selected_entry_def selected_terminals_def)

theorem default_route_agrees_witness:
  "\<exists>r. CreateRoute accepted_document \<lparr>request_from = [], request_until = []\<rparr>
     \<lparr>RunInputs = [], AcceptedOutputs = [], RequiredNodes = []\<rparr> = Inr r"
  using default_route_agrees [of accepted_document "\<lparr>RunInputs = [], AcceptedOutputs = [], RequiredNodes = []\<rparr>"]
    Validate_NilD(6) [OF accepted_document_valid]
  by (simp add: accepted_document_def)

text \<open>C8: the graph of an accepted workflow is sound: every transition leads to a declared node, no two
  transitions share an identifier, and every node can be reached from an entry-capable node.\<close>

theorem accepted_graph_sound:
  assumes "Validate lower capabilities document = []"
  shows "(\<forall>x. \<forall>t \<in> set (node_transitions document x). has_key (document_nodes document) (Target t)) \<and>
    distinct (map (\<lambda>(i, n, t). transition_id t) (authored document)) \<and>
    (\<forall>x. has_key (document_nodes document) x \<longrightarrow>
      (\<exists>e. entry_capable document e \<and> (e, x) \<in> (authored_step document)\<^sup>*))"
  using Validate_NilD(1,4) [OF assms] by (simp add: index_errors_Nil validateReachability_Nil)

theorem accepted_graph_sound_witness:
  "\<exists>e. entry_capable accepted_document e \<and> (e, ''check'') \<in> (authored_step accepted_document)\<^sup>*"
proof -
  have "has_key (document_nodes accepted_document) ''check''" by code_simp
  with accepted_graph_sound [OF accepted_document_valid] show ?thesis by blast
qed

text \<open>C9: joins of an accepted workflow are exact: a node has a join exactly when at least two
  transitions enter it, and then the join lists each of them once and nothing else.\<close>

theorem accepted_joins_exact:
  assumes "Validate lower capabilities document = []" and "map_of (document_nodes document) x = Some node"
  shows "case node_join (Fields node) of
      None \<Rightarrow> length (incoming_ids document x) \<le> 1
    | Some join \<Rightarrow> 2 \<le> length (incoming_ids document x) \<and> distinct (join_from join) \<and>
        set (join_from join) = set (incoming_ids document x)"
proof -
  note ok = Validate_NilD [OF assms(1)]
  have k: "has_key (document_nodes document) x" using assms(2) by (simp add: has_key_map_of)
  have distinct: "distinct (incoming_ids document x)"
    using ok(1) by (intro distinct_incoming_ids) (simp add: index_errors_Nil)
  have len: "length (lookup_list (incoming (indexTransitions document)) x) = length (incoming_ids document x)"
    using incoming_index [OF k] by (metis length_map)
  have "validateJoin document (indexTransitions document) x (Fields node) = []"
    using ok(3) k assms(2) by (auto simp: validateJoins_def)
  then show ?thesis
    using sameIdentifiers_distinct [OF _ distinct]
    by (auto simp: validateJoin_def Let_def len incoming_index [OF k] not_le split: option.splits if_splits)
qed

theorem accepted_joins_exact_witness:
  "2 \<le> length (incoming_ids accepted_document ''ship'') \<and>
   set (incoming_ids accepted_document ''ship'') = {''built'', ''checked''}"
proof -
  obtain node where node: "map_of (document_nodes accepted_document) ''ship'' = Some node"
    and join: "node_join (Fields node) = Some \<lparr>join_mode = JoinOne, join_from = [''built'', ''checked'']\<rparr>"
    by (auto simp: accepted_document_def accepted_nodes_def plain_node_def plain_fields_def)
  from accepted_joins_exact [OF accepted_document_valid node] join show ?thesis by simp
qed

section \<open>Observations\<close>

text \<open>The output that is reported for a repeated artifact filename depends on the order in which the map
  of the outputs is visited, so the list of errors does as well.\<close>

definition clashing_output :: OutputDeclaration where
  "clashing_output = \<lparr>output_artifact = Some \<lparr>artifact_filename = ''plan.md'', template_input = []\<rparr>,
     output_schema_definition = [], output_type = ValueMarkdown, output_schema = [], output_description = [],
     output_required = None\<rparr>"

lemma artifact_clash_order_dependent:
  fixes common
  defines "m \<equiv> [(''a'', clashing_output), (''b'', clashing_output)]"
  shows "map_of (rev m) = map_of m" and
    "validate_outputs lower document ''n'' common {} m =
       [add ValidationSchemaInvalid ''/spec/nodes/n/outputs/b'' []]"
    "validate_outputs lower document ''n'' common {} (rev m) =
       [add ValidationSchemaInvalid ''/spec/nodes/n/outputs/a'' []]"
proof -
  have ok: "ValidateArtifact \<lparr>artifact_filename = ''plan.md'', template_input = []\<rparr> ''placeholder'' None"
    by code_simp
  have "\<not> has_prefix ''schema:'' ValueMarkdown" by code_simp
  note simps = m_def clashing_output_def validate_output_def validate_artifact_def check_def ok this
    ValidateSchemaValue_def node_location_def
  show "map_of (rev m) = map_of m" by (auto simp: m_def)
  show "validate_outputs lower document ''n'' common {} m =
       [add ValidationSchemaInvalid ''/spec/nodes/n/outputs/b'' []]"
    "validate_outputs lower document ''n'' common {} (rev m) =
       [add ValidationSchemaInvalid ''/spec/nodes/n/outputs/a'' []]"
    by (simp_all add: simps)
qed

text \<open>A lone slash passes as a filename, since it is its own base name.\<close>

lemma root_filename_accepted:
  "ValidateArtifact \<lparr>artifact_filename = ''/'', template_input = []\<rparr> ''text'' None"
  by code_simp

end
