(* ===== verification/EventLog.thy ===== *)
theory EventLog
  imports EventStore
begin

text \<open>
  What the event store of \<open>EventStore\<close> guarantees: the shape of the log in every reachable store,
  replay of committed commands, refusal of stale writers, reproducible projections, and the
  settledness of deleted work.
\<close>

section \<open>The engine only refuses\<close>

text \<open>What SQLite decides is whether a statement fails, not what it does: every run of the model
  that succeeds under some engine gives the same result under the one that refuses nothing.\<close>

abbreviation permissive :: engine where "permissive \<equiv> \<lambda>_ _. True"

lemma execute_permissive: "execute sqlite t s n = Inr t' \<Longrightarrow> execute permissive t s n = Inr t'"
  by (auto simp: execute_def split: if_splits)

lemma write_dependencies_permissive:
  "write_dependencies sqlite t v ds w = Inr r \<Longrightarrow> write_dependencies permissive t v ds w = Inr r"
  by (induction ds arbitrary: w) (auto split: option.splits if_splits)

lemma result_bind_mono:
  "result_bind m f = Inr y \<Longrightarrow> (\<And>x. m = Inr x \<Longrightarrow> m' = Inr x) \<Longrightarrow>
     (\<And>x. m = Inr x \<Longrightarrow> f x = Inr y \<Longrightarrow> f' x = Inr y) \<Longrightarrow> result_bind m' f' = Inr y"
  by (cases m) auto

lemma write_permissive:
  "writeProjectProjection sqlite t pr = Inr t' \<Longrightarrow> writeProjectProjection permissive t pr = Inr t'"
  "writeWorkItemProjection sqlite t w = Inr t' \<Longrightarrow> writeWorkItemProjection permissive t w = Inr t'"
  "writeStoryProjection sqlite t s = Inr t' \<Longrightarrow> writeStoryProjection permissive t s = Inr t'"
  "writeRunProjection sqlite t r = Inr t' \<Longrightarrow> writeRunProjection permissive t r = Inr t'"
  "writeNodeProjection sqlite t n = Inr t' \<Longrightarrow> writeNodeProjection permissive t n = Inr t'"
  "writeAttemptProjection sqlite t a = Inr t' \<Longrightarrow> writeAttemptProjection permissive t a = Inr t'"
  "writeApprovalProjection sqlite t ap = Inr t' \<Longrightarrow> writeApprovalProjection permissive t ap = Inr t'"
  "writeReadinessAssessmentProjection sqlite t ra = Inr t' \<Longrightarrow>
     writeReadinessAssessmentProjection permissive t ra = Inr t'"
  "writeInputRequestProjection sqlite t i = Inr t' \<Longrightarrow> writeInputRequestProjection permissive t i = Inr t'"
  "writeProviderPermissionProjection sqlite t pp = Inr t' \<Longrightarrow>
     writeProviderPermissionProjection permissive t pp = Inr t'"
  unfolding writeProjectProjection_def writeWorkItemProjection_def writeStoryProjection_def
    writeRunProjection_def writeNodeProjection_def writeAttemptProjection_def writeApprovalProjection_def
    writeReadinessAssessmentProjection_def writeInputRequestProjection_def
    writeProviderPermissionProjection_def
  by (fact execute_permissive)+

lemma writePoint_permissive:
  "writePointProjection sqlite t v = Inr t' \<Longrightarrow> writePointProjection permissive t v = Inr t'"
  unfolding writePointProjection_def
  by (erule result_bind_mono, erule execute_permissive, erule result_bind_mono,
      erule write_dependencies_permissive, simp)

lemma project_with_mono:
  "project_with r rows write t e = Inr t' \<Longrightarrow> (\<And>p. write p = Inr t' \<Longrightarrow> write' p = Inr t') \<Longrightarrow>
     project_with r rows write' t e = Inr t'"
  by (auto simp: project_with_def split: reduction.splits)

lemma if_Inr_mono:
  "(if b then x else y) = Inr r \<Longrightarrow> (x = Inr r \<Longrightarrow> x' = Inr r) \<Longrightarrow> (y = Inr r \<Longrightarrow> y' = Inr r) \<Longrightarrow>
     (if b then x' else y') = Inr r"
  by (cases b) auto

text \<open>Nor does the outcome depend on the type of the failures of the source tables.\<close>

lemma retained_any:
  "requireRetainedWork t w = (Inr u :: 'f store_error + unit) \<Longrightarrow>
     requireRetainedWork t w = (Inr u :: 'g store_error + unit)"
  "require_retained_run t r = (Inr u :: 'f store_error + unit) \<Longrightarrow>
     require_retained_run t r = (Inr u :: 'g store_error + unit)"
  by (auto simp: requireRetainedWork_def require_retained_run_def split: option.splits if_splits)

lemma read_row_any: "read_row rows i = (Inr p :: 'f store_error + 'p) \<Longrightarrow>
    read_row rows i = (Inr p :: 'g store_error + 'p)"
  by (auto simp: read_row_def split: option.splits)

lemma event_run_any:
  "interaction_run t e = (Inr r :: 'f store_error + string) \<Longrightarrow>
     interaction_run t e = (Inr r :: 'g store_error + string)"
  "attempt_run t e = (Inr r :: 'f store_error + string) \<Longrightarrow>
     attempt_run t e = (Inr r :: 'g store_error + string)"
  by (auto simp: interaction_run_def attempt_run_def dest: read_row_any split: if_splits option.splits)

lemma guard_event_any:
  "guard_event t e = (Inr u :: 'f store_error + unit) \<Longrightarrow> guard_event t e = (Inr u :: 'g store_error + unit)"
  unfolding guard_event_def
  by (erule result_bind_mono, erule event_run_any, erule result_bind_mono)
    (auto dest: retained_any event_run_any split: if_splits)

lemma apply_switch_permissive:
  "apply_switch sqlite t e = (Inr t' :: 'f store_error + tables) \<Longrightarrow>
     apply_switch permissive t e = (Inr t' :: 'g store_error + tables)"
  unfolding apply_switch_def Let_def
  by ((erule if_Inr_mono, erule project_with_mono, erule write_permissive writePoint_permissive) |
      (erule if_Inr_mono, erule project_with_mono, erule result_bind_mono, fastforce dest: retained_any,
        erule write_permissive) | (simp; fail))+

lemma applyProjection_permissive:
  "applyProjection sqlite t e = (Inr t' :: 'f store_error + tables) \<Longrightarrow>
     applyProjection permissive t e = (Inr t' :: 'g store_error + tables)"
  unfolding applyProjection_def
  by (erule result_bind_mono, erule guard_event_any, erule if_Inr_mono, simp, erule apply_switch_permissive)

lemma apply_all_permissive:
  "apply_all sqlite t es = (Inr t' :: 'f store_error + tables) \<Longrightarrow>
     apply_all permissive t es = (Inr t' :: 'g store_error + tables)"
  by (induction es arbitrary: t) (auto dest: applyProjection_permissive)

lemma apply_all_append:
  "apply_all sqlite t (es @ fs) = result_bind (apply_all sqlite t es) (\<lambda>t. apply_all sqlite t fs)"
proof (induction es arbitrary: t)
  case (Cons e es)
  then show ?case by (cases "applyProjection sqlite t e :: 'a store_error + tables") auto
qed simp

section \<open>The shape of the log\<close>

definition stream :: "Event list \<Rightarrow> string \<Rightarrow> Event list" where
  "stream es a = filter (\<lambda>e. AggregateID e = a) es"

definition counted :: "('e \<Rightarrow> uint64) \<Rightarrow> 'e list \<Rightarrow> bool" where
  "counted number es \<longleftrightarrow> (\<forall>i < length es. unat (number (es ! i)) = Suc i)"

lemma counted_Nil [simp]: "counted number []"
  by (simp add: counted_def)

lemma counted_snoc:
  "counted number (es @ [e]) \<longleftrightarrow> counted number es \<and> unat (number e) = Suc (length es)"
  by (auto simp: counted_def nth_append less_Suc_eq)

lemma counted_in: "counted number es \<Longrightarrow> e \<in> set es \<Longrightarrow> 0 < unat (number e) \<and> unat (number e) \<le> length es"
  by (auto simp: counted_def in_set_conv_nth)

lemma stream_snoc: "stream (es @ [e]) a = (if AggregateID e = a then stream es a @ [e] else stream es a)"
  by (simp add: stream_def)

definition log_ok :: "'s store \<Rightarrow> bool" where
  "log_ok st \<longleftrightarrow> counted GlobalPosition (events st) \<and> unat (last_position st) = length (events st) \<and>
     (\<forall>a. counted AggregateRevision (stream (events st) a)) \<and>
     (\<forall>a. case map_of (aggregates st) a of None \<Rightarrow> stream (events st) a = []
        | Some (aggregate, revision) \<Rightarrow> unat revision = length (stream (events st) a) \<and>
            (\<forall>e \<in> set (stream (events st) a). AggregateType e = aggregate)) \<and>
     (\<forall>e \<in> set (events st). SchemaVersion e = 1 \<and> aggregate_identity (AggregateType e) (AggregateID e)) \<and>
     distinct (map EventID (events st)) \<and>
     distinct (map (\<lambda>e. (AggregateID e, CommandID e)) (events st))"

text \<open>What a successful pass of the loop has found and done, for an event that is not in the log.\<close>

lemma validated:
  assumes "validatePendingEvent item = Inr u"
  shows "SchemaVersion item = 1 \<and> aggregate_identity (AggregateType item) (AggregateID item)"
  using assms by (auto simp: validatePendingEvent_def split: if_splits)

lemma commit_event_simps [simp]:
  "SchemaVersion (commit_event item p r) = SchemaVersion item"
  "EventID (commit_event item p r) = EventID item"
  "AggregateType (commit_event item p r) = AggregateType item"
  "AggregateID (commit_event item p r) = AggregateID item"
  "CommandID (commit_event item p r) = CommandID item"
  "Kind (commit_event item p r) = Kind item"
  "GlobalPosition (commit_event item p r) = p"
  "AggregateRevision (commit_event item p r) = ExpectedRevision item + 1"
  by (simp_all add: commit_event_def)

definition current_revision :: "'s store \<Rightarrow> PendingEvent \<Rightarrow> bool" where
  "current_revision st item \<longleftrightarrow> (case map_of (aggregates st) (AggregateID item) of
     None \<Rightarrow> ExpectedRevision item = 0
   | Some (aggregate, revision) \<Rightarrow> aggregate = AggregateType item \<and> revision = ExpectedRevision item)"

definition fresh_event :: "'s store \<Rightarrow> Event \<Rightarrow> bool" where
  "fresh_event st e \<longleftrightarrow> GlobalPosition e \<noteq> 0 \<and> AggregateRevision e \<noteq> 0 \<and>
     (\<forall>f \<in> set (events st). GlobalPosition f \<noteq> GlobalPosition e \<and> EventID f \<noteq> EventID e \<and>
       (AggregateID f = AggregateID e \<longrightarrow> AggregateRevision f \<noteq> AggregateRevision e \<and> CommandID f \<noteq> CommandID e))"

lemma insertEvent_Inr:
  "insertEvent sqlite st e = Inr st' \<Longrightarrow> fresh_event st e \<and> st' = st\<lparr>events := events st @ [e]\<rparr>"
  by (auto simp: insertEvent_def fresh_event_def list_ex_iff split: if_splits)

lemma map_of_set_revision:
  "map_of (map (\<lambda>(i, aggregate, revision). if i = k then (i, aggregate, r) else (i, aggregate, revision)) m) a =
     map_option (\<lambda>(aggregate, revision). (aggregate, if a = k then r else revision)) (map_of m a)"
  by (induction m) (auto split: if_splits)

lemma update_aggregate_Inr:
  assumes "update_aggregate sqlite st e = Inr st'"
  obtains m where "st' = st\<lparr>aggregates := m\<rparr>" and "\<And>a. map_of m a =
    map_option (\<lambda>(aggregate, revision). (aggregate,
      if a = AggregateID e then AggregateRevision e else revision)) (map_of (aggregates st) a)"
  using assms by (auto simp: update_aggregate_def map_of_set_revision split: if_splits)

lemma persist_Inr:
  assumes "persistRunSourceSnapshot sqlite st run snapshot = Inr st'"
  obtains m where "st' = st\<lparr>run_source_snapshots := m\<rparr>"
proof (cases snapshot)
  case None
  with assms have "st' = st\<lparr>run_source_snapshots := run_source_snapshots st\<rparr>"
    by (simp add: persistRunSourceSnapshot_def)
  then show ?thesis by (rule that)
next
  case (Some v)
  with assms that show ?thesis by (auto simp: persistRunSourceSnapshot_def split: if_splits)
qed

lemma create_aggregate_Inr:
  "create_aggregate sqlite st item = Inr st' \<Longrightarrow>
     st' = st\<lparr>aggregates := map_put (AggregateID item) (AggregateType item, 0) (aggregates st)\<rparr>"
  by (auto simp: create_aggregate_def split: if_splits)

lemma append_new_Inr:
  assumes "append_new sqlite src now st item = (Inr (e, st') :: 'f store_error + Event \<times> 's store)"
  obtains "e = commit_event item (last_position st + 1) now" "current_revision st item" "fresh_event st e"
    "events st' = events st @ [e]" "last_position st' = last_position st + 1"
    "applyProjection sqlite (store_tables st) e = (Inr (store_tables st') :: 'f store_error + tables)"
    "map_of (aggregates st') = (map_of (aggregates st))
       (AggregateID item \<mapsto> (AggregateType item, ExpectedRevision item + 1))"
    "checkpoint st' = checkpoint st" "context_manifests st' = context_manifests st"
proof -
  let ?e = "commit_event item (last_position st + 1) now"
  obtain snapshot revision known st1 st2 st3 t st4 where
    known: "readAggregateRevision st (AggregateID item) (AggregateType item) =
        (Inr (revision, known) :: 'f store_error + _)" "revision = ExpectedRevision item"
    and st1: "(if known then Inr st else create_aggregate sqlite st item) = (Inr st1 :: 'f store_error + _)"
    and st2: "insertEvent sqlite st1 (commit_event item (last_position st1 + 1) now) = (Inr st2 :: 'f store_error + _)"
    and st3: "update_aggregate sqlite st2 (commit_event item (last_position st1 + 1) now) = (Inr st3 :: 'f store_error + _)"
    and t: "applyProjection sqlite (store_tables st3) (commit_event item (last_position st1 + 1) now) =
        (Inr t :: 'f store_error + _)"
    and st4: "persistRunSourceSnapshot sqlite (st3\<lparr>store_tables := t\<rparr>) (AggregateID item) snapshot =
        (Inr st4 :: 'f store_error + _)"
    and res: "e = commit_event item (last_position st1 + 1) now" "st' = st4\<lparr>last_position := last_position st4 + 1\<rparr>"
    using assms by (auto simp: append_new_def Let_def split: if_splits)
  have one: "last_position st1 = last_position st" "events st1 = events st" "store_tables st1 = store_tables st"
      "checkpoint st1 = checkpoint st" "context_manifests st1 = context_manifests st"
      "map_of (aggregates st1) (AggregateID item) = Some (AggregateType item, ExpectedRevision item)"
      "\<And>a. a \<noteq> AggregateID item \<Longrightarrow> map_of (aggregates st1) a = map_of (aggregates st) a"
      and current: "current_revision st item"
    using known st1
    by (auto simp: readAggregateRevision_def current_revision_def dest!: create_aggregate_Inr
        split: option.splits if_splits)
  have two: "fresh_event st1 e" "st2 = st1\<lparr>events := events st @ [e]\<rparr>"
    using insertEvent_Inr [OF st2] one res by auto
  obtain m where three: "st3 = st2\<lparr>aggregates := m\<rparr>" and m: "\<And>a. map_of m a =
      map_option (\<lambda>(aggregate, revision). (aggregate,
        if a = AggregateID item then ExpectedRevision item + 1 else revision)) (map_of (aggregates st2) a)"
    using update_aggregate_Inr [OF st3] by (metis commit_event_simps(4,8))
  obtain n where four: "st4 = st3\<lparr>store_tables := t, run_source_snapshots := n\<rparr>"
    using persist_Inr [OF st4] by auto
  have aggregates: "map_of (aggregates st') = (map_of (aggregates st))
       (AggregateID item \<mapsto> (AggregateType item, ExpectedRevision item + 1))"
    using one(6,7) by (auto simp: res four three two m fun_eq_iff split: option.splits)
      (simp add: option.map_id)
  show thesis
    by (rule that [OF _ current _ _ _ _ aggregates])
      (use one two three four t res in \<open>auto simp: fresh_event_def\<close>)
qed

lemma log_ok_appended:
  assumes "log_ok st" and "current_revision st item" and "fresh_event st e"
    and "e = commit_event item (last_position st + 1) now"
    and "SchemaVersion item = 1" and "aggregate_identity (AggregateType item) (AggregateID item)"
    and "events st' = events st @ [e]" and "last_position st' = last_position st + 1"
    and "map_of (aggregates st') = (map_of (aggregates st))
       (AggregateID item \<mapsto> (AggregateType item, ExpectedRevision item + 1))"
  shows "log_ok st'"
proof -
  let ?a = "AggregateID item"
  have old: "counted GlobalPosition (events st)" "unat (last_position st) = length (events st)"
      "\<And>a. counted AggregateRevision (stream (events st) a)"
      "\<And>a. case map_of (aggregates st) a of None \<Rightarrow> stream (events st) a = []
        | Some (aggregate, revision) \<Rightarrow> unat revision = length (stream (events st) a) \<and>
            (\<forall>e \<in> set (stream (events st) a). AggregateType e = aggregate)"
      "distinct (map EventID (events st))" "distinct (map (\<lambda>e. (AggregateID e, CommandID e)) (events st))"
    using assms(1) by (auto simp: log_ok_def)
  have nonzero: "last_position st + 1 \<noteq> 0" "ExpectedRevision item + 1 \<noteq> 0"
    using assms(3,4) by (auto simp: fresh_event_def)
  have position: "unat (last_position st + 1) = Suc (length (events st))"
    using nonzero(1) old(2) unatSuc [of "last_position st"] by (simp add: add.commute)
  have expected: "unat (ExpectedRevision item) = length (stream (events st) ?a)"
    using old(4) [of ?a] assms(2) by (auto simp: current_revision_def split: option.splits)
  then have revision: "unat (ExpectedRevision item + 1) = Suc (length (stream (events st) ?a))"
    using nonzero(2) unatSuc [of "ExpectedRevision item"] by (simp add: add.commute)
  have types: "\<forall>f \<in> set (stream (events st) ?a). AggregateType f = AggregateType item"
    using old(4) [of ?a] assms(2) by (auto simp: current_revision_def split: option.splits)
  have aggregates: "case map_of (aggregates st') a of None \<Rightarrow> stream (events st') a = []
      | Some (aggregate, revision) \<Rightarrow> unat revision = length (stream (events st') a) \<and>
          (\<forall>e \<in> set (stream (events st') a). AggregateType e = aggregate)" for a
    unfolding assms(7,9) stream_snoc using old(4) [of a] types revision by (auto simp: assms(4))
  show ?thesis
    unfolding log_ok_def
    using old(1,3,5,6) position revision aggregates assms
    by (intro conjI) (auto simp: counted_snoc stream_snoc log_ok_def fresh_event_def)
qed

text \<open>Scanning an event of the log recovers its aggregate type from the identity.\<close>

lemma aggregate_identity_prefix:
  assumes "aggregate_identity ty i"
  shows "takeWhile (\<lambda>c. c \<noteq> CHR ''_'') i = ty" and "ty \<noteq> []" and "ty \<noteq> i"
proof -
  have ty: "CHR ''_'' \<notin> set ty" "ty \<noteq> []"
    using assms by (auto simp: aggregate_identity_def aggregateTypes_def)
  have "take (length ty + 1) i = ty @ ''_''"
    using assms by (simp add: aggregate_identity_def has_prefix_def aggregate_prefix_def)
  then obtain rest where i: "i = ty @ ''_'' @ rest"
    by (metis append.assoc append_take_drop_id)
  show "takeWhile (\<lambda>c. c \<noteq> CHR ''_'') i = ty"
    using ty(1) by (simp add: i takeWhile_append2 takeWhile_append)
  show "ty \<noteq> []" "ty \<noteq> i" using ty i by auto
qed

lemma scanEvents_log:
  "\<forall>e \<in> set es. aggregate_identity (AggregateType e) (AggregateID e) \<Longrightarrow> scanEvents es = Inr es"
proof (induction es)
  case (Cons e es)
  then show ?case
    using aggregate_identity_prefix [of "AggregateType e" "AggregateID e"]
    by (simp add: scan_event_def Let_def)
qed simp

lemma log_sorted: "counted GlobalPosition es \<Longrightarrow> sort_key GlobalPosition es = es"
  by (intro sort_key_id_if_sorted)
    (auto simp: sorted_iff_nth_mono counted_def word_le_nat_alt)

definition projected :: "Event list \<Rightarrow> tables \<Rightarrow> bool" where
  "projected es t \<longleftrightarrow> apply_all permissive empty_tables es = (Inr t :: unit store_error + tables)"

definition store_ok :: "'s store \<Rightarrow> bool" where
  "store_ok st \<longleftrightarrow> log_ok st \<and> projected (events st) (store_tables st)"

lemma projected_snoc:
  "projected es t \<Longrightarrow> applyProjection sqlite t e = (Inr t' :: 'f store_error + tables) \<Longrightarrow>
     projected (es @ [e]) t'"
  by (auto simp: projected_def apply_all_append dest: applyProjection_permissive)

lemma projected_unique: "projected es t \<Longrightarrow> apply_all sqlite empty_tables es = (Inr t' :: 'f store_error + tables) \<Longrightarrow> t' = t"
  using apply_all_permissive [of sqlite empty_tables es t', where 'g = unit]
  by (auto simp: projected_def)

lemma append_new_ok:
  assumes "append_new sqlite src now st item = Inr (e, st')"
    and "store_ok st" and "validatePendingEvent item = (Inr u :: 'g store_error + unit)"
  shows "store_ok st'"
  using assms(1)
proof (rule append_new_Inr)
  assume step: "e = commit_event item (last_position st + 1) now" "current_revision st item" "fresh_event st e"
    "events st' = events st @ [e]" "last_position st' = last_position st + 1"
    "applyProjection sqlite (store_tables st) e = (Inr (store_tables st') :: 'a store_error + tables)"
    "map_of (aggregates st') = (map_of (aggregates st))
       (AggregateID item \<mapsto> (AggregateType item, ExpectedRevision item + 1))"
  have "log_ok st'"
    using validated [OF assms(3)] assms(2) step
    by (intro log_ok_appended [OF _ step(2,3,1) _ _ step(4,5,7)]) (auto simp: store_ok_def)
  moreover have "projected (events st') (store_tables st')"
    using assms(2) step(4,6) by (auto simp: store_ok_def intro: projected_snoc)
  ultimately show ?thesis by (simp add: store_ok_def)
qed

section \<open>Reachable stores\<close>

lemma log_ok_checkpoint [simp]: "log_ok (st\<lparr>checkpoint := c\<rparr>) = log_ok st"
  by (simp add: log_ok_def cong: option.case_cong prod.case_cong)

lemma store_ok_checkpoint [simp]: "store_ok (st\<lparr>checkpoint := c\<rparr>) = store_ok st"
  by (simp add: store_ok_def)

lemma filter_key_unique: "distinct (map g es) \<Longrightarrow> e \<in> set es \<Longrightarrow> filter (\<lambda>f. g f = g e) es = [e]"
proof (induction es)
  case (Cons f es)
  show ?case
  proof (cases "f = e")
    case True
    with Cons.prems(1) have "filter (\<lambda>f. g f = g e) es = []"
      by (simp add: filter_empty_conv) (metis image_eqI)
    with True show ?thesis by simp
  next
    case False
    with Cons show ?thesis by (auto simp: image_iff)
  qed
qed simp

lemma log_unique_command:
  assumes "log_ok st" and "e \<in> set (events st)"
  shows "filter (\<lambda>f. AggregateID f = AggregateID e \<and> CommandID f = CommandID e) (events st) = [e]"
  using filter_key_unique [of "\<lambda>f. (AggregateID f, CommandID f)" "events st" e] assms
  by (simp add: log_ok_def)

lemma log_identity: "log_ok st \<Longrightarrow> e \<in> set (events st) \<Longrightarrow> aggregate_identity (AggregateType e) (AggregateID e)"
  by (simp add: log_ok_def)

lemma readEventByCommand_log:
  assumes "log_ok st"
  shows "readEventByCommand st a c =
    (Inr (find (\<lambda>e. AggregateID e = a \<and> CommandID e = c) (events st)) :: 'f store_error + Event option)"
proof -
  have "scanEvents (filter (\<lambda>e. AggregateID e = a \<and> CommandID e = c) (events st)) =
      (Inr (filter (\<lambda>e. AggregateID e = a \<and> CommandID e = c) (events st)) :: 'f store_error + Event list)"
    using log_identity [OF assms] by (intro scanEvents_log) auto
  moreover have "(case filter P es of [] \<Rightarrow> None | e # _ \<Rightarrow> Some e) = find P es" for P and es :: "Event list"
    by (induction es) auto
  ultimately show ?thesis by (simp add: readEventByCommand_def)
qed

lemma readEventByCommand_committed:
  assumes "log_ok st" and "e \<in> set (events st)" and "AggregateID e = a" and "CommandID e = c"
  shows "readEventByCommand st a c = Inr (Some e)"
proof -
  have "find P es = Some e" if "filter P es = [e]" for P and es :: "Event list"
    using that by (induction es) (auto split: if_splits)
  with log_unique_command [OF assms(1,2)] show ?thesis
    by (simp add: readEventByCommand_log assms)
qed

lemma commit_same: "sameTransitionCommand (commit_event item p now) item"
  by (simp add: sameTransitionCommand_def commit_event_def)

lemma sameTransitionCommandD:
  "sameTransitionCommand e item \<Longrightarrow> AggregateID e = AggregateID item \<and> CommandID e = CommandID item \<and>
     AggregateRevision e = ExpectedRevision item + 1"
  by (simp add: sameTransitionCommand_def)

lemma append_item_ok:
  assumes "append_item sqlite src now st item = Inr (e, st')"
    and "store_ok st" and "validatePendingEvent item = (Inr u :: 'g store_error + unit)"
  shows "store_ok st' \<and> (\<exists>new. events st' = events st @ new) \<and> e \<in> set (events st') \<and>
    sameTransitionCommand e item"
proof (cases "find (\<lambda>e. AggregateID e = AggregateID item \<and> CommandID e = CommandID item) (events st)")
  case None
  then have new: "append_new sqlite src now st item = Inr (e, st')"
    using assms(1,2) by (simp add: append_item_def readEventByCommand_log store_ok_def)
  from new show ?thesis
    by (rule append_new_Inr) (use append_new_ok [OF new assms(2,3)] in \<open>simp add: commit_same\<close>)
next
  case (Some f)
  then show ?thesis
    using assms(1,2) by (auto simp: append_item_def readEventByCommand_log store_ok_def
        dest!: map_filter_find split: if_splits)
qed

lemma append_items_ok:
  assumes "append_items sqlite src now st items = Inr (es, st')" and "store_ok st"
    and "validate_all items = (Inr u :: 'g store_error + unit)"
  shows "store_ok st' \<and> (\<exists>new. events st' = events st @ new) \<and>
    list_all2 (\<lambda>e item. e \<in> set (events st') \<and> sameTransitionCommand e item) es items"
  using assms
proof (induction items arbitrary: st es)
  case (Cons item items)
  then obtain e st1 fs where e: "append_item sqlite src now st item = Inr (e, st1)"
    and fs: "append_items sqlite src now st1 items = Inr (fs, st')" and es: "es = e # fs"
    by auto
  obtain v where v: "validatePendingEvent item = (Inr v :: 'g store_error + unit)"
      and rest: "validate_all items = (Inr u :: 'g store_error + unit)"
    using Cons.prems(3) by auto
  have one: "store_ok st1 \<and> (\<exists>new. events st1 = events st @ new) \<and> e \<in> set (events st1) \<and>
      sameTransitionCommand e item"
    by (rule append_item_ok [OF e Cons.prems(2) v])
  with Cons.IH [OF fs _ rest] show ?case by (auto simp: es)
qed simp

lemma Append_ok:
  assumes "Append sqlite src now st pending = Inr (es, st')" and "store_ok st"
  shows "store_ok st' \<and> (\<exists>new. events st' = events st @ new) \<and>
    list_all2 (\<lambda>e item. e \<in> set (events st') \<and> sameTransitionCommand e item) es pending \<and>
    checkpoint st' = Some (last_position st', now)"
proof -
  obtain u st1 where items: "append_items sqlite src now st pending = Inr (es, st1)"
      and valid: "validate_all pending = (Inr u :: 'a store_error + unit)"
      and st': "st' = st1\<lparr>checkpoint := Some (last_position st1, now)\<rparr>"
    using assms(1)
    by (auto simp: Append_def appendInTransaction_def writeProjectionCheckpoint_def split: if_splits)
  from append_items_ok [OF items assms(2) valid] show ?thesis
    by (simp add: st')
qed

lemma RebuildProjections_ok:
  assumes "RebuildProjections sqlite now st = Inr st'" and "store_ok st"
  shows "st' = st\<lparr>checkpoint := Some (last_position st, now)\<rparr>"
proof -
  let ?es = "events st"
  have log: "sort_key GlobalPosition ?es = ?es" "scanEvents ?es = (Inr ?es :: 'a store_error + Event list)"
    using assms(2) by (auto simp: store_ok_def log_ok_def log_sorted intro: scanEvents_log)
  obtain t where t: "apply_all sqlite empty_tables ?es = (Inr t :: 'a store_error + tables)"
    and st': "st' = st\<lparr>store_tables := t,
      checkpoint := Some (if ?es = [] then 0 else GlobalPosition (last ?es), now)\<rparr>"
    using assms(1) log
    by (auto simp: RebuildProjections_def clear_projections_def writeProjectionCheckpoint_def split: if_splits)
  have "t = store_tables st"
    using projected_unique [OF _ t] assms(2) by (simp add: store_ok_def)
  moreover have "(if ?es = [] then 0 else GlobalPosition (last ?es)) = last_position st"
    using assms(2)
    by (auto simp: store_ok_def log_ok_def counted_def last_conv_nth word_unat_eq_iff)
  ultimately show ?thesis by (simp add: st')
qed

text \<open>A store is reachable from the empty one by appends, rebuilds, and context manifests frozen for
  existing attempts, whatever the engine, the tracker tables and the clock do at each step. The
  failures of the tracker tables are their messages here.\<close>

inductive reachable_store :: "'s store \<Rightarrow> bool" where
  initial: "reachable_store empty_store"
| appended: "reachable_store st \<Longrightarrow>
    Append sqlite src now st pending = (Inr (es, st') :: string store_error + _) \<Longrightarrow> reachable_store st'"
| rebuilt: "reachable_store st \<Longrightarrow>
    RebuildProjections sqlite now st = (Inr st' :: string store_error + _) \<Longrightarrow> reachable_store st'"
| frozen: "reachable_store st \<Longrightarrow> has_key (attempt_projection (store_tables st)) a \<Longrightarrow>
    reachable_store (st\<lparr>context_manifests := insert a (context_manifests st)\<rparr>)"

lemma store_ok_manifests [simp]: "store_ok (st\<lparr>context_manifests := c\<rparr>) = store_ok st"
  by (simp add: store_ok_def log_ok_def cong: option.case_cong prod.case_cong)

lemma store_ok_empty: "store_ok empty_store"
  by (simp add: store_ok_def log_ok_def empty_store_def stream_def projected_def)

lemma reachable_store_ok: "reachable_store st \<Longrightarrow> store_ok st"
proof (induction rule: reachable_store.induct)
  case (appended st sqlite src now pending es st')
  then show ?case using Append_ok by blast
next
  case (rebuilt st sqlite now st')
  then show ?case using RebuildProjections_ok store_ok_checkpoint by metis
qed (simp_all add: store_ok_empty)

lemma stream_shared_revision:
  assumes "log_ok st" "e \<in> set (events st)" "f \<in> set (events st)"
    and "AggregateID e = AggregateID f" and "AggregateRevision e = AggregateRevision f"
  shows "e = f"
proof -
  let ?s = "stream (events st) (AggregateID f)"
  have "e \<in> set ?s" "f \<in> set ?s" "counted AggregateRevision ?s"
    using assms by (auto simp: stream_def log_ok_def)
  then show ?thesis
    using assms(5) by (auto simp: counted_def in_set_conv_nth) (metis nat.inject)
qed

lemma committed_revision:
  assumes "log_ok st" and "e \<in> set (events st)"
  shows "unat (AggregateRevision e) \<le> length (stream (events st) (AggregateID e))"
    and "AggregateRevision e \<noteq> 0"
proof -
  have "e \<in> set (stream (events st) (AggregateID e))" "counted AggregateRevision (stream (events st) (AggregateID e))"
    using assms by (auto simp: stream_def log_ok_def)
  from counted_in [OF this(2,1)] show "unat (AggregateRevision e) \<le> length (stream (events st) (AggregateID e))"
    and "AggregateRevision e \<noteq> 0" by auto
qed

lemma append_item_stale:
  assumes "store_ok st" and "p \<in> set (events st)" and "AggregateID p = AggregateID item"
    and "AggregateRevision p = ExpectedRevision item + 1" and "CommandID p \<noteq> CommandID item"
  shows "append_item sqlite src now st item \<noteq> Inr (e, st')"
proof
  assume step: "append_item sqlite src now st item = Inr (e, st')"
  have log: "log_ok st" using assms(1) by (simp add: store_ok_def)
  show False
  proof (cases "find (\<lambda>e. AggregateID e = AggregateID item \<and> CommandID e = CommandID item) (events st)")
    case None
    then have "append_new sqlite src now st item = Inr (e, st')"
      using step by (simp add: append_item_def readEventByCommand_log log)
    then show False
      by (rule append_new_Inr) (use assms in \<open>auto simp: fresh_event_def\<close>)
  next
    case (Some f)
    then have f: "f \<in> set (events st)" "CommandID f = CommandID item" "sameTransitionCommand f item"
      using step by (auto simp: append_item_def readEventByCommand_log log dest!: map_filter_find split: if_splits)
    with stream_shared_revision [OF log assms(2) f(1)] assms(3-5) show False
      by (auto dest: sameTransitionCommandD)
  qed
qed

lemma Append_single:
  "Append sqlite src now st [item] = Inr (es, st') \<Longrightarrow>
     \<exists>e st1. append_item sqlite src now st item = Inr (e, st1)"
  by (auto simp: Append_def appendInTransaction_def split: if_splits)

text \<open>Retrying committed items finds every one of them.\<close>

lemma append_items_committed:
  assumes "log_ok st" and "list_all2 (\<lambda>e item. e \<in> set (events st) \<and> sameTransitionCommand e item) es items"
  shows "append_items sqlite src now st items = (Inr (es, st) :: 'f store_error + _)"
  using assms(2)
proof (induction rule: list_all2_induct)
  case (Cons e es item items)
  have "readEventByCommand st (AggregateID item) (CommandID item) = (Inr (Some e) :: 'f store_error + _)"
    using Cons(1) sameTransitionCommandD [of e item]
    by (intro readEventByCommand_committed [OF assms(1)]) auto
  with Cons show ?case by (simp add: append_item_def)
qed simp

lemma validate_all_any:
  "validate_all items = (Inr u :: 'f store_error + unit) \<Longrightarrow> validate_all items = (Inr u :: 'g store_error + unit)"
proof (induction items)
  case (Cons item items)
  have "validatePendingEvent item = (Inr v :: 'f store_error + unit) \<Longrightarrow>
      validatePendingEvent item = (Inr v :: 'g store_error + unit)" for v
    unfolding validatePendingEvent_def by (auto split: if_splits)
  with Cons show ?case by auto
qed simp

section \<open>Reading the log in pages\<close>

lemma events_paged:
  assumes "reachable_store st" and "n \<le> length (events st)" and "1 \<le> limit" and "limit \<le> 1000"
  shows "EventsAfter st (of_nat n) limit = Inr (take (nat limit) (drop n (events st)))"
proof -
  let ?es = "events st"
  have ok: "counted GlobalPosition ?es" "unat (last_position st) = length ?es"
      "\<forall>e \<in> set ?es. aggregate_identity (AggregateType e) (AggregateID e)"
    using reachable_store_ok [OF assms(1)] by (auto simp: store_ok_def log_ok_def)
  have n: "unat (of_nat n :: uint64) = n"
  proof -
    have "unat (last_position st) < 2 ^ 64" using unsigned_less [of "last_position st"] by simp
    with assms(2) ok(2) show ?thesis by (simp add: unat_of_nat take_bit_nat_eq_self)
  qed
  have "filter (\<lambda>e. GlobalPosition e > of_nat n) ?es = drop n ?es"
  proof -
    have "filter (\<lambda>e. GlobalPosition e > of_nat n) (take n ?es) = []"
      using ok(1) n by (auto simp: filter_empty_conv in_set_conv_nth counted_def word_less_nat_alt)
    moreover have "filter (\<lambda>e. GlobalPosition e > of_nat n) (drop n ?es) = drop n ?es"
      using ok(1) n by (auto simp: filter_id_conv in_set_conv_nth counted_def word_less_nat_alt)
    ultimately show ?thesis
      using filter_append [of "\<lambda>e. GlobalPosition e > of_nat n" "take n ?es" "drop n ?es"] by simp
  qed
  moreover have "sort_key GlobalPosition (drop n ?es) = drop n ?es"
    using ok(1) by (intro sort_key_id_if_sorted)
      (auto simp: sorted_iff_nth_mono counted_def word_le_nat_alt)
  moreover have "scanEvents (take (nat limit) (drop n ?es)) = Inr (take (nat limit) (drop n ?es))"
    using ok(3) by (intro scanEvents_log) (meson in_set_dropD in_set_takeD)
  ultimately show ?thesis using assms(3,4) by (simp add: EventsAfter_def page_def)
qed

section \<open>An example\<close>

definition no_source :: "(string, unit) source_tables" where
  "no_source = \<lparr>source_work_bindings = False, workLineage = \<lambda>_. Inr None,
     source_ticket_admissions = \<lambda>_ _. 0, unsettled_operations = \<lambda>_ _. 0,
     approvedRunSource = \<lambda>_ _. Inl ''none'', captured = \<lambda>_ s. s\<rparr>"

definition example_pending :: "string \<Rightarrow> string \<Rightarrow> string \<Rightarrow> raw_message \<Rightarrow> uint64 \<Rightarrow> PendingEvent" where
  "example_pending i command kind data revision = \<lparr>SchemaVersion = 1,
     EventID = ''event_0000000000000000000000000'' @ i, AggregateType = AggregateProject,
     AggregateID = ''project_00000000000000000000000001'', Kind = kind, OccurredAt = 7,
     CorrelationID = ''correlation'', CausationID = None, CommandID = command,
     event_actor = \<lparr>ActorType = ActorUser, ActorID = ''operator''\<rparr>, Data = data, Metadata = ''{}'',
     ExpectedRevision = revision\<rparr>"

definition example_created :: PendingEvent where
  \<open>example_created = example_pending ''A'' ''create'' ''project.created''
    ''{"Name":"n","SourceHash":"0000000000000000000000000000000000000000000000000000000000000000"}'' 0\<close>

definition example_archived :: "string \<Rightarrow> string \<Rightarrow> PendingEvent" where
  "example_archived i command = example_pending i command ''project.archived'' ''{}'' 1"

text \<open>A project is created and archived; the store after the two appends.\<close>

definition example_append :: "string store_error + Event list \<times> unit store" where
  "example_append = Append permissive no_source 8 empty_store [example_created, example_archived ''B'' ''archive'']"

lemma Inr_pairD: "(case x of Inl _ \<Rightarrow> False | Inr (a, b) \<Rightarrow> P a b) \<Longrightarrow> \<exists>a b. x = Inr (a, b) \<and> P a b"
  by (cases x) auto

lemma example_append: "case example_append of Inr (es, st) \<Rightarrow> length es = 2 | Inl _ \<Rightarrow> False"
  by code_simp

lemma example_appended:
  obtains es st where "Append permissive no_source 8 empty_store
      [example_created, example_archived ''B'' ''archive''] = (Inr (es, st) :: string store_error + _)"
    and "reachable_store st"
proof -
  obtain es st where "Append permissive no_source 8 empty_store
      [example_created, example_archived ''B'' ''archive''] = (Inr (es, st) :: string store_error + _)"
    using example_append by (auto simp: example_append_def split: sum.splits)
  then show thesis using that reachable_store.appended [OF reachable_store.initial] by blast
qed

section \<open>Properties\<close>

text \<open>C21: in every reachable store the log is complete and consecutive: the event at index \<open>i\<close> has
  global position \<open>i + 1\<close> without wrap-around, the events of an aggregate have the revisions 1, 2, 3
  and so on, its row holds the last of them and their common type, and neither an event identity nor
  a command of an aggregate occurs twice.\<close>

theorem log_consecutive:
  assumes "reachable_store st"
  shows "(\<forall>i < length (events st). unat (GlobalPosition (events st ! i)) = Suc i) \<and>
    unat (last_position st) = length (events st) \<and>
    (\<forall>a. let s = filter (\<lambda>e. AggregateID e = a) (events st) in
       (\<forall>i < length s. unat (AggregateRevision (s ! i)) = Suc i) \<and>
       (case map_of (aggregates st) a of None \<Rightarrow> s = []
        | Some (aggregate, revision) \<Rightarrow> unat revision = length s \<and> (\<forall>e \<in> set s. AggregateType e = aggregate))) \<and>
    distinct (map EventID (events st)) \<and>
    distinct (map (\<lambda>e. (AggregateID e, CommandID e)) (events st))"
  using reachable_store_ok [OF assms]
  unfolding store_ok_def log_ok_def counted_def stream_def Let_def by blast

theorem log_consecutive_witness:
  "\<exists>es st. Append (\<lambda>_ _. True) no_source 8 empty_store
      [example_created, example_archived ''B'' ''archive''] = (Inr (es, st) :: string store_error + _) \<and>
    unat (last_position st) = length (events st)"
proof (rule example_appended)
  fix es st
  assume "Append permissive no_source 8 empty_store
      [example_created, example_archived ''B'' ''archive''] = (Inr (es, st) :: string store_error + _)"
    and "reachable_store st"
  with log_consecutive [of st] show ?thesis by blast
qed

text \<open>C22: retrying is safe: once an append has committed, the same pending events appended again to
  any later store return the events of the first commit, and change nothing but the checkpoint,
  whatever happened in between.\<close>

theorem append_replayed:
  assumes "reachable_store st" and "Append sqlite src now st pending = (Inr (es, st') :: 'f store_error + _)"
    and "reachable_store st''" and "events st'' = events st' @ later"
    and "sqlite' (store_tables st'') (WritePosition (last_position st''))"
    and "sqlite' (store_tables st'') (WriteCheckpoint (last_position st''))"
  shows "Append sqlite' src' now' st'' pending =
    (Inr (es, st''\<lparr>checkpoint := Some (last_position st'', now')\<rparr>) :: 'g store_error + _)"
proof -
  have "pending \<noteq> []" and "validate_all pending = (Inr () :: 'f store_error + unit)"
    using assms(2) by (auto simp: Append_def split: if_splits)
  then have valid: "pending \<noteq> []" "validate_all pending = (Inr () :: 'g store_error + unit)"
    using validate_all_any by blast+
  have "list_all2 (\<lambda>e item. e \<in> set (events st') \<and> sameTransitionCommand e item) es pending"
    using Append_ok [OF assms(2) reachable_store_ok [OF assms(1)]] by simp
  then have "list_all2 (\<lambda>e item. e \<in> set (events st'') \<and> sameTransitionCommand e item) es pending"
    by (rule list_all2_mono) (simp add: assms(4))
  then have "append_items sqlite' src' now' st'' pending = (Inr (es, st'') :: 'g store_error + _)"
    using reachable_store_ok [OF assms(3)] by (intro append_items_committed) (simp_all add: store_ok_def)
  with valid show ?thesis
    by (simp add: Append_def appendInTransaction_def writeProjectionCheckpoint_def assms(5,6))
qed

theorem append_replayed_witness:
  "\<exists>es st. Append (\<lambda>_ _. True) no_source 8 empty_store
      [example_created, example_archived ''B'' ''archive''] = (Inr (es, st) :: string store_error + _) \<and>
    Append (\<lambda>_ _. True) no_source 9 st [example_created, example_archived ''B'' ''archive''] =
      (Inr (es, st\<lparr>checkpoint := Some (last_position st, 9)\<rparr>) :: string store_error + _)"
proof (rule example_appended)
  fix es st
  assume "Append permissive no_source 8 empty_store
      [example_created, example_archived ''B'' ''archive''] = (Inr (es, st) :: string store_error + _)"
    and "reachable_store st"
  with append_replayed [OF reachable_store.initial, of permissive no_source 8 _ es st st "[]" permissive no_source 9]
  show ?thesis by auto
qed

text \<open>C23: optimistic concurrency: when a command on an aggregate has committed, every other command
  prepared against the same expected revision of that aggregate is refused, in every later store.\<close>

theorem concurrent_writer_refused:
  assumes "reachable_store st" and "Append sqlite src now st [p] = Inr (es, st')"
    and "reachable_store st''" and "events st'' = events st' @ later"
    and "AggregateID q = AggregateID p" and "ExpectedRevision q = ExpectedRevision p"
    and "CommandID q \<noteq> CommandID p"
  shows "\<exists>err. Append sqlite' src' now' st'' [q] = Inl err"
proof -
  obtain e where e: "e \<in> set (events st'')" "sameTransitionCommand e p"
    using Append_ok [OF assms(2) reachable_store_ok [OF assms(1)]] assms(4)
    by (auto simp: list_all2_Cons2)
  have "append_item sqlite' src' now' st'' q \<noteq> Inr (f, st1)" for f st1
    using sameTransitionCommandD [OF e(2)] assms(5-7) reachable_store_ok [OF assms(3)]
    by (intro append_item_stale [OF _ e(1)]) auto
  then show ?thesis
    using Append_single [of sqlite' src' now' st'' q]
    by (cases "Append sqlite' src' now' st'' [q]") (force, fastforce)
qed

lemma example_single:
  obtains es st fs st' where
    "Append permissive no_source 8 empty_store [example_created] = (Inr (es, st) :: string store_error + _)"
    and "reachable_store st"
    and "Append permissive no_source 8 st [example_archived ''B'' ''archive''] = (Inr (fs, st') :: string store_error + _)"
    and "reachable_store st'"
proof -
  have "case (Append permissive no_source 8 empty_store [example_created] :: string store_error + _) of
      Inr (es, st) \<Rightarrow> (case (Append permissive no_source 8 st [example_archived ''B'' ''archive''] :: string store_error + _) of
        Inr (fs, st') \<Rightarrow> length fs = 1 | Inl _ \<Rightarrow> False) | Inl _ \<Rightarrow> False"
    by code_simp
  then obtain es st fs st' where steps:
    "Append permissive no_source 8 empty_store [example_created] = (Inr (es, st) :: string store_error + _)"
    "Append permissive no_source 8 st [example_archived ''B'' ''archive''] = (Inr (fs, st') :: string store_error + _)"
    by (auto dest!: Inr_pairD)
  from reachable_store.appended [OF reachable_store.initial steps(1)] have "reachable_store st" .
  with steps reachable_store.appended [OF _ steps(2)] show thesis using that by blast
qed

theorem concurrent_writer_refused_witness:
  "\<exists>es st fs st' err. Append (\<lambda>_ _. True) no_source 8 empty_store [example_created] =
      (Inr (es, st) :: string store_error + _) \<and>
    Append (\<lambda>_ _. True) no_source 8 st [example_archived ''B'' ''archive''] = (Inr (fs, st') :: string store_error + _) \<and>
    Append (\<lambda>_ _. True) no_source 8 st' [example_archived ''C'' ''archive again''] = (Inl err :: string store_error + _)"
proof (rule example_single)
  fix es st fs st'
  assume "Append permissive no_source 8 empty_store [example_created] = (Inr (es, st) :: string store_error + _)"
    and "reachable_store st"
    and "Append permissive no_source 8 st [example_archived ''B'' ''archive''] = (Inr (fs, st') :: string store_error + _)"
    and "reachable_store st'"
  with concurrent_writer_refused [of st permissive no_source 8 "example_archived ''B'' ''archive''" fs st' st' "[]"
      "example_archived ''C'' ''archive again''" permissive no_source 8]
  show ?thesis by (auto simp: example_archived_def example_pending_def)
qed

text \<open>C24: the projections are a function of the log: a rebuild that succeeds leaves every table exactly
  as it was, and only moves the checkpoint; it does succeed when no statement fails, unless a frozen
  context manifest refers to an attempt, in which case the foreign key refuses it.\<close>

theorem rebuild_reproduces:
  assumes "reachable_store st"
  shows "(\<forall>st'. RebuildProjections sqlite now st = Inr st' \<longrightarrow>
      st' = st\<lparr>checkpoint := Some (last_position st, now)\<rparr>) \<and>
    RebuildProjections (\<lambda>_ _. True) now st =
      (if \<exists>a \<in> context_manifests st. has_key (attempt_projection (store_tables st)) a then Inl ClearFailed
       else (Inr (st\<lparr>checkpoint := Some (last_position st, now)\<rparr>) :: 'f store_error + _))"
proof -
  let ?es = "events st"
  have ok: "store_ok st" by (rule reachable_store_ok [OF assms])
  then have log: "sort_key GlobalPosition ?es = ?es" "scanEvents ?es = (Inr ?es :: 'f store_error + _)"
    by (auto simp: store_ok_def log_ok_def log_sorted intro: scanEvents_log)
  have replayed: "apply_all permissive empty_tables ?es = (Inr (store_tables st) :: 'f store_error + _)"
    using ok by (auto simp: store_ok_def projected_def intro: apply_all_permissive)
  have manifest: "(\<exists>i \<in> fst ` set (attempt_projection (store_tables st)). i \<in> context_manifests st) \<longleftrightarrow>
      (\<exists>a \<in> context_manifests st. has_key (attempt_projection (store_tables st)) a)"
    by (auto simp: has_key_fst)
  have succeeds: "\<exists>st'. RebuildProjections permissive now st = (Inr st' :: 'f store_error + _)"
    if "\<not> (\<exists>a \<in> context_manifests st. has_key (attempt_projection (store_tables st)) a)"
    using that log replayed manifest
    by (simp add: RebuildProjections_def clear_projections_def writeProjectionCheckpoint_def)
  have refused: "RebuildProjections permissive now st = (Inl ClearFailed :: 'f store_error + _)"
    if "\<exists>a \<in> context_manifests st. has_key (attempt_projection (store_tables st)) a"
    using that log manifest by (simp add: RebuildProjections_def clear_projections_def)
  show ?thesis
    using RebuildProjections_ok [OF _ ok] RebuildProjections_ok [of permissive now st, where 'a = 'f]
      ok succeeds refused
    by (intro conjI) (blast, auto)
qed
theorem rebuild_reproduces_witness:
  "\<exists>es st. Append (\<lambda>_ _. True) no_source 8 empty_store
      [example_created, example_archived ''B'' ''archive''] = (Inr (es, st) :: string store_error + _) \<and>
    (\<forall>st'. RebuildProjections (\<lambda>_ _. True) 9 st = (Inr st' :: string store_error + _) \<longrightarrow>
      st' = st\<lparr>checkpoint := Some (last_position st, 9)\<rparr>)"
proof (rule example_appended)
  fix es st
  assume "Append permissive no_source 8 empty_store
      [example_created, example_archived ''B'' ''archive''] = (Inr (es, st) :: string store_error + _)"
    and "reachable_store st"
  with rebuild_reproduces [of st permissive 9, where 'f = string] show ?thesis by blast
qed

end
