(* ===== verification/Settlement.thy ===== *)
theory Settlement
  imports EventLog
begin

text \<open>
  Deleting a work item is safe: in every reachable store the runs of a deleted work item are
  completed or cancelled and its attempts are over. The property spans the guards of
  \<open>applyProjection\<close>, the run, attempt and work reducers, and the columns the upserts write.
\<close>

definition deleted :: "tables \<Rightarrow> string \<Rightarrow> bool" where
  "deleted t w \<longleftrightarrow> (case map_of (work_item_projection t) w of
     None \<Rightarrow> False | Some work \<Rightarrow> Deletion work = WorkDeleted)"

definition settled :: "tables \<Rightarrow> bool" where
  "settled t \<longleftrightarrow> (\<forall>w. deleted t w \<longrightarrow> unfinished_runs t w = [] \<and> live_attempts t w = [])"

section \<open>What the reducers change\<close>

lemma ReduceRun_step:
  assumes "ReduceRun c e = Reduced p"
  shows "case c of None \<Rightarrow> Kind e = ''run.created''
    | Some r \<Rightarrow> run_WorkItemID p = run_WorkItemID r \<and> run_lifecycle (run_Status r) (Kind e) (run_Status p)"
proof (cases c)
  case None
  with assms have "create_run e = Inr p"
    unfolding ReduceRun_def by (auto elim: reduced_create)
  with None show ?thesis by (auto simp: create_run_def split: if_splits)
next
  case (Some r)
  then obtain q where "run_switch r e = Inr q" and "p = advance e q"
    using assms unfolding ReduceRun_def by (auto elim: reduced_switch)
  with Some show ?thesis
    using run_switch_keeps [of r e q] run_switch_lifecycle [of r e q] by (simp add: advance_def)
qed

lemma ReduceAttempt_step:
  assumes "ReduceAttempt c e = Reduced p"
  shows "case c of None \<Rightarrow> Kind e = ''attempt.created'' \<and>
        Option.bind (unmarshal_object (Data e)) (get_string ''runId'') = Some (attempt_RunID p)
    | Some a \<Rightarrow> attempt_RunID p = attempt_RunID a \<and>
        attempt_lifecycle (attempt_Status a) (Kind e) (attempt_Status p)"
proof (cases c)
  case None
  with assms have "create_attempt e = Inr p"
    unfolding ReduceAttempt_def by (auto elim: reduced_create)
  with None show ?thesis
    by (auto simp: create_attempt_def decodeData_def Let_def split: if_splits option.splits Option.bind_splits)
next
  case (Some a)
  then obtain q where "attempt_switch a e = Inr q" and "p = advance e q"
    using assms unfolding ReduceAttempt_def by (auto elim: reduced_switch)
  with Some show ?thesis
    using attempt_switch_keeps [of a e q] attempt_switch_lifecycle [of a e q] by (simp add: advance_def)
qed

lemma ReduceWorkItem_step:
  assumes "ReduceWorkItem c e = Reduced p" and "Deletion p = WorkDeleted"
  shows "Kind e = ''work.deleted'' \<or> (\<exists>w. c = Some w \<and> Deletion w = WorkDeleted)"
proof (cases c)
  case None
  with assms have "create_work e = Inr p"
    unfolding ReduceWorkItem_def by (auto elim: reduced_create)
  with assms(2) show ?thesis by (auto simp: create_work_def Let_def split: if_splits)
next
  case (Some w)
  then obtain q where "work_switch w e = Inr q" and "p = advance e q"
    using assms unfolding ReduceWorkItem_def by (auto elim: reduced_switch)
  with Some assms(2) show ?thesis
    by (auto simp: advance_def work_switch_defs Let_def split: if_splits)
qed

inductive_cases run_leaves_completed: "run_lifecycle RunCompleted k s"
inductive_cases run_leaves_cancelled: "run_lifecycle RunCancelled k s"

lemma finished_run_stays:
  assumes "run_lifecycle s k s'" and "s \<in> {RunCompleted, RunCancelled}" and "k \<noteq> ''run.continued''"
  shows "s' \<in> {RunCompleted, RunCancelled}"
  using assms by (auto elim: run_leaves_completed run_leaves_cancelled)

abbreviation (input) live_status :: "AttemptStatus set" where
  "live_status \<equiv> {AttemptCreated, AttemptStarting, AttemptRunning, AttemptValidating, AttemptReconcileRequired}"

lemma attempt_step_live: "attempt_lifecycle s k s' \<Longrightarrow> s \<in> live_status"
  by (erule attempt_lifecycle.cases) auto

section \<open>Events preserve settlement\<close>

lemma project_withE:
  assumes "project_with r rows write t e = Inr t'"
  obtains "t' = t" | p where "r (map_of rows (AggregateID e)) e = Reduced p" and "write p = Inr t'"
  using assms by (auto simp: project_with_def split: reduction.splits)

lemma settled_cong:
  assumes "run_projection t' = run_projection t" and "attempt_projection t' = attempt_projection t"
    and "work_item_projection t' = work_item_projection t"
  shows "settled t' = settled t"
  using assms by (simp add: settled_def deleted_def unfinished_runs_def live_attempts_def)

lemma execute_Inr [simp]: "execute sqlite t s n = Inr t' \<longleftrightarrow> sqlite t s \<and> t' = n"
  by (auto simp: execute_def)

lemma writePoint_others:
  assumes "writePointProjection sqlite t p = Inr t'"
  shows "run_projection t' = run_projection t" "attempt_projection t' = attempt_projection t"
    "work_item_projection t' = work_item_projection t"
  using assms by (auto simp: writePointProjection_def)

lemma upsert_in:
  assumes "(i, v) \<in> set (upsert f rows p)"
  shows "(i, v) \<in> set rows \<or> i = ResourceID p \<and>
    v = (case map_of rows (ResourceID p) of None \<Rightarrow> p | Some old \<Rightarrow> f old p)"
  using assms by (auto simp: upsert_def dest: set_map_putE)

lemma map_of_upsert:
  "map_of (upsert f rows p) i = (if i = ResourceID p
     then Some (case map_of rows (ResourceID p) of None \<Rightarrow> p | Some old \<Rightarrow> f old p) else map_of rows i)"
  by (simp add: upsert_def)

lemma unfinished_iff: "unfinished_runs t w = [] \<longleftrightarrow>
    (\<forall>(i, r) \<in> set (run_projection t). run_WorkItemID r = w \<longrightarrow> run_Status r \<in> {RunCompleted, RunCancelled})"
  by (auto simp: unfinished_runs_def filter_empty_conv)

definition run_of :: "tables \<Rightarrow> string \<Rightarrow> string \<Rightarrow> bool" where
  "run_of t i w \<longleftrightarrow> (case map_of (run_projection t) i of None \<Rightarrow> False | Some r \<Rightarrow> run_WorkItemID r = w)"

lemma live_iff: "live_attempts t w = [] \<longleftrightarrow>
    (\<forall>(i, a) \<in> set (attempt_projection t). run_of t (attempt_RunID a) w \<longrightarrow> attempt_Status a \<notin> live_status)"
  by (auto simp: live_attempts_def filter_empty_conv run_of_def)

lemma retained_not_deleted: "requireRetainedWork t w = Inr u \<Longrightarrow> \<not> deleted t w"
  by (auto simp: requireRetainedWork_def deleted_def split: option.splits if_splits)

lemma settled_work:
  assumes "settled t" and "guard_event t e = (Inr u :: 'f store_error + unit)"
    and "ReduceWorkItem (map_of (work_item_projection t) (AggregateID e)) e = Reduced p"
    and "writeWorkItemProjection sqlite t p = Inr t'"
  shows "settled t'"
proof -
  have p: "ResourceID p = AggregateID e"
    using assms(3) work_reducer.created [of e p] work_reducer.advanced [of _ e p]
    by (cases "map_of (work_item_projection t) (AggregateID e)") (auto simp: stamped_def)
  have t': "t' = t\<lparr>work_item_projection := work_item_projection t'\<rparr>"
      and row: "\<And>w. map_of (work_item_projection t') w = (if w = AggregateID e then Some
        (case map_of (work_item_projection t) w of None \<Rightarrow> p | Some old \<Rightarrow>
          (set_stamps old p)\<lparr>work_Status := work_Status p, Deletion := Deletion p\<rparr>)
        else map_of (work_item_projection t) w)"
    using assms(4) p by (auto simp: writeWorkItemProjection_def map_of_upsert)
  have "unfinished_runs t w = [] \<and> live_attempts t w = []" if "deleted t' w" for w
  proof (cases "deleted t w")
    case True
    with assms(1) show ?thesis by (simp add: settled_def)
  next
    case False
    with that have w: "w = AggregateID e" and d: "Deletion p = WorkDeleted"
      by (auto simp: deleted_def row split: if_splits option.splits)
    with False ReduceWorkItem_step [OF assms(3) d] have "Kind e = ''work.deleted''"
      by (auto simp: deleted_def)
    with assms(2) w show ?thesis by (auto simp: guard_event_def split: if_splits)
  qed
  moreover have "unfinished_runs t' w = unfinished_runs t w" "live_attempts t' w = live_attempts t w" for w
    by (subst t', simp add: unfinished_runs_def live_attempts_def)+
  ultimately show ?thesis by (simp add: settled_def)
qed

lemma settled_run:
  assumes "settled t" and red: "ReduceRun (map_of (run_projection t) (AggregateID e)) e = Reduced p"
    and ret: "Kind e \<in> set run_kinds_of_retained_work \<Longrightarrow> \<not> deleted t (run_WorkItemID p)"
    and "writeRunProjection sqlite t p = Inr t'"
  shows "settled t'"
proof -
  let ?old = "map_of (run_projection t) (AggregateID e)"
  let ?row = "case ?old of None \<Rightarrow> stored_run p | Some old \<Rightarrow> set_run_columns old (stored_run p)"
  have p: "ResourceID p = AggregateID e"
    using red run_reducer.created [of e p] run_reducer.advanced [of _ e p]
    by (cases ?old) (auto simp: stamped_def)
  have stored: "ResourceID (stored_run p) = AggregateID e" "run_WorkItemID (stored_run p) = run_WorkItemID p"
      "run_Status (stored_run p) = run_Status p"
    by (simp_all add: stored_run_def p)
  have t': "t' = t\<lparr>run_projection := upsert set_run_columns (run_projection t) (stored_run p)\<rparr>"
    using assms(4) by (simp add: writeRunProjection_def)
  have row: "run_WorkItemID ?row = run_WorkItemID p" "run_Status ?row = run_Status p"
    using ReduceRun_step [OF red] stored
    by (auto simp: set_run_columns_def set_stamps_def split: option.splits)
  have same: "deleted t' w = deleted t w" for w by (simp add: t' deleted_def)
  have finished: "run_Status p \<in> {RunCompleted, RunCancelled}" if "deleted t (run_WorkItemID p)"
  proof (cases ?old)
    case None
    with ReduceRun_step [OF red] ret that show ?thesis by (simp add: run_kinds_of_retained_work_def)
  next
    case (Some r)
    with ReduceRun_step [OF red] have r: "run_WorkItemID p = run_WorkItemID r"
        "run_lifecycle (run_Status r) (Kind e) (run_Status p)" by auto
    have "run_Status r \<in> {RunCompleted, RunCancelled}"
      using assms(1) that r(1) map_of_SomeD [OF Some]
      by (fastforce simp: settled_def unfinished_iff)
    with finished_run_stays [OF r(2)] ret that show ?thesis by (auto simp: run_kinds_of_retained_work_def)
  qed
  have "unfinished_runs t' w = []" if "deleted t w" for w
    using assms(1) that finished row
    by (auto simp: settled_def unfinished_iff t' stored dest!: upsert_in)
  moreover have "live_attempts t' w = []" if d: "deleted t w" for w
  proof -
    have "run_of t' i w \<longleftrightarrow> run_of t i w" for i
    proof (cases ?old)
      case None
      with ReduceRun_step [OF red] ret d have "run_WorkItemID p \<noteq> w"
        by (auto simp: run_kinds_of_retained_work_def)
      with None row show ?thesis by (simp add: run_of_def t' map_of_upsert stored)
    next
      case (Some r)
      with ReduceRun_step [OF red] row show ?thesis by (simp add: run_of_def t' map_of_upsert stored)
    qed
    with assms(1) d show ?thesis by (auto simp: settled_def live_iff t')
  qed
  ultimately show ?thesis by (simp add: settled_def same)
qed

lemma settled_attempt:
  assumes "settled t" and guard: "guard_event t e = (Inr u :: 'f store_error + unit)"
    and red: "ReduceAttempt (map_of (attempt_projection t) (AggregateID e)) e = Reduced p"
    and "writeAttemptProjection sqlite t p = Inr t'"
  shows "settled t'"
proof -
  let ?old = "map_of (attempt_projection t) (AggregateID e)"
  let ?row = "case ?old of None \<Rightarrow> stored_attempt p | Some old \<Rightarrow> set_attempt_columns old (stored_attempt p)"
  have p: "ResourceID p = AggregateID e"
    using red attempt_reducer.created [of e p] attempt_reducer.advanced [of _ e p]
    by (cases ?old) (auto simp: stamped_def)
  have stored: "ResourceID (stored_attempt p) = AggregateID e" "attempt_RunID (stored_attempt p) = attempt_RunID p"
      "attempt_Status (stored_attempt p) = attempt_Status p"
    by (simp_all add: stored_attempt_def p)
  have t': "t' = t\<lparr>attempt_projection := upsert set_attempt_columns (attempt_projection t) (stored_attempt p)\<rparr>"
    using assms(4) by (simp add: writeAttemptProjection_def)
  have row: "attempt_RunID ?row = attempt_RunID p" "attempt_Status ?row = attempt_Status p"
    using ReduceAttempt_step [OF red] stored
    by (auto simp: set_attempt_columns_def set_stamps_def split: option.splits)
  have rows: "attempt_projection t' = upsert set_attempt_columns (attempt_projection t) (stored_attempt p)"
    by (simp add: t')
  have same: "deleted t' w = deleted t w" "run_of t' i w = run_of t i w" for w i
    by (simp_all add: t' deleted_def run_of_def)
  have over: "\<not> run_of t (attempt_RunID p) w" if d: "deleted t w" for w
  proof (cases ?old)
    case None
    with ReduceAttempt_step [OF red] have created: "Kind e = ''attempt.created''"
        "Option.bind (unmarshal_object (Data e)) (get_string ''runId'') = Some (attempt_RunID p)" by auto
    have "require_retained_run t (attempt_RunID p) = (Inr () :: 'f store_error + unit)"
      using guard created by (auto simp: guard_event_def attempt_run_def split: if_splits)
    with d show ?thesis
      by (auto simp: run_of_def require_retained_run_def dest: retained_not_deleted split: option.splits)
  next
    case (Some a)
    with ReduceAttempt_step [OF red] have a: "attempt_RunID p = attempt_RunID a"
        "attempt_Status a \<in> live_status" using attempt_step_live by auto
    with assms(1) d map_of_SomeD [OF Some] show ?thesis by (fastforce simp: settled_def live_iff)
  qed
  have "live_attempts t' w = []" if "deleted t w" for w
    using assms(1) that over [OF that] row
    by (auto simp: settled_def live_iff same rows stored dest!: upsert_in)
  moreover have "unfinished_runs t' w = unfinished_runs t w" for w by (simp add: t' unfinished_runs_def)
  ultimately show ?thesis using assms(1) by (simp add: settled_def same)
qed

definition unrelated :: "tables \<Rightarrow> tables \<Rightarrow> bool" where
  "unrelated t t' \<longleftrightarrow> run_projection t' = run_projection t \<and> attempt_projection t' = attempt_projection t \<and>
     work_item_projection t' = work_item_projection t"

lemma write_unrelated:
  "writeProjectProjection sqlite t pr = Inr t' \<Longrightarrow> unrelated t t'"
  "writeStoryProjection sqlite t s = Inr t' \<Longrightarrow> unrelated t t'"
  "writePointProjection sqlite t p = Inr t' \<Longrightarrow> unrelated t t'"
  "writeNodeProjection sqlite t n = Inr t' \<Longrightarrow> unrelated t t'"
  "writeApprovalProjection sqlite t ap = Inr t' \<Longrightarrow> unrelated t t'"
  "writeReadinessAssessmentProjection sqlite t ra = Inr t' \<Longrightarrow> unrelated t t'"
  "writeInputRequestProjection sqlite t i = Inr t' \<Longrightarrow> unrelated t t'"
  "writeProviderPermissionProjection sqlite t pp = Inr t' \<Longrightarrow> unrelated t t'"
  by (auto simp: unrelated_def writeProjectProjection_def writeStoryProjection_def writeNodeProjection_def
      writeApprovalProjection_def writeReadinessAssessmentProjection_def writeInputRequestProjection_def
      writeProviderPermissionProjection_def dest: writePoint_others)

lemma project_unrelated:
  "project_with r rows write t e = Inr t' \<Longrightarrow> (\<And>p. write p = Inr t' \<Longrightarrow> unrelated t t') \<Longrightarrow> unrelated t t'"
  by (erule project_withE) (auto simp: unrelated_def)

lemma if_InrE:
  "(if b then x else y) = Inr r \<Longrightarrow> (x = Inr r \<Longrightarrow> P) \<Longrightarrow> (y = Inr r \<Longrightarrow> P) \<Longrightarrow> P"
  by (cases b) auto

lemma apply_switch_cases:
  assumes "apply_switch sqlite t e = (Inr t' :: 'f store_error + tables)"
  obtains "unrelated t t'"
  | "project_with ReduceWorkItem (work_item_projection t) (writeWorkItemProjection sqlite t) t e = (Inr t' :: 'f store_error + tables)"
  | "project_with ReduceRun (run_projection t) (\<lambda>next.
       result_bind (if Kind e \<in> set run_kinds_of_retained_work
         then requireRetainedWork t (run_WorkItemID next) else Inr ()) (\<lambda>_.
       writeRunProjection sqlite t next)) t e = (Inr t' :: 'f store_error + tables)"
  | "project_with ReduceAttempt (attempt_projection t) (writeAttemptProjection sqlite t) t e = (Inr t' :: 'f store_error + tables)"
proof -
  have same: "unrelated t t'" if "Inr t = (Inr t' :: 'f store_error + tables)"
    using that by (simp add: unrelated_def)
  show thesis
    using assms unfolding apply_switch_def Let_def
    by (elim if_InrE) ((rule that(1), erule project_unrelated, erule write_unrelated) |
        (erule that(2)) | (erule that(3)) | (erule that(4)) | (rule that(1), erule same))+
qed

lemma settled_apply:
  assumes "settled t" and "applyProjection sqlite t e = (Inr t' :: 'f store_error + tables)"
  shows "settled t'"
proof -
  obtain u where guard: "guard_event t e = (Inr u :: 'f store_error + unit)"
      and sw: "apply_switch sqlite t e = (Inr t' :: 'f store_error + tables)"
    using assms(2) by (auto simp: applyProjection_def split: if_splits)
  from sw show ?thesis
  proof (cases rule: apply_switch_cases)
    case 1
    with assms(1) show ?thesis using settled_cong [of t' t] by (simp add: unrelated_def)
  next
    case 2
    then show ?thesis
      by (rule project_withE) (use assms(1) settled_work [OF assms(1) guard] in blast)+
  next
    case 3
    then show ?thesis
    proof (rule project_withE)
      fix p
      assume "ReduceRun (map_of (run_projection t) (AggregateID e)) e = Reduced p"
        and "result_bind (if Kind e \<in> set run_kinds_of_retained_work
          then requireRetainedWork t (run_WorkItemID p) else Inr ()) (\<lambda>_. writeRunProjection sqlite t p) =
          (Inr t' :: 'f store_error + tables)"
      then show ?thesis
        by (intro settled_run [OF assms(1)]) (auto dest: retained_not_deleted)
    qed (use assms(1) in simp)
  next
    case 4
    then show ?thesis
      by (rule project_withE) (use assms(1) settled_attempt [OF assms(1) guard] in blast)+
  qed
qed

lemma settled_all:
  "settled t \<Longrightarrow> apply_all sqlite t es = Inr t' \<Longrightarrow> settled t'"
  by (induction es arbitrary: t) (auto dest: settled_apply)

lemma settled_empty: "settled empty_tables"
  by (simp add: settled_def deleted_def empty_tables_def)

lemma store_settled: "store_ok st \<Longrightarrow> settled (store_tables st)"
  using settled_all [OF settled_empty] by (auto simp: store_ok_def projected_def)

section \<open>The property\<close>

definition settlement_event :: "string \<Rightarrow> AggregateType \<Rightarrow> string \<Rightarrow> raw_message \<Rightarrow> uint64 \<Rightarrow> PendingEvent" where
  "settlement_event i aggregate kind data revision = (example_pending i i kind data revision)
     \<lparr>AggregateType := aggregate, AggregateID := aggregate @ ''_00000000000000000000000001''\<rparr>"

definition example_deletion :: "PendingEvent list" where
  \<open>example_deletion = [
     settlement_event ''A'' AggregateWork ''work.created'' ''{"projectId":"p","title":"t","sourceHash":"0000000000000000000000000000000000000000000000000000000000000000"}'' 0,
     settlement_event ''B'' AggregateRun ''run.created'' ''{"workItemId":"work_00000000000000000000000001","workflowId":"w","workflowVersion":"1"}'' 0,
     settlement_event ''C'' AggregateRun ''run.cancelled'' ''{}'' 1,
     settlement_event ''D'' AggregateWork ''work.deletion_requested'' ''{}'' 1,
     settlement_event ''E'' AggregateWork ''work.deleted'' ''{}'' 2]\<close>

lemma example_deletion_valid: "validate_all example_deletion = (Inr () :: string store_error + unit)"
  by code_simp

lemma example_deletion_items: "case (append_items permissive no_source 8 empty_store example_deletion :: string store_error + _) of
    Inl _ \<Rightarrow> False
  | Inr (es, st) \<Rightarrow> map_option Deletion (map_of (work_item_projection (store_tables st))
        ''work_00000000000000000000000001'') = Some WorkDeleted \<and>
      length (run_projection (store_tables st)) = 1"
  by code_simp

lemma example_deletion: "case (Append permissive no_source 8 empty_store example_deletion :: string store_error + _) of
    Inl _ \<Rightarrow> False
  | Inr (es, st) \<Rightarrow> map_option Deletion (map_of (work_item_projection (store_tables st))
        ''work_00000000000000000000000001'') = Some WorkDeleted \<and>
      length (run_projection (store_tables st)) = 1"
proof -
  have "example_deletion \<noteq> []" by (simp add: example_deletion_def)
  with example_deletion_valid show ?thesis
    using Inr_pairD [OF example_deletion_items]
    by (auto simp: Append_def appendInTransaction_def writeProjectionCheckpoint_def)
qed

text \<open>C25: deleting a work item is safe: in every reachable store, every run of a deleted work item is
  completed or cancelled, and every attempt of such a run has succeeded, failed, been cancelled or
  been interrupted; no later event revives them.\<close>

theorem deleted_work_settled:
  assumes "reachable_store st"
    and "map_of (work_item_projection (store_tables st)) w = Some work" and "Deletion work = WorkDeleted"
  shows "(\<forall>(i, r) \<in> set (run_projection (store_tables st)).
      run_WorkItemID r = w \<longrightarrow> run_Status r \<in> {RunCompleted, RunCancelled}) \<and>
    (\<forall>(i, a) \<in> set (attempt_projection (store_tables st)). \<forall>r.
      map_of (run_projection (store_tables st)) (attempt_RunID a) = Some r \<and> run_WorkItemID r = w \<longrightarrow>
      attempt_Status a \<in> {AttemptSucceeded, AttemptFailed, AttemptCancelled, AttemptInterrupted})"
proof -
  have over: "s \<in> {AttemptSucceeded, AttemptFailed, AttemptCancelled, AttemptInterrupted}"
    if "s \<notin> live_status" for s
    using that by (cases s) auto
  have "unfinished_runs (store_tables st) w = [] \<and> live_attempts (store_tables st) w = []"
    using store_settled [OF reachable_store_ok [OF assms(1)]] assms(2,3)
    by (simp add: settled_def deleted_def)
  then show ?thesis
    unfolding unfinished_iff live_iff run_of_def using over by fastforce
qed

theorem deleted_work_settled_witness:
  "\<exists>es st. Append (\<lambda>_ _. True) no_source 8 empty_store example_deletion = (Inr (es, st) :: string store_error + _) \<and>
    length (run_projection (store_tables st)) = 1 \<and>
    (\<forall>(i, r) \<in> set (run_projection (store_tables st)).
      run_WorkItemID r = ''work_00000000000000000000000001'' \<longrightarrow> run_Status r \<in> {RunCompleted, RunCancelled})"
proof -
  obtain es st work where st: "Append permissive no_source 8 empty_store example_deletion =
      (Inr (es, st) :: string store_error + _)" "length (run_projection (store_tables st)) = 1"
    and work: "map_of (work_item_projection (store_tables st)) ''work_00000000000000000000000001'' = Some work"
      "Deletion work = WorkDeleted"
    using Inr_pairD [OF example_deletion] by auto
  have "reachable_store st" by (rule reachable_store.appended [OF reachable_store.initial st(1)])
  from deleted_work_settled [OF this work] st show ?thesis by blast
qed

end
