(* ===== verification/Spec2Isabelle.thy ===== *)
theory Spec2Isabelle
  imports Recovery ArtifactDiff Scheduler ValidWorkflow Route Predicates Frame ExecutionProjection ApprovalReducer WorkReducer RequestReducer Settlement Coordination
begin

text \<open>
  A verification library for DARKSTAR, a local runtime that executes authored workflows. The runtime is
  written in Go, under \<open>src/runtime/src\<close>; file names below are relative to it.

  \<^bold>\<open>The program.\<close> A workflow is an authored document: nodes with typed inputs and outputs, joined by
  transitions that may carry predicates and loop limits. It is validated statically
  (\<open>core/workflow/validate.go\<close>). A run selects an entry and terminals, for which a route is derived
  (\<open>core/workflow/route.go\<close>), and executes the route in a frame that records which transition fired for
  which visit (\<open>core/workflow/frame.go\<close>); predicates on transitions and gates are evaluated by
  \<open>core/workflow/predicate.go\<close>. Every change of a run, an attempt, an approval, a question or a work item
  is an event, appended to a log in SQLite (\<open>adapters/statestore/sqlite/events.go\<close>). Reducers
  (\<open>core/projection\<close>) fold the events of an aggregate into a row of a projection table, in the transaction
  that appends them. Concurrent attempts coordinate by leases with fencing tokens and by queues
  (\<open>adapters/statestore/sqlite/coordination.go\<close>), and leases left by an earlier process are recovered at
  startup (\<open>adapters/statestore/sqlite/recovery.go\<close>).

  \<^bold>\<open>The theories.\<close>
  \<^item> \<open>Prelude\<close>: Go maps as association lists, strings, results of fallible operations.
  \<^item> \<open>Json\<close>: the part of \<open>encoding/json\<close> that the sources use, with a parser that takes fuel.
  \<^item> \<open>Schema\<close>: the document types of \<open>schema.go\<close>. \<open>Worklist\<close>: the graph searches with an explicit
    stack; the locale \<open>worklist\<close> is their contract, interpreted for both loops.
  \<^item> \<open>Route\<close>, \<open>Predicates\<close>, \<open>Frame\<close>: \<open>route.go\<close>, \<open>predicate.go\<close> and \<open>frame.go\<close>.
  \<^item> \<open>Validation\<close> is \<open>validate.go\<close> with the checks of \<open>resources.go\<close> and \<open>workspace.go\<close>;
    \<open>ValidWorkflow\<close> says what an accepted document guarantees.
  \<^item> \<open>StateTypes\<close>: events, statuses and projection rows of \<open>ports/statestore\<close>. \<open>Reducer\<close>: the frame
    that all reducers share (revision, position, first event), as a locale; \<open>ExecutionProjection\<close>,
    \<open>ApprovalReducer\<close>, \<open>WorkReducer\<close> and \<open>RequestReducer\<close> are the reducers of \<open>core/projection\<close>.
  \<^item> \<open>EventStore\<close>: the log and the tables as a record, \<open>Append\<close>, \<open>RebuildProjections\<close> and the
    queries. \<open>EventLog\<close> and \<open>Settlement\<close>: the invariants of reachable stores.
  \<^item> \<open>Coordination\<close>: leases, queues and the recovery of leases.

  \<^bold>\<open>What is shown.\<close>
  \<^item> Routes: when one is created, that its nodes, transitions, joins and missing inputs are exactly
    those that reachability along enabled transitions gives, and that Go's map order does not matter.
  \<^item> Validation: the depth-first search reports a cycle exactly when normal transitions form one; the
    default-route check agrees with route creation; accepted documents have sound references and joins;
    a walk that respects the loop limits has bounded length.
  \<^item> Predicates: equality is equality of the decoded values, logical operators evaluate every argument,
    failures carry a code and a location inside the predicate.
  \<^item> Frames: firing is idempotent, loop limits are never exceeded, snapshots restore, sub-workflows are
    isolated and typed.
  \<^item> Reducers: runs and attempts implement their state machines exactly; rows satisfy the constraints of
    their tables; provider events, answers, decisions and deletions happen once and in order.
  \<^item> The store: the log is consecutive, retries are answered with the committed events, of two writers at
    one revision one is refused, rebuilding reproduces the tables, deleted work is settled.
  \<^item> Leases: mutual exclusion, fencing of predecessors without wrap-around, and a fair repository lock.

  \<^bold>\<open>Parameters.\<close> \<open>engine\<close> (in \<open>EventStore\<close>) decides whether SQLite accepts a statement in a given
  state of the tables, for failures that the model does not compute; theorems hold for every engine.
  \<open>source_tables\<close> holds the answers of the tracker tables that admission asks. \<open>lower\<close> and
  \<open>capabilities\<close> (in \<open>Validation\<close>) are Unicode lower case and the capability registry. Clocks are
  arguments of the operations.

  \<^bold>\<open>Numbers and fuel.\<close> Revisions, positions, tokens and traversal counts are words of their Go width, and
  wrap as they do there. Times are nanoseconds since the epoch. The JSON parser gets one more unit of
  fuel than twice the length of its text, and \<open>parse_value_fuel\<close> shows that more never changes the
  result; nesting is limited to 10000 as in Go. All other loops terminate by a measure.

  \<^bold>\<open>Not modelled.\<close> The JSON form of documents (\<open>json.go\<close>) and the catalogue of installed workflows,
  which are codecs and file access; the services of \<open>core\<close> that drive providers, workspaces and
  trackers, whose durable effects are the events modelled here; the adapters for external programs; the
  HTTP interface, the command line and the dashboard. Messages of errors are left out: an error carries
  its code, location and details.
\<close>

end
